(* ===== verification/Prelude.thy ===== *)
theory Prelude
  imports Main
begin

text \<open>
  Shared foundations of the development.

  A Go function that may return an error or panic, and that changes a state, is a
  \<open>comp\<close>: a function from the state to an outcome and the new state. \<open>Ok x\<close> is a normal
  return with a nil error, \<open>Err e\<close> a return with a non-nil error, \<open>Panic m\<close> a run-time
  panic. The state survives an error and a panic, as the effects of a Go function do.
  The theory gives the sequencing combinators, the two loop combinators, a weakest
  precondition \<open>wp\<close> with one rewrite rule per combinator (collection \<open>wp_simps\<close>), and the
  generic lemmas on lists that several components use.
\<close>

named_theorems wp_simps "weakest preconditions of the combinators"
named_theorems run_simps "execution equations of the combinators"

section \<open>Outcomes and computations\<close>

datatype ('e, 'a) result = Ok 'a | Err 'e | Panic string

type_synonym ('s, 'e, 'a) comp = "'s \<Rightarrow> ('e, 'a) result \<times> 's"

definition ret :: "'a \<Rightarrow> ('s, 'e, 'a) comp" where
  "ret x s = (Ok x, s)"

definition throw :: "'e \<Rightarrow> ('s, 'e, 'a) comp" where
  "throw e s = (Err e, s)"

definition gopanic :: "string \<Rightarrow> ('s, 'e, 'a) comp" where
  "gopanic m s = (Panic m, s)"

definition bind :: "('s, 'e, 'a) comp \<Rightarrow> ('a \<Rightarrow> ('s, 'e, 'b) comp) \<Rightarrow> ('s, 'e, 'b) comp" where
  "bind m k s = (case m s of
     (Ok x, s') \<Rightarrow> k x s'
   | (Err e, s') \<Rightarrow> (Err e, s')
   | (Panic p, s') \<Rightarrow> (Panic p, s'))"

text \<open>\<open>onErr m h\<close> is the Go idiom \<open>if err != nil { h }\<close> after the call \<open>m\<close>.\<close>

definition onErr :: "('s, 'e, 'a) comp \<Rightarrow> ('e \<Rightarrow> ('s, 'e, 'a) comp) \<Rightarrow> ('s, 'e, 'a) comp" where
  "onErr m h s = (case m s of
     (Ok x, s') \<Rightarrow> (Ok x, s')
   | (Err e, s') \<Rightarrow> h e s'
   | (Panic p, s') \<Rightarrow> (Panic p, s'))"

text \<open>\<open>attempt m\<close> hands the error to the caller as a value, for code that collects errors.\<close>

definition attempt :: "('s, 'e, 'a) comp \<Rightarrow> ('s, 'e, 'e + 'a) comp" where
  "attempt m s = (case m s of
     (Ok x, s') \<Rightarrow> (Ok (Inr x), s')
   | (Err e, s') \<Rightarrow> (Ok (Inl e), s')
   | (Panic p, s') \<Rightarrow> (Panic p, s'))"

definition gets :: "('s \<Rightarrow> 'a) \<Rightarrow> ('s, 'e, 'a) comp" where
  "gets f s = (Ok (f s), s)"

definition modify :: "('s \<Rightarrow> 's) \<Rightarrow> ('s, 'e, unit) comp" where
  "modify f s = (Ok (), f s)"

primrec forM :: "('x \<Rightarrow> ('s, 'e, unit) comp) \<Rightarrow> 'x list \<Rightarrow> ('s, 'e, unit) comp" where
  "forM f [] = ret ()"
| "forM f (x # xs) = bind (f x) (\<lambda>_. forM f xs)"

primrec foldM :: "('b \<Rightarrow> 'x \<Rightarrow> ('s, 'e, 'b) comp) \<Rightarrow> 'b \<Rightarrow> 'x list \<Rightarrow> ('s, 'e, 'b) comp" where
  "foldM f a [] = ret a"
| "foldM f a (x # xs) = bind (f a x) (\<lambda>b. foldM f b xs)"

text \<open>\<open>ofOption p m\<close> dereferences a pointer: \<open>None\<close> is nil and panics.\<close>

definition nilDeref :: string where
  "nilDeref = ''invalid memory address or nil pointer dereference''"

definition deref :: "'a option \<Rightarrow> ('s, 'e, 'a) comp" where
  "deref p = (case p of None \<Rightarrow> gopanic nilDeref | Some x \<Rightarrow> ret x)"

section \<open>Execution and monad laws\<close>

lemma run_ret [run_simps]: "ret x s = (Ok x, s)"
  by (simp add: ret_def)

lemma run_throw [run_simps]: "throw e s = (Err e, s)"
  by (simp add: throw_def)

lemma run_gopanic [run_simps]: "gopanic p s = (Panic p, s)"
  by (simp add: gopanic_def)

lemma run_gets [run_simps]: "gets f s = (Ok (f s), s)"
  by (simp add: gets_def)

lemma run_modify [run_simps]: "modify f s = (Ok (), f s)"
  by (simp add: modify_def)

lemmas [run_simps] = bind_def onErr_def attempt_def

lemma bind_ret [simp]: "bind (ret x) k = k x"
  by (simp add: bind_def ret_def fun_eq_iff)

lemma bind_throw [simp]: "bind (throw e) k = throw e"
  by (simp add: bind_def throw_def fun_eq_iff)

lemma bind_gopanic [simp]: "bind (gopanic p) k = gopanic p"
  by (simp add: bind_def gopanic_def fun_eq_iff)

lemma bind_ret_right [simp]: "bind m ret = m"
  by (auto simp: bind_def ret_def fun_eq_iff split: prod.splits result.splits)

lemma bind_assoc: "bind (bind m f) g = bind m (\<lambda>x. bind (f x) g)"
  by (auto simp: bind_def fun_eq_iff split: prod.splits result.splits)

lemma deref_simps [simp]: "deref None = gopanic nilDeref" "deref (Some x) = ret x"
  by (simp_all add: deref_def)

lemma bind_eq_Ok:
  "bind m k s = (Ok y, s'') \<longleftrightarrow> (\<exists>x s'. m s = (Ok x, s') \<and> k x s' = (Ok y, s''))"
  by (auto simp: bind_def split: prod.splits result.splits)

lemma foldM_append: "foldM f a (xs @ ys) = bind (foldM f a xs) (\<lambda>b. foldM f b ys)"
  by (induction xs arbitrary: a) (simp_all add: bind_assoc)

lemma run_fst: "fst (m s) = r \<Longrightarrow> m s = (r, snd (m s))"
  by (cases "m s") simp

section \<open>Weakest preconditions\<close>

definition wp :: "('s, 'e, 'a) comp \<Rightarrow> (('e, 'a) result \<Rightarrow> 's \<Rightarrow> bool) \<Rightarrow> 's \<Rightarrow> bool" where
  "wp m Q s = (case m s of (r, s') \<Rightarrow> Q r s')"

lemma wp_ret [wp_simps]: "wp (ret x) Q s = Q (Ok x) s"
  by (simp add: wp_def ret_def)

lemma wp_throw [wp_simps]: "wp (throw e) Q s = Q (Err e) s"
  by (simp add: wp_def throw_def)

lemma wp_gopanic [wp_simps]: "wp (gopanic p) Q s = Q (Panic p) s"
  by (simp add: wp_def gopanic_def)

lemma wp_gets [wp_simps]: "wp (gets f) Q s = Q (Ok (f s)) s"
  by (simp add: wp_def gets_def)

lemma wp_modify [wp_simps]: "wp (modify f) Q s = Q (Ok ()) (f s)"
  by (simp add: wp_def modify_def)

lemma wp_bind [wp_simps]:
  "wp (bind m k) Q s =
     wp m (\<lambda>r s'. case r of Ok x \<Rightarrow> wp (k x) Q s' | Err e \<Rightarrow> Q (Err e) s' | Panic p \<Rightarrow> Q (Panic p) s') s"
  by (auto simp: wp_def bind_def split: prod.splits result.splits)

lemma wp_onErr [wp_simps]:
  "wp (onErr m h) Q s =
     wp m (\<lambda>r s'. case r of Ok x \<Rightarrow> Q (Ok x) s' | Err e \<Rightarrow> wp (h e) Q s' | Panic p \<Rightarrow> Q (Panic p) s') s"
  by (auto simp: wp_def onErr_def split: prod.splits result.splits)

lemma wp_attempt [wp_simps]:
  "wp (attempt m) Q s =
     wp m (\<lambda>r s'. case r of Ok x \<Rightarrow> Q (Ok (Inr x)) s' | Err e \<Rightarrow> Q (Ok (Inl e)) s' | Panic p \<Rightarrow> Q (Panic p) s') s"
  by (auto simp: wp_def attempt_def split: prod.splits result.splits)

lemma wp_if [wp_simps]: "wp (if b then m else n) Q s = (if b then wp m Q s else wp n Q s)"
  by simp

lemma wp_conseq: "wp m P s \<Longrightarrow> (\<And>r s'. P r s' \<Longrightarrow> Q r s') \<Longrightarrow> wp m Q s"
  by (auto simp: wp_def)

lemma wpD: "wp m Q s \<Longrightarrow> m s = (r, s') \<Longrightarrow> Q r s'"
  by (simp add: wp_def)

lemma wpI: "(\<And>r s'. m s = (r, s') \<Longrightarrow> Q r s') \<Longrightarrow> wp m Q s"
  by (simp add: wp_def split: prod.splits)

lemma wp_conj: "wp m P s \<Longrightarrow> wp m Q s \<Longrightarrow> wp m (\<lambda>r s'. P r s' \<and> Q r s') s"
  by (simp add: wp_def split: prod.splits)

section \<open>Relational contracts\<close>

text \<open>
  \<open>upholds R m\<close>: every run of \<open>m\<close>, whatever its outcome, relates the state before to the
  state after by \<open>R\<close>. For a reflexive and transitive \<open>R\<close> the contract is compositional:
  the introduction rules below (\<open>upholds_intros\<close>) decompose a computation along its
  combinators.
\<close>

definition upholds :: "('s \<Rightarrow> 's \<Rightarrow> bool) \<Rightarrow> ('s, 'e, 'a) comp \<Rightarrow> bool" where
  "upholds R m \<longleftrightarrow> (\<forall>s. R s (snd (m s)))"

lemma upholdsD: "upholds R m \<Longrightarrow> m s = (r, s') \<Longrightarrow> R s s'"
  by (metis snd_conv upholds_def)

lemma upholds_wp: "upholds R m \<longleftrightarrow> (\<forall>s. wp m (\<lambda>_ s'. R s s') s)"
  by (simp add: upholds_def wp_def case_prod_beta)

lemma wp_upholds: "upholds R m \<Longrightarrow> (\<And>r s'. R s s' \<Longrightarrow> Q r s') \<Longrightarrow> wp m Q s"
  by (simp add: upholds_def wp_def case_prod_beta)

text \<open>The contract calculus, once for every reflexive and transitive relation.\<close>

locale preorder_contract =
  fixes R :: "'s \<Rightarrow> 's \<Rightarrow> bool"
  assumes refl_R: "R s s"
    and trans_R: "R s t \<Longrightarrow> R t u \<Longrightarrow> R s u"
begin

lemma upholds_ret: "upholds R (ret x)"
  by (simp add: upholds_def ret_def refl_R)

lemma upholds_throw: "upholds R (throw e)"
  by (simp add: upholds_def throw_def refl_R)

lemma upholds_gopanic: "upholds R (gopanic p)"
  by (simp add: upholds_def gopanic_def refl_R)

lemma upholds_gets: "upholds R (gets f)"
  by (simp add: upholds_def gets_def refl_R)

lemma upholds_modify: "(\<And>s. R s (f s)) \<Longrightarrow> upholds R (modify f)"
  by (simp add: upholds_def modify_def)

lemma upholds_bind: "upholds R m \<Longrightarrow> (\<And>x. upholds R (k x)) \<Longrightarrow> upholds R (bind m k)"
  by (auto simp: upholds_def bind_def split: prod.splits result.splits)
    (metis snd_conv trans_R snd_conv)+

lemma upholds_onErr: "upholds R m \<Longrightarrow> (\<And>e. upholds R (h e)) \<Longrightarrow> upholds R (onErr m h)"
  by (auto simp: upholds_def onErr_def split: prod.splits result.splits)
    (metis snd_conv trans_R)+

lemma upholds_attempt: "upholds R m \<Longrightarrow> upholds R (attempt m)"
  by (auto simp: upholds_def attempt_def split: prod.splits result.splits)
    (metis snd_conv)+

lemma upholds_deref: "upholds R (deref p)"
  by (cases p) (simp_all add: upholds_ret upholds_gopanic)

lemma upholds_if: "upholds R m \<Longrightarrow> upholds R n \<Longrightarrow> upholds R (if b then m else n)"
  by simp

lemma upholds_case_option:
  "upholds R m \<Longrightarrow> (\<And>x. upholds R (f x)) \<Longrightarrow> upholds R (case p of None \<Rightarrow> m | Some x \<Rightarrow> f x)"
  by (cases p) simp_all

lemma upholds_case_sum:
  "(\<And>x. upholds R (f x)) \<Longrightarrow> (\<And>y. upholds R (g y)) \<Longrightarrow>
   upholds R (case p of Inl x \<Rightarrow> f x | Inr y \<Rightarrow> g y)"
  by (cases p) simp_all

lemma upholds_case_prod: "(\<And>x y. upholds R (f x y)) \<Longrightarrow> upholds R (case p of (x, y) \<Rightarrow> f x y)"
  by (cases p) simp

lemma upholds_case_list:
  "upholds R m \<Longrightarrow> (\<And>x xs. upholds R (f x xs)) \<Longrightarrow> upholds R (case p of [] \<Rightarrow> m | x # xs \<Rightarrow> f x xs)"
  by (cases p) simp_all

lemma upholds_Let: "upholds R (f t) \<Longrightarrow> upholds R (Let t f)"
  by simp

lemma upholds_forM: "(\<And>x. upholds R (f x)) \<Longrightarrow> upholds R (forM f xs)"
  by (induction xs) (simp_all add: upholds_ret upholds_bind)

lemma upholds_foldM: "(\<And>b x. upholds R (f b x)) \<Longrightarrow> upholds R (foldM f a xs)"
  by (induction xs arbitrary: a) (simp_all add: upholds_ret upholds_bind)

lemmas upholds_intros =
  upholds_ret upholds_throw upholds_gopanic upholds_gets upholds_bind upholds_onErr
  upholds_attempt upholds_deref upholds_if upholds_case_option upholds_case_sum
  upholds_case_prod upholds_case_list upholds_Let upholds_forM upholds_foldM

end

section \<open>Lists\<close>

text \<open>Updating the last element, the model of a write through a pointer to it.\<close>

definition update_last :: "('a \<Rightarrow> 'a) \<Rightarrow> 'a list \<Rightarrow> 'a list" where
  "update_last f xs = (if xs = [] then [] else butlast xs @ [f (last xs)])"

lemma update_last_Nil [simp]: "update_last f [] = []"
  by (simp add: update_last_def)

lemma update_last_snoc [simp]: "update_last f (xs @ [x]) = xs @ [f x]"
  by (simp add: update_last_def)

lemma update_last_eq_Nil [simp]: "update_last f xs = [] \<longleftrightarrow> xs = []"
  by (simp add: update_last_def)

lemma length_update_last [simp]: "length (update_last f xs) = length xs"
  by (simp add: update_last_def)

lemma last_update_last [simp]: "xs \<noteq> [] \<Longrightarrow> last (update_last f xs) = f (last xs)"
  by (simp add: update_last_def)

lemma butlast_update_last [simp]: "butlast (update_last f xs) = butlast xs"
  by (simp add: update_last_def)

lemma map_update_last_same:
  assumes "\<And>x. g (f x) = g x"
  shows "map g (update_last f xs) = map g xs"
proof (cases xs rule: rev_cases)
  case (snoc ys y)
  then show ?thesis by (simp add: assms)
qed simp

lemma update_last_comp: "update_last f (update_last g xs) = update_last (f \<circ> g) xs"
  by (cases xs rule: rev_cases) simp_all

lemma list_snoc_butlast: "xs \<noteq> [] \<Longrightarrow> xs = butlast xs @ [last xs]"
  by simp

end
