(* ===== verification/Go_Stdlib.thy ===== *)
theory Go_Stdlib
  imports Prelude "HOL-Library.Sublist" "HOL-Library.List_Lexorder" "HOL-Library.Char_ord"
begin

text \<open>
  What the operator uses of the Go language and its standard library: error values and
  \<open>errors.Join\<close>, the functions of \<open>strings\<close> and \<open>strconv\<close>, the formatting verbs, and
  \<open>time\<close>. A Go string is a sequence of bytes, and so is a \<open>string\<close> here.
\<close>

section \<open>Errors\<close>

text \<open>
  \<open>ErrorString\<close> is what \<open>fmt.Errorf\<close> without \<open>%w\<close> builds, \<open>JoinError\<close> what
  \<open>errors.Join\<close> builds, and \<open>StatusError\<close> an error of the API machinery with its reason
  and its message.
\<close>

datatype go_error =
    ErrorString string
  | StatusError string string
  | JoinError "go_error list"

fun strings_Join :: "string list \<Rightarrow> string \<Rightarrow> string" where
  "strings_Join [] sep = []"
| "strings_Join [x] sep = x"
| "strings_Join (x # y # xs) sep = x @ sep @ strings_Join (y # xs) sep"

definition newline :: string where
  "newline = [CHR 0x0A]"

fun Error :: "go_error \<Rightarrow> string" where
  "Error (ErrorString m) = m"
| "Error (StatusError r m) = m"
| "Error (JoinError es) = strings_Join (map Error es) newline"

text \<open>
  \<open>kubernetes.NewForConfigOrDie\<close> of the client library panics with the error that building the client set gives;
  \<open>newForConfig\<close> is that error in the current state, or the client set.
\<close>

definition NewForConfigOrDie :: "('s \<Rightarrow> go_error + 'a) \<Rightarrow> ('s, 'e, 'a) comp" where
  "NewForConfigOrDie newForConfig s = (case newForConfig s of Inl e \<Rightarrow> (Panic (Error e), s) | Inr cs \<Rightarrow> (Ok cs, s))"

definition errors_Join :: "go_error option list \<Rightarrow> go_error option" where
  "errors_Join es =
     (let ns = map the (filter (\<lambda>e. e \<noteq> None) es)
      in if ns = [] then None else Some (JoinError ns))"

lemma errors_Join_None [simp]: "errors_Join es = None \<longleftrightarrow> set es \<subseteq> {None}"
  by (auto simp: errors_Join_def Let_def filter_empty_conv)

lemma errors_Join_both_nil [simp]: "errors_Join [None, None] = None"
  by simp

section \<open>strings and strconv\<close>

fun strings_Split :: "string \<Rightarrow> char \<Rightarrow> string list" where
  "strings_Split [] sep = [[]]"
| "strings_Split (c # cs) sep =
     (if c = sep then [] # strings_Split cs sep
      else case strings_Split cs sep of [] \<Rightarrow> [[c]] | x # xs \<Rightarrow> (c # x) # xs)"

fun strings_Contains :: "string \<Rightarrow> string \<Rightarrow> bool" where
  "strings_Contains [] sub = (sub = [])"
| "strings_Contains (c # cs) sub = (prefix sub (c # cs) \<or> strings_Contains cs sub)"

text \<open>
  \<open>strings.ToLower\<close> maps the ASCII letters; the bytes of other runes are kept. Beyond ASCII
  the library maps runes by the Unicode tables; the only such runes whose lower case is an
  ASCII byte are U+0130 and U+212A (to \<open>i\<close> and \<open>k\<close>).
\<close>

definition lower_byte :: "char \<Rightarrow> char" where
  "lower_byte c = (let n = (of_char c :: nat) in if 65 \<le> n \<and> n \<le> 90 then char_of (n + 32) else c)"

definition strings_ToLower :: "string \<Rightarrow> string" where
  "strings_ToLower = map lower_byte"

text \<open>
  \<open>strings.TrimSpace\<close> removes leading and trailing runes of Unicode's White_Space; each is
  given by its UTF-8 bytes.
\<close>

definition space_runes :: "string list" where
  "space_runes =
     [[CHR 0x09], [CHR 0x0A], [CHR 0x0B], [CHR 0x0C], [CHR 0x0D], [CHR 0x20],
      [CHR 0xC2, CHR 0x85], [CHR 0xC2, CHR 0xA0], [CHR 0xE1, CHR 0x9A, CHR 0x80],
      [CHR 0xE2, CHR 0x80, CHR 0x80], [CHR 0xE2, CHR 0x80, CHR 0x81],
      [CHR 0xE2, CHR 0x80, CHR 0x82], [CHR 0xE2, CHR 0x80, CHR 0x83],
      [CHR 0xE2, CHR 0x80, CHR 0x84], [CHR 0xE2, CHR 0x80, CHR 0x85],
      [CHR 0xE2, CHR 0x80, CHR 0x86], [CHR 0xE2, CHR 0x80, CHR 0x87],
      [CHR 0xE2, CHR 0x80, CHR 0x88], [CHR 0xE2, CHR 0x80, CHR 0x89],
      [CHR 0xE2, CHR 0x80, CHR 0x8A], [CHR 0xE2, CHR 0x80, CHR 0xA8],
      [CHR 0xE2, CHR 0x80, CHR 0xA9], [CHR 0xE2, CHR 0x80, CHR 0xAF],
      [CHR 0xE2, CHR 0x81, CHR 0x9F], [CHR 0xE3, CHR 0x80, CHR 0x80]]"

function trim_prefix :: "string list \<Rightarrow> string \<Rightarrow> string" where
  "trim_prefix ps s =
     (case find (\<lambda>p. p \<noteq> [] \<and> prefix p s) ps of
        None \<Rightarrow> s
      | Some p \<Rightarrow> trim_prefix ps (drop (length p) s))"
  by pat_completeness auto
termination
proof (relation "measure (\<lambda>(ps, s). length s)")
  fix ps s p
  assume "find (\<lambda>p. p \<noteq> [] \<and> prefix p s) ps = Some p"
  then have "p \<noteq> [] \<and> prefix p s" by (auto simp: find_Some_iff)
  then show "((ps, drop (length p) s), (ps, s)) \<in> measure (\<lambda>(ps, s). length s)"
    by (auto simp: prefix_def)
qed simp

declare trim_prefix.simps [simp del]

definition strings_TrimSpace :: "string \<Rightarrow> string" where
  "strings_TrimSpace s =
     rev (trim_prefix (map rev space_runes) (rev (trim_prefix space_runes s)))"

definition FormatBool :: "bool \<Rightarrow> string" where
  "FormatBool b = (if b then ''true'' else ''false'')"

lemma strings_Split_not_Nil [simp]: "strings_Split s sep \<noteq> []"
  by (induction s) (auto split: list.splits)

lemma strings_Contains_sublist: "strings_Contains s sub \<longleftrightarrow> sublist sub s"
  by (induction s) (auto simp: sublist_Cons_right)

lemma strings_Join_Cons_Cons:
  "xs \<noteq> [] \<Longrightarrow> strings_Join ((c # x) # xs) sep = c # strings_Join (x # xs) sep"
  by (cases xs) simp_all

lemma strings_Join_head: "strings_Join ((c # x) # xs) sep = c # strings_Join (x # xs) sep"
  by (cases xs) simp_all

text \<open>\<open>Join\<close> after \<open>Split\<close> is the identity; \<open>Split\<close> after \<open>Join\<close> too, on separator-free parts.\<close>

lemma strings_Join_Split: "strings_Join (strings_Split s sep) [sep] = s"
proof (induction s)
  case (Cons c cs)
  obtain x xs where s: "strings_Split cs sep = x # xs"
    using strings_Split_not_Nil [of cs sep] by (cases "strings_Split cs sep") auto
  with Cons show ?case by (simp add: strings_Join_head)
qed simp

lemma strings_Split_sepfree: "sep \<notin> set s \<Longrightarrow> strings_Split s sep = [s]"
  by (induction s) auto

lemma strings_Split_append_sep:
  "sep \<notin> set s \<Longrightarrow> strings_Split (s @ sep # t) sep = s # strings_Split t sep"
  by (induction s) auto

lemma strings_Split_Join:
  assumes "xs \<noteq> []" and "\<forall>x\<in>set xs. sep \<notin> set x"
  shows "strings_Split (strings_Join xs [sep]) sep = xs"
  using assms
proof (induction xs "[sep]" rule: strings_Join.induct)
  case (3 x y xs)
  then show ?case by (simp add: strings_Split_append_sep)
qed (simp_all add: strings_Split_sepfree)

lemma strings_Split_parts_sepfree: "x \<in> set (strings_Split s sep) \<Longrightarrow> sep \<notin> set x"
proof (induction s arbitrary: x)
  case (Cons c cs)
  then show ?case by (fastforce split: if_splits list.splits)
qed simp

lemma FormatBool_inj [simp]: "FormatBool a = FormatBool b \<longleftrightarrow> a = b"
  by (auto simp: FormatBool_def)

section \<open>Formatting\<close>

fun digits :: "nat \<Rightarrow> string" where
  "digits n = (if n < 10 then [char_of (48 + n)] else digits (n div 10) @ [char_of (48 + n mod 10)])"

declare digits.simps [simp del]

definition fmt_strings :: "string list \<Rightarrow> string" where
  "fmt_strings xs = ''['' @ strings_Join xs '' '' @ '']''"

text \<open>A Go map is printed with its keys sorted; it is given by its bindings.\<close>

definition fmt_map :: "(string \<times> string) list \<Rightarrow> string" where
  "fmt_map m =
     ''map['' @ strings_Join (map (\<lambda>(k, v). k @ '':'' @ v) (sort_key fst m)) '' '' @ '']''"

section \<open>Maps of strings\<close>

type_synonym str_map = "string \<Rightarrow> string option"

text \<open>\<open>m[k]\<close> is the zero value for a missing key.\<close>

definition map_get :: "str_map \<Rightarrow> string \<Rightarrow> string" where
  "map_get m k = (case m k of None \<Rightarrow> [] | Some v \<Rightarrow> v)"

lemma map_get_simps [simp]:
  "m k = None \<Longrightarrow> map_get m k = []" "m k = Some v \<Longrightarrow> map_get m k = v"
  by (simp_all add: map_get_def)

section \<open>time\<close>

text \<open>
  Instants are nanoseconds since Go's zero \<open>time.Time\<close>; a \<open>*metav1.Time\<close> is an optional
  instant, and \<open>IsZero\<close> holds of nil and of the zero instant. \<open>Sub\<close> saturates at the
  range of \<open>time.Duration\<close>, a signed 64-bit count of nanoseconds.
\<close>

type_synonym time = int
type_synonym duration = int

definition Second :: duration where "Second = 1000000000"
definition Minute :: duration where "Minute = 60 * Second"

definition After :: "time \<Rightarrow> time \<Rightarrow> bool" where "After t u \<longleftrightarrow> u < t"
definition Before :: "time \<Rightarrow> time \<Rightarrow> bool" where "Before t u \<longleftrightarrow> t < u"

definition IsZero :: "time option \<Rightarrow> bool" where
  "IsZero t = (case t of None \<Rightarrow> True | Some u \<Rightarrow> u = 0)"

definition time_Sub :: "time \<Rightarrow> time \<Rightarrow> duration" where
  "time_Sub t u = max (- (2 ^ 63)) (min (2 ^ 63 - 1) (t - u))"

lemma time_Sub_bounds: "- (2 ^ 63) \<le> time_Sub t u" "time_Sub t u < 2 ^ 63"
  by (auto simp: time_Sub_def)

end
