(* ===== verification/Api_Types.thy ===== *)
theory Api_Types
  imports Go_Stdlib
begin

text \<open>
  The custom resource of the operator, \<open>src/api/v1alpha1/noderecovery_types.go\<close>: the
  recovery conditions, phases and reasons, and the \<open>NodeRecovery\<close> object with its status.
  The Go types of the first group are strings; a condition type that is none of the
  declared ones is kept as \<open>OtherCondition\<close>, because the reconciler's switch has no default
  case. An absent value (\<open>omitempty\<close>) has a constructor of its own.
\<close>

section \<open>Conditions, phases, reasons\<close>

datatype RecoveryConditionType =
    EnableCephToolsPod
  | WaitForCephToolsPodRunning
  | WaitForOSDPodsStabilize
  | LabelNodesWithPendingPods
  | ManageCrashLoopBackOffPods
  | ForceDeleteRookCephOSDPods
  | ProcessOCSRemovalTemplate
  | CleanupOSDRemovalJob
  | RetryForceCleanupOSDRemovalJob
  | WaitForPersistenVolumeBound
  | RestartStorageOperator
  | DeleteFailedPodsNodeAffinity
  | StorageClusterFitnessCheck
  | DisableCephTools
  | OtherCondition string

fun condition_string :: "RecoveryConditionType \<Rightarrow> string" where
  "condition_string EnableCephToolsPod = ''EnableCephToolsPod''"
| "condition_string WaitForCephToolsPodRunning = ''WaitForCephToolsPodRunning''"
| "condition_string WaitForOSDPodsStabilize = ''WaitForOSDPodsStabilize''"
| "condition_string LabelNodesWithPendingPods = ''LabelNodesWithPendingPods''"
| "condition_string ManageCrashLoopBackOffPods = ''ManageCrashLoopBackOffPods''"
| "condition_string ForceDeleteRookCephOSDPods = ''ForceDeleteRookCephOSDPods''"
| "condition_string ProcessOCSRemovalTemplate = ''ProcessOCSRemovalTemplate''"
| "condition_string CleanupOSDRemovalJob = ''CleanupOSDRemovalJob''"
| "condition_string RetryForceCleanupOSDRemovalJob = ''RetryForceCleanupOSDRemovalJob''"
| "condition_string WaitForPersistenVolumeBound = ''WaitForPersistenVolumeBound''"
| "condition_string RestartStorageOperator = ''RestartStorageOperator''"
| "condition_string DeleteFailedPodsNodeAffinity = ''DeleteFailedPodsNodeAffinity''"
| "condition_string StorageClusterFitnessCheck = ''StorageClusterFitnessCheck''"
| "condition_string DisableCephTools = ''DisableCephTools''"
| "condition_string (OtherCondition s) = s"

datatype RecoveryPhase = PhaseUnset | RunningPhase | FailedPhase | CompletedPhase

datatype StatusType = StatusUnset | StatusTrue | StatusFalse

datatype RecoveryConditionReason =
    NoReason
  | FailedCheckCephToolsPod
  | FailedRetrieveCephToolPod
  | FailedEnableCephToolsPod
  | FailedDisableCephToolsPod
  | PodNotInRunningPhase
  | FailedRetrievePodsPhase
  | WaitingForPodsToInitialize
  | FailedRetrievePendingPods
  | FailedLabelNodes
  | FailedRetrieveCrashLoopBackOffPods
  | FailedHandleCrashLoopBackOffPods
  | FailedRestartODFOperator
  | FailedDeleteFailedPodsNodeAffinity
  | FailedArchiveCephDaemonCrashMessages
  | FailedRetrieveCephHealthStatus

section \<open>Objects\<close>

record RecoveryCondition =
  cond_Type :: RecoveryConditionType
  cond_LastProbeTime :: time
  cond_LastTransitionTime :: time
  cond_Reason :: RecoveryConditionReason
  cond_Message :: string
  cond_Status :: StatusType

record NodePV =
  nd_NodeName :: string
  nd_PersistentVolumeName :: string
  nd_FailingOSDID :: string

text \<open>\<open>NodeDevice\<close> is a slice of pointers: \<open>None\<close> is a nil element.\<close>

record NodeRecoveryStatus =
  Phase :: RecoveryPhase
  Conditions :: "RecoveryCondition list"
  StartTime :: "time option"
  CompletionTime :: "time option"
  PendingPods :: bool
  CrashLoopBackOffPods :: bool
  NodeDevice :: "NodePV option list"
  ForcedOSDRemoval :: bool
  KeepCephToolsPod :: bool
  OperationalOSDIDs :: "string list"

record NodeRecovery =
  nr_Name :: string
  nr_DeletionTimestamp :: "time option"
  Status :: NodeRecoveryStatus

definition new_status :: NodeRecoveryStatus where
  "new_status =
     \<lparr>Phase = PhaseUnset, Conditions = [], StartTime = None, CompletionTime = None,
      PendingPods = False, CrashLoopBackOffPods = False, NodeDevice = [],
      ForcedOSDRemoval = False, KeepCephToolsPod = False, OperationalOSDIDs = []\<rparr>"

text \<open>The types of the recorded conditions, oldest first.\<close>

abbreviation cond_types :: "NodeRecoveryStatus \<Rightarrow> RecoveryConditionType list" where
  "cond_types st \<equiv> map cond_Type (Conditions st)"

abbreviation current_type :: "NodeRecoveryStatus \<Rightarrow> RecoveryConditionType" where
  "current_type st \<equiv> cond_Type (last (Conditions st))"

end
