(* ===== verification/Kube_Types.thy ===== *)
theory Kube_Types
  imports Go_Stdlib
begin

text \<open>
  The Kubernetes and OpenShift objects the operator reads and writes, each with the fields
  that the operator's code touches, and the options of the client's calls. A Go map that
  the code tests for nil is optional; a \<open>*metav1.Time\<close> is an optional instant.
\<close>

section \<open>Objects\<close>

record NamespacedName =
  nn_Namespace :: string
  nn_Name :: string

record ContainerStateWaiting =
  waiting_Reason :: string
  waiting_Message :: string

record ContainerStateTerminated =
  terminated_Reason :: string

record ContainerStatus =
  cs_Name :: string
  cs_Waiting :: "ContainerStateWaiting option"
  cs_Terminated :: "ContainerStateTerminated option"

record Pod =
  pod_Name :: string
  pod_Namespace :: string
  pod_Labels :: str_map
  pod_DeletionTimestamp :: "time option"
  pod_NodeSelector :: str_map
  pod_Phase :: string
  pod_Reason :: string
  pod_InitContainerStatuses :: "ContainerStatus list"
  pod_ContainerStatuses :: "ContainerStatus list"

abbreviation PodPending :: string where "PodPending \<equiv> ''Pending''"
abbreviation PodRunning :: string where "PodRunning \<equiv> ''Running''"
abbreviation PodSucceeded :: string where "PodSucceeded \<equiv> ''Succeeded''"
abbreviation PodFailed :: string where "PodFailed \<equiv> ''Failed''"
abbreviation VolumeReleased :: string where "VolumeReleased \<equiv> ''Released''"
abbreviation ClaimBound :: string where "ClaimBound \<equiv> ''Bound''"

record Node =
  node_Name :: string
  node_Labels :: "str_map option"

record Deployment =
  dep_Name :: string
  dep_Namespace :: string
  dep_Labels :: str_map
  dep_Replicas :: "int option"

record PersistentVolumeClaim =
  pvc_Name :: string
  pvc_Namespace :: string
  pvc_Labels :: str_map
  pvc_VolumeName :: string
  pvc_Phase :: string

record PersistentVolume =
  pv_Name :: string
  pv_Labels :: str_map
  pv_Phase :: string

record Job =
  job_Name :: string
  job_Namespace :: string

record StorageCluster =
  sc_Name :: string
  sc_Namespace :: string
  sc_EnableCephTools :: bool

record OCSInitialization =
  oi_Name :: string
  oi_Namespace :: string
  oi_EnableCephTools :: bool

record UpdateHistory =
  uh_State :: string
  uh_Version :: string

record ClusterVersion =
  cv_History :: "UpdateHistory list"

abbreviation CompletedUpdate :: string where "CompletedUpdate \<equiv> ''Completed''"

text \<open>
  A \<open>runtime.Object\<close> decoded from a template: its resource, its name and namespace, its
  remaining content, and whether it implements \<open>client.Object\<close>.
\<close>

record kobject =
  obj_Group :: string
  obj_Resource :: string
  obj_Name :: string
  obj_Namespace :: string
  obj_IsClientObject :: bool
  obj_Body :: string

record Parameter =
  par_Name :: string
  par_Value :: string

record RawExtension =
  raw_Object :: "kobject option"
  raw_Raw :: string

record Template =
  tpl_Name :: string
  tpl_Parameters :: "Parameter list"
  tpl_Objects :: "RawExtension list"

section \<open>Call options\<close>

datatype selector_op = OpIn

record LabelSelectorRequirement =
  req_Key :: string
  req_Operator :: selector_op
  req_Values :: "string list"

text \<open>A map of labels is given by its bindings.\<close>

record LabelSelector =
  MatchLabels :: "(string \<times> string) list"
  MatchExpressions :: "LabelSelectorRequirement list"

record ListOptions =
  lo_Namespace :: string
  lo_LabelSelector :: "LabelSelector option"
  lo_MatchingFields :: "(string \<times> string) list"
  lo_MatchingLabels :: "(string \<times> string) list"

definition in_namespace :: "string \<Rightarrow> ListOptions" where
  "in_namespace ns =
     \<lparr>lo_Namespace = ns, lo_LabelSelector = None, lo_MatchingFields = [], lo_MatchingLabels = []\<rparr>"

definition match_labels :: "(string \<times> string) list \<Rightarrow> LabelSelector" where
  "match_labels ls = \<lparr>MatchLabels = ls, MatchExpressions = []\<rparr>"

section \<open>Remote execution\<close>

text \<open>The request of \<open>remoteExecutor.Run\<close>: the pod, the container and the \<open>PodExecOptions\<close>.\<close>

record ExecRequest =
  exec_Namespace :: string
  exec_Pod :: string
  exec_Container :: string
  exec_Command :: "string list"
  exec_Stdin :: bool
  exec_Stdout :: bool
  exec_Stderr :: bool
  exec_TTY :: bool

text \<open>The streams of \<open>remotecommand.StreamOptions\<close> that are set, and its \<open>Tty\<close>.\<close>

record StreamOptions =
  stream_Stdin :: bool
  stream_Stdout :: bool
  stream_Stderr :: bool
  stream_Tty :: bool

section \<open>reconcile.Result\<close>

record Result =
  Requeue :: bool
  RequeueAfter :: duration

definition no_requeue :: Result where
  "no_requeue = \<lparr>Requeue = False, RequeueAfter = 0\<rparr>"

definition requeue :: Result where
  "requeue = \<lparr>Requeue = True, RequeueAfter = 0\<rparr>"

definition requeue_after :: "duration \<Rightarrow> Result" where
  "requeue_after d = \<lparr>Requeue = False, RequeueAfter = d\<rparr>"

end
