(* ===== verification/Environment.thy ===== *)
theory Environment
  imports Api_Types Kube_Types
begin

text \<open>
  The boundary of the operator. Everything that is not in the repository (the API server
  behind \<open>client.Client\<close>, the clock, the template processor, the version library, the
  command executor's transport) is a field of the record \<open>external\<close>: a function on an
  unspecified world \<open>'w\<close>. Nothing is assumed of it here.

  The state of a reconciliation is the world, the \<open>NodeRecovery\<close> object in memory, and the
  trace of everything the operator asked of the outside, in order: API requests, remote
  commands, recorded events and metric increments.
\<close>

section \<open>What the operator does to the outside\<close>

datatype kind =
    KPod | KNode | KDeployment | KPersistentVolume | KPersistentVolumeClaim | KJob | KTemplate
  | KStorageCluster | KOCSInitialization | KClusterVersion | KNodeRecovery

datatype counter =
    TotalOperandInstances
  | CompletedOperandInstances
  | FailedOperandInstances string
  | SuccessRecoveryForNode string
  | FailedRecoveryForNode string

datatype effect =
    GetCall kind NamespacedName
  | ListCall kind ListOptions
  | UpdateNode Node
  | UpdateDeployment Deployment
  | UpdateStorageCluster StorageCluster
  | UpdateOCSInitialization OCSInitialization
  | UpdateStatus NodeRecovery
  | DeletePod Pod
  | DeletePersistentVolume PersistentVolume
  | DeleteJob Job
  | DeleteAllOfPods ListOptions "int option"
  | CreateObject kobject
  | ExecCall ExecRequest
  | LogsCall string string
  | Eventf string string string "duration list"
  | CounterInc counter

text \<open>Requests that change the cluster, as opposed to reads and to the operator's own telemetry.\<close>

fun is_write :: "effect \<Rightarrow> bool" where
  "is_write (GetCall k n) = False"
| "is_write (ListCall k l) = False"
| "is_write (LogsCall n p) = False"
| "is_write (Eventf t r m a) = False"
| "is_write (CounterInc c) = False"
| "is_write _ = True"

section \<open>The outside\<close>

datatype executor =
    SPDYExecutor string ExecRequest
  | WebSocketExecutor string ExecRequest
  | FallbackExecutor executor executor

text \<open>
  \<open>'v\<close> is the type of versions of \<open>hashicorp/go-version\<close>. \<open>NewForConfig\<close> builds a client set
  from the configuration, and reads the files it names.
\<close>

record ('w, 'v) external =
  Get_StorageCluster :: "NamespacedName \<Rightarrow> 'w \<Rightarrow> (go_error + StorageCluster) \<times> 'w"
  Get_OCSInitialization :: "NamespacedName \<Rightarrow> 'w \<Rightarrow> (go_error + OCSInitialization) \<times> 'w"
  Get_ClusterVersion :: "NamespacedName \<Rightarrow> 'w \<Rightarrow> (go_error + ClusterVersion) \<times> 'w"
  Get_Node :: "NamespacedName \<Rightarrow> 'w \<Rightarrow> (go_error + Node) \<times> 'w"
  Get_PersistentVolumeClaim :: "NamespacedName \<Rightarrow> 'w \<Rightarrow> (go_error + PersistentVolumeClaim) \<times> 'w"
  Get_PersistentVolume :: "NamespacedName \<Rightarrow> 'w \<Rightarrow> (go_error + PersistentVolume) \<times> 'w"
  Get_Template :: "NamespacedName \<Rightarrow> 'w \<Rightarrow> (go_error + Template) \<times> 'w"
  Get_Job :: "NamespacedName \<Rightarrow> 'w \<Rightarrow> (go_error + Job) \<times> 'w"
  Get_NodeRecovery :: "NamespacedName \<Rightarrow> 'w \<Rightarrow> (go_error + NodeRecovery) \<times> 'w"
  List_Pod :: "ListOptions \<Rightarrow> 'w \<Rightarrow> (go_error + Pod list) \<times> 'w"
  List_Deployment :: "ListOptions \<Rightarrow> 'w \<Rightarrow> (go_error + Deployment list) \<times> 'w"
  List_PersistentVolume :: "ListOptions \<Rightarrow> 'w \<Rightarrow> (go_error + PersistentVolume list) \<times> 'w"
  List_PersistentVolumeClaim :: "ListOptions \<Rightarrow> 'w \<Rightarrow> (go_error + PersistentVolumeClaim list) \<times> 'w"
  Update_Node :: "Node \<Rightarrow> 'w \<Rightarrow> (go_error + unit) \<times> 'w"
  Update_Deployment :: "Deployment \<Rightarrow> 'w \<Rightarrow> (go_error + unit) \<times> 'w"
  Update_StorageCluster :: "StorageCluster \<Rightarrow> 'w \<Rightarrow> (go_error + unit) \<times> 'w"
  Update_OCSInitialization :: "OCSInitialization \<Rightarrow> 'w \<Rightarrow> (go_error + unit) \<times> 'w"
  Update_Status :: "NodeRecovery \<Rightarrow> 'w \<Rightarrow> (go_error + unit) \<times> 'w"
  Delete_Pod :: "Pod \<Rightarrow> 'w \<Rightarrow> (go_error + unit) \<times> 'w"
  Delete_PersistentVolume :: "PersistentVolume \<Rightarrow> 'w \<Rightarrow> (go_error + unit) \<times> 'w"
  Delete_Job :: "Job \<Rightarrow> 'w \<Rightarrow> (go_error + unit) \<times> 'w"
  DeleteAllOf_Pod :: "ListOptions \<Rightarrow> int option \<Rightarrow> 'w \<Rightarrow> (go_error + unit) \<times> 'w"
  Create_Object :: "kobject \<Rightarrow> 'w \<Rightarrow> (go_error + unit) \<times> 'w"
  Now :: "'w \<Rightarrow> time \<times> 'w"
  MapOrder :: "'w \<Rightarrow> string list \<Rightarrow> string list"
  IsNotFound :: "go_error \<Rightarrow> bool"
  LabelSelectorAsSelector :: "LabelSelector \<Rightarrow> go_error option"
  NewVersion :: "string \<Rightarrow> go_error + 'v"
  LessThan :: "'v \<Rightarrow> 'v \<Rightarrow> bool"
  GetParameterByName :: "Template \<Rightarrow> string \<Rightarrow> nat option"
  ProcessTemplate :: "Template \<Rightarrow> 'w \<Rightarrow> (string list \<times> Template) \<times> 'w"
  NewInvalid :: "string \<Rightarrow> string \<Rightarrow> string list \<Rightarrow> go_error"
  Decode :: "string \<Rightarrow> go_error + kobject"
  fmt_object :: "kobject \<Rightarrow> string"
  NewForConfig :: "'w \<Rightarrow> go_error + unit"
  FindOrDefaultContainerByName :: "Pod \<Rightarrow> string \<Rightarrow> bool \<Rightarrow> (go_error + string) \<times> string"
  NewSPDYExecutor :: "string \<Rightarrow> ExecRequest \<Rightarrow> go_error option"
  NewWebSocketExecutor :: "string \<Rightarrow> ExecRequest \<Rightarrow> go_error option"
  NewFallbackExecutor :: "executor \<Rightarrow> executor \<Rightarrow> go_error option"
  WebsocketsDisabled :: "'w \<Rightarrow> bool"
  StreamWithContext :: "executor \<Rightarrow> StreamOptions \<Rightarrow> 'w \<Rightarrow> (go_error + string \<times> string) \<times> 'w"
  LogStream :: "NamespacedName \<Rightarrow> 'w \<Rightarrow> (go_error + string \<times> go_error option) \<times> 'w"
  OsdIdLabelKey :: string
  OSDOverPVCLabelKey :: string
  NodeAffinityKey :: string
  LabelHostname :: string
  ReasonNodeAffinity :: string
  ContainerCreating :: string
  PodInitializing :: string

section \<open>The state of a reconciliation\<close>

record 'w st =
  world :: 'w
  trace :: "effect list"
  inst :: NodeRecovery

type_synonym ('w, 'a) go = "('w st, go_error, 'a) comp"

definition emit :: "effect \<Rightarrow> ('w, unit) go" where
  "emit e = modify (\<lambda>s. s\<lparr>trace := trace s @ [e]\<rparr>)"

text \<open>\<open>call e f\<close> makes the request \<open>e\<close>, answered by \<open>f\<close>.\<close>

definition call :: "effect \<Rightarrow> ('w \<Rightarrow> (go_error + 'a) \<times> 'w) \<Rightarrow> ('w, 'a) go" where
  "call e f s =
     (case f (world s) of
        (Inl err, w) \<Rightarrow> (Err err, s\<lparr>world := w, trace := trace s @ [e]\<rparr>)
      | (Inr x, w) \<Rightarrow> (Ok x, s\<lparr>world := w, trace := trace s @ [e]\<rparr>))"

definition time_Now :: "('w, 'v) external \<Rightarrow> ('w, time) go" where
  "time_Now c s = (case Now c (world s) of (t, w) \<Rightarrow> (Ok t, s\<lparr>world := w\<rparr>))"

text \<open>\<open>liftSum\<close> and \<open>liftErr\<close> return the outcome of a pure library function.\<close>

definition liftSum :: "go_error + 'a \<Rightarrow> ('w, 'a) go" where
  "liftSum r = (case r of Inl e \<Rightarrow> throw e | Inr x \<Rightarrow> ret x)"

definition liftErr :: "go_error option \<Rightarrow> ('w, unit) go" where
  "liftErr r = (case r of None \<Rightarrow> ret () | Some e \<Rightarrow> throw e)"

definition modify_status :: "(NodeRecoveryStatus \<Rightarrow> NodeRecoveryStatus) \<Rightarrow> ('w, unit) go" where
  "modify_status f = modify (\<lambda>s. s\<lparr>inst := (inst s)\<lparr>Status := f (Status (inst s))\<rparr>\<rparr>)"

text \<open>
  The keys in the order of one \<open>range\<close> over a map: some permutation of them, which the
  language leaves open.
\<close>

definition map_range :: "('w, 'v) external \<Rightarrow> string list \<Rightarrow> ('w, string list) go" where
  "map_range c ks =
     gets (\<lambda>s. let order = MapOrder c (world s) ks
               in if distinct order \<and> set order = set ks then order else ks)"

definition get_status :: "('w, NodeRecoveryStatus) go" where
  "get_status = gets (\<lambda>s. Status (inst s))"

lemma liftSum_simps [simp]: "liftSum (Inl e) = throw e" "liftSum (Inr x) = ret x"
  by (simp_all add: liftSum_def)

lemma liftErr_simps [simp]: "liftErr None = ret ()" "liftErr (Some e) = throw e"
  by (simp_all add: liftErr_def)

lemma run_call [run_simps]:
  "call e f s =
     (case f (world s) of (r, w) \<Rightarrow>
        (case r of Inl err \<Rightarrow> Err err | Inr x \<Rightarrow> Ok x, s\<lparr>world := w, trace := trace s @ [e]\<rparr>))"
  by (simp add: call_def split: prod.splits sum.splits)

lemma run_emit [run_simps]: "emit e s = (Ok (), s\<lparr>trace := trace s @ [e]\<rparr>)"
  by (simp add: emit_def modify_def)

lemma run_get_status [run_simps]: "get_status s = (Ok (Status (inst s)), s)"
  by (simp add: get_status_def gets_def)

lemma run_modify_status [run_simps]:
  "modify_status f s = (Ok (), s\<lparr>inst := (inst s)\<lparr>Status := f (Status (inst s))\<rparr>\<rparr>)"
  by (simp add: modify_status_def modify_def)

lemmas [run_simps] = time_Now_def

lemma bind_emit: "bind (emit e) k s = k () (s\<lparr>trace := trace s @ [e]\<rparr>)"
  by (simp add: bind_def run_emit)

lemma bind_get_status: "bind get_status k s = k (Status (inst s)) s"
  by (simp add: bind_def run_get_status)

lemma wp_emit [wp_simps]: "wp (emit e) Q s = Q (Ok ()) (s\<lparr>trace := trace s @ [e]\<rparr>)"
  by (simp add: emit_def wp_modify)

lemma wp_modify_status [wp_simps]:
  "wp (modify_status f) Q s = Q (Ok ()) (s\<lparr>inst := (inst s)\<lparr>Status := f (Status (inst s))\<rparr>\<rparr>)"
  by (simp add: modify_status_def wp_modify)

lemma wp_get_status [wp_simps]: "wp get_status Q s = Q (Ok (Status (inst s))) s"
  by (simp add: get_status_def wp_gets)

lemma wp_time_Now [wp_simps]:
  "wp (time_Now c) Q s = (case Now c (world s) of (t, w) \<Rightarrow> Q (Ok t) (s\<lparr>world := w\<rparr>))"
  by (simp add: wp_def time_Now_def split: prod.splits)

section \<open>Footprints\<close>

text \<open>
  \<open>footprint P m\<close>: \<open>m\<close> leaves the object in memory alone and adds to the trace only
  effects that satisfy \<open>P\<close>. \<open>traces P\<close> says the same without the frame on the object.
\<close>

definition grows :: "(effect \<Rightarrow> bool) \<Rightarrow> 'w st \<Rightarrow> 'w st \<Rightarrow> bool" where
  "grows P s s' \<longleftrightarrow> (\<exists>es. trace s' = trace s @ es \<and> list_all P es)"

definition grows_frame :: "(effect \<Rightarrow> bool) \<Rightarrow> 'w st \<Rightarrow> 'w st \<Rightarrow> bool" where
  "grows_frame P s s' \<longleftrightarrow> grows P s s' \<and> inst s' = inst s"

abbreviation traces :: "(effect \<Rightarrow> bool) \<Rightarrow> ('w, 'a) go \<Rightarrow> bool" where
  "traces P \<equiv> upholds (grows P)"

abbreviation footprint :: "(effect \<Rightarrow> bool) \<Rightarrow> ('w, 'a) go \<Rightarrow> bool" where
  "footprint P \<equiv> upholds (grows_frame P)"

interpretation tr: preorder_contract "grows P" for P
proof
  show "grows P s s" for s :: "'w st" by (simp add: grows_def)
  show "grows P s u" if "grows P s t" "grows P t u" for s t u :: "'w st"
    using that by (fastforce simp: grows_def)
qed

interpretation fp: preorder_contract "grows_frame P" for P
  by unfold_locales (auto simp: grows_frame_def intro: tr.refl_R tr.trans_R)

lemma grows_mono: "grows P s s' \<Longrightarrow> (\<And>e. P e \<Longrightarrow> Q e) \<Longrightarrow> grows Q s s'"
  by (auto simp: grows_def list_all_iff)

lemma footprint_traces: "footprint P m \<Longrightarrow> traces P m"
  by (simp add: upholds_def grows_frame_def)

lemma footprint_mono: "footprint P m \<Longrightarrow> (\<And>e. P e \<Longrightarrow> Q e) \<Longrightarrow> footprint Q m"
  by (auto simp: upholds_def grows_frame_def intro: grows_mono)

lemma traces_mono: "traces P m \<Longrightarrow> (\<And>e. P e \<Longrightarrow> Q e) \<Longrightarrow> traces Q m"
  by (auto simp: upholds_def intro: grows_mono)

lemma footprint_call: "P e \<Longrightarrow> footprint P (call e f)"
  by (auto simp: upholds_def grows_frame_def grows_def run_call split: prod.splits)

lemma footprint_emit: "P e \<Longrightarrow> footprint P (emit e)"
  by (auto simp: upholds_def grows_frame_def grows_def emit_def modify_def)

lemma footprint_time_Now: "footprint P (time_Now c)"
  by (auto simp: upholds_def grows_frame_def grows_def time_Now_def split: prod.splits)

lemma footprint_liftSum: "footprint P (liftSum r)"
  by (cases r) (simp_all add: fp.upholds_intros)

lemma footprint_liftErr: "footprint P (liftErr r)"
  by (cases r) (simp_all add: fp.upholds_intros)

lemma footprint_map_range: "footprint P (map_range c ks)"
  by (simp add: map_range_def fp.upholds_gets)

lemma map_range_perm:
  "distinct ks \<Longrightarrow> \<exists>order. map_range c ks s = (Ok order, s) \<and> distinct order \<and> set order = set ks"
  by (simp add: map_range_def run_gets Let_def)

lemma footprint_get_status: "footprint P get_status"
  by (simp add: get_status_def fp.upholds_gets)

lemma traces_modify_status: "traces P (modify_status f)"
  by (simp add: upholds_def grows_def modify_status_def modify_def)

lemmas footprint_base =
  footprint_call footprint_emit footprint_time_Now footprint_liftSum footprint_liftErr
  footprint_get_status footprint_map_range

lemmas footprint_intros = fp.upholds_intros footprint_base

lemmas traces_intros =
  tr.upholds_intros traces_modify_status footprint_base [THEN footprint_traces]

text \<open>A footprint as a weakest precondition: the object in memory is unchanged.\<close>

lemma wp_footprint:
  assumes "footprint P m" and "\<And>r s'. inst s' = inst s \<Longrightarrow> grows P s s' \<Longrightarrow> Q r s'"
  shows "wp m Q s"
  using assms by (auto intro: wp_upholds simp: grows_frame_def)

end
