(* ===== verification/Sample_Cluster.thy ===== *)
theory Sample_Cluster
  imports Environment
begin

text \<open>
  An in-memory cluster that answers the client's calls: objects are stored in lists, \<open>Get\<close>
  finds by name and namespace, \<open>List\<close> filters by namespace, labels and fields, \<open>Update\<close>
  replaces, \<open>Delete\<close> removes, and storing a status refuses two conditions of the same type,
  which the resource's schema declares as the key of a list map. It is one instance of the
  record \<open>external\<close>: it shows that the hypotheses of the theorems can hold, and on it
  concrete runs of the operator are evaluated. No theorem assumes it.
\<close>

record cluster =
  cl_pods :: "Pod list"
  cl_nodes :: "Node list"
  cl_deployments :: "Deployment list"
  cl_pvcs :: "PersistentVolumeClaim list"
  cl_pvs :: "PersistentVolume list"
  cl_jobs :: "Job list"
  cl_templates :: "Template list"
  cl_storageclusters :: "StorageCluster list"
  cl_ocsinits :: "OCSInitialization list"
  cl_history :: "UpdateHistory list"
  cl_recoveries :: "NodeRecovery list"
  cl_created :: "kobject list"
  cl_now :: time
  cl_stdout :: string
  cl_log :: string

definition not_found :: go_error where
  "not_found = StatusError ''NotFound'' ''not found''"

definition lookup_by :: "('a \<Rightarrow> bool) \<Rightarrow> ('w \<Rightarrow> 'a list) \<Rightarrow> 'w \<Rightarrow> (go_error + 'a) \<times> 'w" where
  "lookup_by P sel w = (case find P (sel w) of None \<Rightarrow> (Inl not_found, w) | Some x \<Rightarrow> (Inr x, w))"

definition has_labels :: "str_map \<Rightarrow> (string \<times> string) list \<Rightarrow> bool" where
  "has_labels m ls \<longleftrightarrow> list_all (\<lambda>(k, v). m k = Some v) ls"

definition meets :: "str_map \<Rightarrow> LabelSelectorRequirement \<Rightarrow> bool" where
  "meets m q \<longleftrightarrow> (case m (req_Key q) of None \<Rightarrow> False | Some v \<Rightarrow> v \<in> set (req_Values q))"

definition selected :: "ListOptions \<Rightarrow> string \<Rightarrow> str_map \<Rightarrow> string \<Rightarrow> bool" where
  "selected l ns labels phase \<longleftrightarrow>
     (lo_Namespace l = [] \<or> lo_Namespace l = ns) \<and>
     (case lo_LabelSelector l of
        None \<Rightarrow> True
      | Some s \<Rightarrow> has_labels labels (MatchLabels s) \<and> list_all (meets labels) (MatchExpressions s)) \<and>
     has_labels labels (lo_MatchingLabels l) \<and>
     list_all (\<lambda>(k, v). k = ''.status.phase'' \<and> v = phase) (lo_MatchingFields l)"

definition pod_selected :: "ListOptions \<Rightarrow> Pod \<Rightarrow> bool" where
  "pod_selected l p = selected l (pod_Namespace p) (pod_Labels p) (pod_Phase p)"

definition replace_by :: "('a \<Rightarrow> bool) \<Rightarrow> 'a \<Rightarrow> 'a list \<Rightarrow> (go_error + 'a list)" where
  "replace_by P x xs = (if list_ex P xs then Inr (map (\<lambda>y. if P y then x else y) xs) else Inl not_found)"

definition update_by ::
  "('a \<Rightarrow> bool) \<Rightarrow> 'a \<Rightarrow> ('w \<Rightarrow> 'a list) \<Rightarrow> ('a list \<Rightarrow> 'w \<Rightarrow> 'w) \<Rightarrow> 'w \<Rightarrow> (go_error + unit) \<times> 'w" where
  "update_by P x sel upd w =
     (case replace_by P x (sel w) of Inl e \<Rightarrow> (Inl e, w) | Inr xs \<Rightarrow> (Inr (), upd xs w))"

text \<open>Versions: the dotted decimal segments, compared with missing segments as zero.\<close>

fun parse_digits :: "nat \<Rightarrow> string \<Rightarrow> nat option" where
  "parse_digits n [] = Some n"
| "parse_digits n (c # cs) =
     (let d = (of_char c :: nat) in if 48 \<le> d \<and> d \<le> 57 then parse_digits (10 * n + (d - 48)) cs else None)"

definition parse_segments :: "string \<Rightarrow> nat list option" where
  "parse_segments s =
     (let ps = strings_Split s (CHR ''.'')
      in if [] \<in> set ps then None
         else those (map (parse_digits 0) ps))"

definition sample_NewVersion :: "string \<Rightarrow> go_error + nat list" where
  "sample_NewVersion s =
     (case parse_segments (if s \<noteq> [] \<and> hd s = CHR ''v'' then tl s else s) of
        None \<Rightarrow> Inl (ErrorString (''Malformed version: '' @ s))
      | Some v \<Rightarrow> Inr v)"

fun version_less :: "nat list \<Rightarrow> nat list \<Rightarrow> bool" where
  "version_less [] [] = False"
| "version_less [] (y # ys) = (0 < y \<or> version_less [] ys)"
| "version_less (x # xs) [] = (x = 0 \<and> version_less xs [])"
| "version_less (x # xs) (y # ys) = (x < y \<or> x = y \<and> version_less xs ys)"

fun param_index :: "Parameter list \<Rightarrow> string \<Rightarrow> nat option" where
  "param_index [] n = None"
| "param_index (p # ps) n = (if par_Name p = n then Some 0 else map_option Suc (param_index ps n))"

definition sample :: "(cluster, nat list) external" where
  "sample = \<lparr>
     Get_StorageCluster = (\<lambda>k. lookup_by (\<lambda>x. sc_Name x = nn_Name k \<and> sc_Namespace x = nn_Namespace k) cl_storageclusters),
     Get_OCSInitialization = (\<lambda>k. lookup_by (\<lambda>x. oi_Name x = nn_Name k \<and> oi_Namespace x = nn_Namespace k) cl_ocsinits),
     Get_ClusterVersion = (\<lambda>k w. (Inr \<lparr>cv_History = cl_history w\<rparr>, w)),
     Get_Node = (\<lambda>k. lookup_by (\<lambda>x. node_Name x = nn_Name k) cl_nodes),
     Get_PersistentVolumeClaim = (\<lambda>k. lookup_by (\<lambda>x. pvc_Name x = nn_Name k \<and> pvc_Namespace x = nn_Namespace k) cl_pvcs),
     Get_PersistentVolume = (\<lambda>k. lookup_by (\<lambda>x. pv_Name x = nn_Name k) cl_pvs),
     Get_Template = (\<lambda>k. lookup_by (\<lambda>x. tpl_Name x = nn_Name k) cl_templates),
     Get_Job = (\<lambda>k. lookup_by (\<lambda>x. job_Name x = nn_Name k \<and> job_Namespace x = nn_Namespace k) cl_jobs),
     Get_NodeRecovery = (\<lambda>k. lookup_by (\<lambda>x. nr_Name x = nn_Name k) cl_recoveries),
     List_Pod = (\<lambda>l w. (Inr (filter (pod_selected l) (cl_pods w)), w)),
     List_Deployment = (\<lambda>l w. (Inr (filter (\<lambda>d. selected l (dep_Namespace d) (dep_Labels d) []) (cl_deployments w)), w)),
     List_PersistentVolume = (\<lambda>l w. (Inr (filter (\<lambda>p. selected l [] (pv_Labels p) (pv_Phase p)) (cl_pvs w)), w)),
     List_PersistentVolumeClaim = (\<lambda>l w. (Inr (filter (\<lambda>p. selected l (pvc_Namespace p) (pvc_Labels p) (pvc_Phase p)) (cl_pvcs w)), w)),
     Update_Node = (\<lambda>x. update_by (\<lambda>y. node_Name y = node_Name x) x cl_nodes (\<lambda>xs w. w\<lparr>cl_nodes := xs\<rparr>)),
     Update_Deployment = (\<lambda>x. update_by (\<lambda>y. dep_Name y = dep_Name x \<and> dep_Namespace y = dep_Namespace x) x
        cl_deployments (\<lambda>xs w. w\<lparr>cl_deployments := xs\<rparr>)),
     Update_StorageCluster = (\<lambda>x. update_by (\<lambda>y. sc_Name y = sc_Name x \<and> sc_Namespace y = sc_Namespace x) x
        cl_storageclusters (\<lambda>xs w. w\<lparr>cl_storageclusters := xs\<rparr>)),
     Update_OCSInitialization = (\<lambda>x. update_by (\<lambda>y. oi_Name y = oi_Name x \<and> oi_Namespace y = oi_Namespace x) x
        cl_ocsinits (\<lambda>xs w. w\<lparr>cl_ocsinits := xs\<rparr>)),
     Update_Status = (\<lambda>x w. if distinct (cond_types (Status x))
        then update_by (\<lambda>y. nr_Name y = nr_Name x) x cl_recoveries (\<lambda>xs w. w\<lparr>cl_recoveries := xs\<rparr>) w
        else (Inl (StatusError ''Invalid'' ''duplicate entries for key type''), w)),
     Delete_Pod = (\<lambda>x w. (Inr (), w\<lparr>cl_pods := filter (\<lambda>p. pod_Name p \<noteq> pod_Name x \<or> pod_Namespace p \<noteq> pod_Namespace x) (cl_pods w)\<rparr>)),
     Delete_PersistentVolume = (\<lambda>x w. (Inr (), w\<lparr>cl_pvs := filter (\<lambda>p. pv_Name p \<noteq> pv_Name x) (cl_pvs w)\<rparr>)),
     Delete_Job = (\<lambda>x w. (Inr (), w\<lparr>cl_jobs := filter (\<lambda>j. job_Name j \<noteq> job_Name x \<or> job_Namespace j \<noteq> job_Namespace x) (cl_jobs w)\<rparr>)),
     DeleteAllOf_Pod = (\<lambda>l g w. (Inr (), w\<lparr>cl_pods := filter (\<lambda>p. \<not> pod_selected l p) (cl_pods w)\<rparr>)),
     Create_Object = (\<lambda>x w. (Inr (), w\<lparr>cl_created := cl_created w @ [x]\<rparr>)),
     Now = (\<lambda>w. (max Second (cl_now w), w)),
     MapOrder = (\<lambda>w ks. ks),
     IsNotFound = (\<lambda>e. case e of StatusError r m \<Rightarrow> r = ''NotFound'' | _ \<Rightarrow> False),
     LabelSelectorAsSelector = (\<lambda>s. if list_ex (\<lambda>q. req_Values q = []) (MatchExpressions s)
        then Some (ErrorString ''for 'in', 'notin' operators, values set can't be empty'') else None),
     NewVersion = sample_NewVersion,
     LessThan = version_less,
     GetParameterByName = (\<lambda>t n. param_index (tpl_Parameters t) n),
     ProcessTemplate = (\<lambda>t w. (([], t), w)),
     NewInvalid = (\<lambda>k n es. StatusError ''Invalid'' n),
     Decode = (\<lambda>raw. Inr \<lparr>obj_Group = ''batch'', obj_Resource = ''jobs'', obj_Name = raw,
        obj_Namespace = [], obj_IsClientObject = True, obj_Body = raw\<rparr>),
     fmt_object = (\<lambda>x. obj_Name x),
     NewForConfig = (\<lambda>w. Inr ()),
     FindOrDefaultContainerByName = (\<lambda>p n q. (Inr ''main'', [])),
     NewSPDYExecutor = (\<lambda>m q. None),
     NewWebSocketExecutor = (\<lambda>m q. None),
     NewFallbackExecutor = (\<lambda>a b. None),
     WebsocketsDisabled = (\<lambda>w. False),
     StreamWithContext = (\<lambda>e opts w. (Inr (cl_stdout w, []), w)),
     LogStream = (\<lambda>k w. (Inr (cl_log w, None), w)),
     OsdIdLabelKey = ''ceph-osd-id'',
     OSDOverPVCLabelKey = ''ceph.rook.io/pvc'',
     NodeAffinityKey = ''cluster.ocs.openshift.io/openshift-storage'',
     LabelHostname = ''kubernetes.io/hostname'',
     ReasonNodeAffinity = ''NodeAffinity'',
     ContainerCreating = ''ContainerCreating'',
     PodInitializing = ''PodInitializing''\<rparr>"

section \<open>A cluster with nothing to recover\<close>

definition tools_pod :: Pod where
  "tools_pod = \<lparr>pod_Name = ''rook-ceph-tools-0'', pod_Namespace = ''openshift-storage'',
     pod_Labels = [''app'' \<mapsto> ''rook-ceph-tools''], pod_DeletionTimestamp = None,
     pod_NodeSelector = Map.empty, pod_Phase = ''Running'', pod_Reason = [],
     pod_InitContainerStatuses = [], pod_ContainerStatuses = []\<rparr>"

definition new_recovery :: NodeRecovery where
  "new_recovery = \<lparr>nr_Name = ''rec'', nr_DeletionTimestamp = None, Status = new_status\<rparr>"

definition quote :: char where
  "quote = CHR 0x22"

definition healthy_output :: string where
  "healthy_output = ''{'' @ [quote] @ ''health'' @ [quote] @ '':{'' @ [quote] @ ''status'' @ [quote] @ '':'' @
     [quote] @ ''HEALTH_OK'' @ [quote] @ ''}}''"

definition healthy :: "NodeRecovery \<Rightarrow> cluster" where
  "healthy i = \<lparr>cl_pods = [tools_pod], cl_nodes = [], cl_deployments = [], cl_pvcs = [], cl_pvs = [],
     cl_jobs = [], cl_templates = [],
     cl_storageclusters = [\<lparr>sc_Name = ''ocs-storagecluster'', sc_Namespace = ''openshift-storage'', sc_EnableCephTools = False\<rparr>],
     cl_ocsinits = [\<lparr>oi_Name = ''ocsinit'', oi_Namespace = ''openshift-storage'', oi_EnableCephTools = False\<rparr>],
     cl_history = [\<lparr>uh_State = ''Completed'', uh_Version = ''4.16.3''\<rparr>],
     cl_recoveries = [i], cl_created = [], cl_now = 1000 * Second, cl_stdout = healthy_output,
     cl_log = ''completed removal''\<rparr>"

section \<open>A cluster with a failed disk\<close>

text \<open>
  Of four OSDs, the one with id 2 on node \<open>node-2\<close> crashes; its claim is bound to the volume
  \<open>local-pv-2\<close>. The removal template has both parameters and one object.
\<close>

definition osd_pod :: "string \<Rightarrow> ContainerStatus list \<Rightarrow> Pod" where
  "osd_pod k cs = \<lparr>pod_Name = ''rook-ceph-osd-'' @ k, pod_Namespace = ''openshift-storage'',
     pod_Labels = [''app'' \<mapsto> ''rook-ceph-osd'', ''osd'' \<mapsto> k, ''ceph-osd-id'' \<mapsto> k,
       ''ceph.rook.io/pvc'' \<mapsto> ''claim-'' @ k],
     pod_DeletionTimestamp = None, pod_NodeSelector = [''kubernetes.io/hostname'' \<mapsto> ''node-'' @ k],
     pod_Phase = ''Running'', pod_Reason = [], pod_InitContainerStatuses = [], pod_ContainerStatuses = cs\<rparr>"

definition crashing :: ContainerStatus where
  "crashing = \<lparr>cs_Name = ''osd'',
     cs_Waiting = Some \<lparr>waiting_Reason = ''CrashLoopBackOff'', waiting_Message = ''back-off''\<rparr>,
     cs_Terminated = None\<rparr>"

definition removal_template :: Template where
  "removal_template = \<lparr>tpl_Name = ''ocs-osd-removal'',
     tpl_Parameters = [\<lparr>par_Name = ''FAILED_OSD_IDS'', par_Value = []\<rparr>,
                       \<lparr>par_Name = ''FORCE_OSD_REMOVAL'', par_Value = ''false''\<rparr>],
     tpl_Objects = [\<lparr>raw_Object = None, raw_Raw = ''ocs-osd-removal-job''\<rparr>]\<rparr>"

definition osd_deployment :: Deployment where
  "osd_deployment = \<lparr>dep_Name = ''rook-ceph-osd-2'', dep_Namespace = ''openshift-storage'',
     dep_Labels = [''app'' \<mapsto> ''rook-ceph-osd'', ''ceph-osd-id'' \<mapsto> ''2''], dep_Replicas = Some 1\<rparr>"

definition disk_failed :: "NodeRecovery \<Rightarrow> cluster" where
  "disk_failed i = (healthy i)\<lparr>
     cl_pods := [tools_pod, osd_pod ''0'' [], osd_pod ''1'' [], osd_pod ''2'' [crashing], osd_pod ''3'' []],
     cl_deployments := [osd_deployment],
     cl_pvcs := [\<lparr>pvc_Name = ''claim-2'', pvc_Namespace = ''openshift-storage'', pvc_Labels = Map.empty,
                   pvc_VolumeName = ''local-pv-2'', pvc_Phase = ''Bound''\<rparr>],
     cl_pvs := [\<lparr>pv_Name = ''local-pv-2'', pv_Labels = [''kubernetes.io/hostname'' \<mapsto> ''node-2''],
                  pv_Phase = ''Bound''\<rparr>],
     cl_templates := [removal_template]\<rparr>"

section \<open>States\<close>

definition recovery_key :: NamespacedName where
  "recovery_key = \<lparr>nn_Namespace = [], nn_Name = ''rec''\<rparr>"

definition at_rest :: "cluster \<Rightarrow> NodeRecovery \<Rightarrow> cluster st" where
  "at_rest w i = \<lparr>world = w, trace = [], inst = i\<rparr>"

end
