(* ===== verification/Monitoring.thy ===== *)
theory Monitoring
  imports Environment
begin

text \<open>
  The metrics of the operator, \<open>src/monitoring/metrics.go\<close>: the five counters, their
  registration, and the two functions that increment the per-node counters. An increment
  is an effect of the trace; the value of a counter is the number of its increments.
\<close>

section \<open>Registration\<close>

record collector =
  col_Name :: string
  col_Help :: string
  col_Labels :: "string list"

definition metricsList :: "collector list" where
  "metricsList =
     [\<lparr>col_Name = ''odf_node_recovery_operand_instances_total_counter'',
       col_Help = ''ODF Node Recovery metric that keeps track of the total number of operand instances created'',
       col_Labels = []\<rparr>,
      \<lparr>col_Name = ''odf_node_recovery_completed_operand_instances_counter'',
       col_Help = ''ODF Node Recovery metric is a counter that tracks the total number of operand instances that completed successfully'',
       col_Labels = []\<rparr>,
      \<lparr>col_Name = ''odf_node_recovery_failed_operand_instances_counter'',
       col_Help = ''ODF Node Recovery metric is a counter that tracks the total number of operands that failed to recover the ODF cluster and the last condition reached'',
       col_Labels = [''last_condition'']\<rparr>,
      \<lparr>col_Name = ''odf_node_recovery_success_for_node_counter'',
       col_Help = ''ODF Node Recovery metric is a counter that tracks the total successfully attempts to recover a given node'',
       col_Labels = [''node'']\<rparr>,
      \<lparr>col_Name = ''odf_node_recovery_failed_for_node_counter'',
       col_Help = ''ODF Node Recovery metric is a counter that tracks of the number of failed attemps to recover a given node'',
       col_Labels = [''node'']\<rparr>]"

text \<open>
  \<open>RegisterMetrics\<close> replaces the registry by a new one and registers every metric with
  \<open>MustRegister\<close>, which panics when the registry refuses one. The registry is the library's:
  \<open>new_registry\<close> and \<open>register\<close> are parameters.
\<close>

definition RegisterMetrics ::
  "'r \<Rightarrow> (collector \<Rightarrow> 'r \<Rightarrow> (go_error + 'r)) \<Rightarrow> ('r, go_error, unit) comp" where
  "RegisterMetrics new_registry register =
     bind (modify (\<lambda>_. new_registry)) (\<lambda>_.
     forM (\<lambda>m s. case register m s of Inl e \<Rightarrow> (Panic (Error e), s) | Inr s' \<Rightarrow> (Ok (), s')) metricsList)"

section \<open>Increments\<close>

definition IncrementFailedNodeCounter :: "('w, unit) go" where
  "IncrementFailedNodeCounter =
     bind get_status (\<lambda>st.
     forM (\<lambda>p. bind (deref p) (\<lambda>nd. emit (CounterInc (FailedRecoveryForNode (nd_NodeName nd))))) (NodeDevice st))"

definition IncrementCompletedOperandCounter :: "('w, unit) go" where
  "IncrementCompletedOperandCounter =
     bind get_status (\<lambda>st.
     forM (\<lambda>p. bind (deref p) (\<lambda>nd. emit (CounterInc (SuccessRecoveryForNode (nd_NodeName nd))))) (NodeDevice st))"

text \<open>The value of a counter after a trace.\<close>

definition counter_value :: "counter \<Rightarrow> effect list \<Rightarrow> nat" where
  "counter_value c es = count_list es (CounterInc c)"

lemma counter_value_append [simp]:
  "counter_value c (xs @ ys) = counter_value c xs + counter_value c ys"
  by (simp add: counter_value_def)

lemma counter_value_simps [simp]:
  "counter_value c [] = 0"
  "counter_value c (e # es) = (if e = CounterInc c then Suc (counter_value c es) else counter_value c es)"
  by (simp_all add: counter_value_def)

definition is_metric :: "effect \<Rightarrow> bool" where
  "is_metric e \<longleftrightarrow> (\<exists>c. e = CounterInc c)"

lemma footprint_IncrementFailedNodeCounter:
  "(\<And>n. P (CounterInc (FailedRecoveryForNode n))) \<Longrightarrow> footprint P IncrementFailedNodeCounter"
  unfolding IncrementFailedNodeCounter_def by (intro footprint_intros)

lemma footprint_IncrementCompletedOperandCounter:
  "(\<And>n. P (CounterInc (SuccessRecoveryForNode n))) \<Longrightarrow> footprint P IncrementCompletedOperandCounter"
  unfolding IncrementCompletedOperandCounter_def by (intro footprint_intros)

text \<open>With no nil element, the increments are exactly one per device, in order.\<close>

lemma forM_deref_emit:
  assumes "None \<notin> set ps"
  shows "forM (\<lambda>p. bind (deref p) (\<lambda>x. emit (f x))) ps s =
           (Ok (), s\<lparr>trace := trace s @ map (f \<circ> the) ps\<rparr>)"
  using assms
proof (induction ps arbitrary: s)
  case Nil
  then show ?case by (simp add: ret_def)
next
  case (Cons p ps)
  then obtain x where "p = Some x" by (cases p) auto
  with Cons show ?case by (simp add: bind_emit)
qed

lemma IncrementFailedNodeCounter_run:
  assumes "None \<notin> set (NodeDevice (Status (inst s)))"
  shows "IncrementFailedNodeCounter s =
     (Ok (), s\<lparr>trace := trace s @
        map (\<lambda>p. CounterInc (FailedRecoveryForNode (nd_NodeName (the p)))) (NodeDevice (Status (inst s)))\<rparr>)"
  using forM_deref_emit [OF assms, of "\<lambda>nd. CounterInc (FailedRecoveryForNode (nd_NodeName nd))"]
  by (simp add: IncrementFailedNodeCounter_def bind_get_status comp_def)

lemma IncrementCompletedOperandCounter_run:
  assumes "None \<notin> set (NodeDevice (Status (inst s)))"
  shows "IncrementCompletedOperandCounter s =
     (Ok (), s\<lparr>trace := trace s @
        map (\<lambda>p. CounterInc (SuccessRecoveryForNode (nd_NodeName (the p)))) (NodeDevice (Status (inst s)))\<rparr>)"
  using forM_deref_emit [OF assms, of "\<lambda>nd. CounterInc (SuccessRecoveryForNode (nd_NodeName nd))"]
  by (simp add: IncrementCompletedOperandCounter_def bind_get_status comp_def)

section \<open>Registration succeeds\<close>

lemma metricsList_names_distinct: "distinct (map col_Name metricsList)"
  by (simp add: metricsList_def)

end
