(* ===== verification/Remote_Command.thy ===== *)
theory Remote_Command
  imports Environment
begin

text \<open>
  Remote commands and pod logs: \<open>src/internal/controller/pod/remote_command.go\<close> and the
  \<open>podLogRetriever\<close> of \<open>src/internal/controller/node_recovery_reconciler.go\<close>. The two Go
  interfaces, \<open>RemoteCommandExecutor\<close> and \<open>podLogRetriever\<close>, are locales: what the
  reconciler relies on is that an implementation leaves the object in memory alone,
  makes no other request than its own and panics only when no client set can be built. The implementations that \<open>main\<close> wires are
  interpretations.
\<close>

section \<open>Executors\<close>

definition createExecutor :: "('w, 'v) external \<Rightarrow> ExecRequest \<Rightarrow> ('w, executor) go" where
  "createExecutor c req =
     bind (liftErr (NewSPDYExecutor c ''POST'' req)) (\<lambda>_.
     let exec = SPDYExecutor ''POST'' req in
     bind (gets (\<lambda>s. WebsocketsDisabled c (world s))) (\<lambda>disabled.
     if \<not> disabled then
       bind (liftErr (NewWebSocketExecutor c ''GET'' req)) (\<lambda>_.
       let websocketExec = WebSocketExecutor ''GET'' req in
       bind (liftErr (NewFallbackExecutor c websocketExec exec)) (\<lambda>_.
       ret (FallbackExecutor websocketExec exec)))
     else ret exec))"

definition remoteExecutor_Run ::
  "('w, 'v) external \<Rightarrow> Pod \<Rightarrow> string list \<Rightarrow> ('w, string \<times> string) go" where
  "remoteExecutor_Run c pod cmd =
     bind (NewForConfigOrDie (\<lambda>s. NewForConfig c (world s))) (\<lambda>_.
      case FindOrDefaultContainerByName c pod '''' True of (found, errBuf) \<Rightarrow>
      bind (liftSum found) (\<lambda>containerName.
      let req = \<lparr>exec_Namespace = pod_Namespace pod, exec_Pod = pod_Name pod,
                 exec_Container = containerName, exec_Command = cmd,
                 exec_Stdin = False, exec_Stdout = True, exec_Stderr = True, exec_TTY = True\<rparr> in
      bind (createExecutor c req) (\<lambda>exec.
      bind (onErr (call (ExecCall req)
               (StreamWithContext c exec
                  \<lparr>stream_Stdin = False, stream_Stdout = True, stream_Stderr = True, stream_Tty = False\<rparr>))
             (\<lambda>e. throw (ErrorString (''failed executing command '' @ fmt_strings cmd @ '' on '' @
                     pod_Namespace pod @ ''/'' @ pod_Name pod @ '': '' @ Error e))))
        (\<lambda>(out, err). ret (out, errBuf @ err)))))"

text \<open>
  The struct \<open>remoteExecutor\<close> holds the configuration of the cluster, here \<open>external\<close>; the interface
  value is its \<open>Run\<close>.
\<close>

definition NewRemoteExecutor ::
  "('w, 'v) external \<Rightarrow> Pod \<Rightarrow> string list \<Rightarrow> ('w, string \<times> string) go" where
  "NewRemoteExecutor config = remoteExecutor_Run config"

section \<open>Logs\<close>

definition LogClient_GetLogs :: "('w, 'v) external \<Rightarrow> string \<Rightarrow> string \<Rightarrow> ('w, string) go" where
  "LogClient_GetLogs c ns podName =
     bind (onErr (call (LogsCall ns podName) (LogStream c \<lparr>nn_Namespace = ns, nn_Name = podName\<rparr>))
            (\<lambda>e. throw (ErrorString (''error in opening stream: '' @ Error e))))
       (\<lambda>(bytes, readErr).
       case readErr of
         None \<Rightarrow> ret bytes
       | Some e \<Rightarrow> throw (ErrorString (''error in copy information from podLogs to buffer: '' @ Error e)))"

section \<open>The interfaces\<close>

text \<open>The request to run a command in a pod, without input.\<close>

definition runs_command :: "Pod \<Rightarrow> string list \<Rightarrow> effect \<Rightarrow> bool" where
  "runs_command pod cmd e \<longleftrightarrow>
     (\<exists>q. e = ExecCall q \<and> exec_Namespace q = pod_Namespace pod \<and> exec_Pod q = pod_Name pod \<and>
          exec_Command q = cmd \<and> \<not> exec_Stdin q)"

definition is_logs :: "effect \<Rightarrow> bool" where
  "is_logs e \<longleftrightarrow> (\<exists>n p. e = LogsCall n p)"

locale RemoteCommandExecutor =
  fixes Run :: "Pod \<Rightarrow> string list \<Rightarrow> ('w, string \<times> string) go"
    and newForConfig :: "'w \<Rightarrow> go_error + unit"
  assumes Run_footprint: "footprint (runs_command pod cmd) (Run pod cmd)"
    and Run_panic: "Run pod cmd s = (Panic m, s') \<Longrightarrow> \<exists>e. newForConfig (world s') = Inl e \<and> m = Error e"

locale podLogRetriever =
  fixes GetLogs :: "string \<Rightarrow> ('w, string) go"
  assumes GetLogs_footprint: "footprint is_logs (GetLogs podName)"
    and GetLogs_no_panic: "fst (GetLogs podName s) \<noteq> Panic m"

lemma footprint_NewForConfigOrDie: "footprint P (NewForConfigOrDie newForConfig)"
  by (simp add: upholds_def NewForConfigOrDie_def fp.refl_R split: sum.split)

lemma footprint_createExecutor: "footprint P (createExecutor c req)"
  unfolding createExecutor_def by (intro footprint_intros)

lemma createExecutor_no_panic: "fst (createExecutor c req s) \<noteq> Panic m"
  by (auto simp: createExecutor_def liftErr_def Let_def run_simps split: option.splits)

interpretation rex: RemoteCommandExecutor "remoteExecutor_Run c" "NewForConfig c" for c :: "('w, 'v) external"
proof
  show "footprint (runs_command pod cmd) (remoteExecutor_Run c pod cmd)" for pod cmd
    unfolding remoteExecutor_Run_def
    by (intro footprint_intros footprint_NewForConfigOrDie footprint_createExecutor) (simp add: runs_command_def)
  show "\<exists>e. NewForConfig c (world s') = Inl e \<and> m = Error e"
    if "remoteExecutor_Run c pod cmd s = (Panic m, s')" for pod cmd s m s'
    using that createExecutor_no_panic [of c]
    by (auto simp: remoteExecutor_Run_def NewForConfigOrDie_def liftSum_def Let_def run_simps
        split: prod.splits sum.splits result.splits option.splits) (metis fst_conv)+
qed

interpretation logc: podLogRetriever "LogClient_GetLogs c ns" for c :: "('w, 'v) external" and ns
proof
  show "footprint is_logs (LogClient_GetLogs c ns podName)" for podName
    unfolding LogClient_GetLogs_def
    by (intro footprint_intros) (simp add: is_logs_def)
  show "fst (LogClient_GetLogs c ns podName s) \<noteq> Panic m" for podName s m
    by (auto simp: LogClient_GetLogs_def run_simps
        split: prod.splits sum.splits result.splits option.splits)
qed

end
