(* ===== verification/Recoverer.thy ===== *)
theory Recoverer
  imports Monitoring Remote_Command
begin

text \<open>
  The receiver of the recovery's methods and what all of them share: the constants of
  \<open>src/internal/controller/const.go\<close>, the struct \<open>NodeRecovery\<close> of
  \<open>src/internal/controller/node_recovery_reconciler.go\<close> with its constructor, and the two
  functions that read and extend the list of conditions.
\<close>

section \<open>Constants\<close>

definition ODF_NAMESPACE :: string where "ODF_NAMESPACE = ''openshift-storage''"
definition podStateReasonCrashLoopBackOff :: string where
  "podStateReasonCrashLoopBackOff = ''CrashLoopBackOff''"
definition podStateReasonError :: string where "podStateReasonError = ''Error''"
definition FAILED_OSD_IDS :: string where "FAILED_OSD_IDS = ''FAILED_OSD_IDS''"
definition FORCE_OSD_REMOVAL :: string where "FORCE_OSD_REMOVAL = ''FORCE_OSD_REMOVAL''"
definition HEALTH_OK :: string where "HEALTH_OK = ''HEALTH_OK''"
definition OCS_OSD_REMOVAL_JOB :: string where "OCS_OSD_REMOVAL_JOB = ''ocs-osd-removal''"
definition reconciliationTimeout :: duration where "reconciliationTimeout = 30 * Minute"
definition osdRemovalJobTimeout :: duration where "osdRemovalJobTimeout = 10 * Minute"
definition disableForcedOSDRemoval :: bool where "disableForcedOSDRemoval = False"
definition enableForcedOSDRemoval :: bool where "enableForcedOSDRemoval = True"
definition podStatusPhaseFieldSelector :: string where "podStatusPhaseFieldSelector = ''.status.phase''"
definition pvcStatusPhaseFieldSelector :: string where "pvcStatusPhaseFieldSelector = ''.status.phase''"
definition podDeletionTimestampSelector :: string where
  "podDeletionTimestampSelector = ''.metadata.deletionTimestamp''"
definition osdJobSuccessMessage :: string where "osdJobSuccessMessage = ''completed removal''"

text \<open>
  The variables of type \<open>RecoveryReason\<close>. Nothing in the repository reads them, nor
  \<open>disableForcedOSDRemoval\<close> and \<open>podDeletionTimestampSelector\<close>; the API package has condition types of the same
  names, so the names here carry a suffix.
\<close>

type_synonym RecoveryReason = string

definition EnableCephTools_reason :: RecoveryReason where
  "EnableCephTools_reason = ''EnableCephTools''"
definition WaitForCephToolsPodRunning_reason :: RecoveryReason where
  "WaitForCephToolsPodRunning_reason = ''WaitForCephToolsPodRunning''"
definition WaitForOSDPodsStabilize_reason :: RecoveryReason where
  "WaitForOSDPodsStabilize_reason = ''WaitForOSDPodsStabilize''"
definition LabelNodesWithPendingPods_reason :: RecoveryReason where
  "LabelNodesWithPendingPods_reason = ''LabelNodesWithPendingPods''"
definition ManageCrashLoopBackOffPods_reason :: RecoveryReason where
  "ManageCrashLoopBackOffPods_reason = ''ManageCrashLoopBackOffPods''"
definition RestartStorageOperator_reason :: RecoveryReason where
  "RestartStorageOperator_reason = ''RestartStorageOperator''"
definition StorageClusterFitnessCheck_reason :: RecoveryReason where
  "StorageClusterFitnessCheck_reason = ''StorageClusterFitnessCheck''"

text \<open>
  The package's \<open>init\<close> sets \<open>ocp4_15\<close> or panics; the version library is a parameter, so the
  value is read through it.
\<close>

definition ocp4_15 :: "('w, 'v) external \<Rightarrow> ('w, 'v) go" where
  "ocp4_15 c = (case NewVersion c ''v4.15'' of
     Inl e \<Rightarrow> gopanic ''unable to create constant for OCP version 4.15''
   | Inr v \<Rightarrow> ret v)"

section \<open>The log retriever\<close>

text \<open>
  The struct \<open>LogClient\<close> holds a client set; the interface value is its \<open>GetLogs\<close>. The constructor runs when the program
  starts, in whatever state the caller has, and panics when the client set cannot be built.
\<close>

definition NewLogRetriever ::
  "('s \<Rightarrow> go_error + unit) \<Rightarrow> ('w, 'v) external \<Rightarrow> ('s, 'e, string \<Rightarrow> ('w, string) go) comp" where
  "NewLogRetriever newForConfig config =
     bind (NewForConfigOrDie newForConfig) (\<lambda>_. ret (LogClient_GetLogs config ODF_NAMESPACE))"

section \<open>The receiver\<close>

record ('w, 'v) Recoverer =
  rc_Client :: "('w, 'v) external"
  rc_cmdRunner :: "Pod \<Rightarrow> string list \<Rightarrow> ('w, string \<times> string) go"
  rc_logRetriever :: "string \<Rightarrow> ('w, string) go"

definition newNodeRecoveryReconciler ::
  "('w, 'v) external \<Rightarrow> (Pod \<Rightarrow> string list \<Rightarrow> ('w, string \<times> string) go) \<Rightarrow>
   (string \<Rightarrow> ('w, string) go) \<Rightarrow> go_error + ('w, 'v) Recoverer" where
  "newNodeRecoveryReconciler c cmdRunner logRetriever =
     Inr \<lparr>rc_Client = c, rc_cmdRunner = cmdRunner, rc_logRetriever = logRetriever\<rparr>"

text \<open>The receiver that \<open>main\<close> wires: the remote executor and the log client of this repository.\<close>

definition wired :: "('w, 'v) external \<Rightarrow> ('w, 'v) Recoverer" where
  "wired c = \<lparr>rc_Client = c, rc_cmdRunner = remoteExecutor_Run c,
              rc_logRetriever = LogClient_GetLogs c ODF_NAMESPACE\<rparr>"

lemma wired_sel [simp]:
  "rc_Client (wired c) = c"
  "rc_cmdRunner (wired c) = remoteExecutor_Run c"
  "rc_logRetriever (wired c) = LogClient_GetLogs c ODF_NAMESPACE"
  by (simp_all add: wired_def)

section \<open>The conditions\<close>

definition indexOutOfRange :: string where
  "indexOutOfRange = ''index out of range [-1]''"

text \<open>A write through \<open>latestCondition\<close>, which points to the last element of the slice.\<close>

definition set_latest :: "(RecoveryCondition \<Rightarrow> RecoveryCondition) \<Rightarrow> NodeRecoveryStatus \<Rightarrow> NodeRecoveryStatus" where
  "set_latest f st = st\<lparr>Conditions := update_last f (Conditions st)\<rparr>"

definition getLatestCondition :: "('w, 'v) external \<Rightarrow> ('w, RecoveryCondition) go" where
  "getLatestCondition c =
     bind get_status (\<lambda>st.
     if Conditions st = [] then gopanic indexOutOfRange
     else
       bind (time_Now c) (\<lambda>t.
       bind (modify_status (set_latest (\<lambda>l. l\<lparr>cond_LastProbeTime := t\<rparr>))) (\<lambda>_.
       bind get_status (\<lambda>st. ret (last (Conditions st))))))"

definition new_condition :: "RecoveryConditionType \<Rightarrow> time \<Rightarrow> time \<Rightarrow> RecoveryCondition" where
  "new_condition ty transition probe =
     \<lparr>cond_Type = ty, cond_LastProbeTime = probe, cond_LastTransitionTime = transition,
      cond_Reason = NoReason, cond_Message = [], cond_Status = StatusTrue\<rparr>"

definition push_condition :: "RecoveryCondition \<Rightarrow> NodeRecoveryStatus \<Rightarrow> NodeRecoveryStatus" where
  "push_condition cd st =
     st\<lparr>Conditions := update_last (\<lambda>l. l\<lparr>cond_Status := StatusFalse\<rparr>) (Conditions st) @ [cd]\<rparr>"

definition transitionNextCondition :: "('w, 'v) external \<Rightarrow> RecoveryConditionType \<Rightarrow> ('w, unit) go" where
  "transitionNextCondition c nextCondition =
     bind get_status (\<lambda>st.
     if Conditions st = [] then gopanic indexOutOfRange
     else
       bind (time_Now c) (\<lambda>t1.
       bind (time_Now c) (\<lambda>t2.
       modify_status (push_condition (new_condition nextCondition t1 t2)))))"

text \<open>\<open>latestCondition.Reason = r; latestCondition.Message = m\<close>, and the message alone.\<close>

definition set_reason :: "RecoveryConditionReason \<Rightarrow> string \<Rightarrow> ('w, unit) go" where
  "set_reason r m = modify_status (set_latest (\<lambda>l. l\<lparr>cond_Reason := r, cond_Message := m\<rparr>))"

definition set_message :: "string \<Rightarrow> ('w, unit) go" where
  "set_message m = modify_status (set_latest (\<lambda>l. l\<lparr>cond_Message := m\<rparr>))"

section \<open>Facts\<close>

lemmas const_defs =
  ODF_NAMESPACE_def podStateReasonCrashLoopBackOff_def podStateReasonError_def FAILED_OSD_IDS_def
  FORCE_OSD_REMOVAL_def HEALTH_OK_def OCS_OSD_REMOVAL_JOB_def reconciliationTimeout_def
  osdRemovalJobTimeout_def enableForcedOSDRemoval_def osdJobSuccessMessage_def Minute_def Second_def

lemma footprint_ocp4_15: "footprint P (ocp4_15 c)"
  by (simp add: ocp4_15_def fp.upholds_intros split: sum.splits)

lemma set_latest_frame [simp]:
  "Phase (set_latest f st) = Phase st"
  "StartTime (set_latest f st) = StartTime st"
  "CompletionTime (set_latest f st) = CompletionTime st"
  "PendingPods (set_latest f st) = PendingPods st"
  "CrashLoopBackOffPods (set_latest f st) = CrashLoopBackOffPods st"
  "NodeDevice (set_latest f st) = NodeDevice st"
  "ForcedOSDRemoval (set_latest f st) = ForcedOSDRemoval st"
  "KeepCephToolsPod (set_latest f st) = KeepCephToolsPod st"
  "OperationalOSDIDs (set_latest f st) = OperationalOSDIDs st"
  "Conditions (set_latest f st) = update_last f (Conditions st)"
  by (simp_all add: set_latest_def)

lemma push_condition_frame [simp]:
  "Phase (push_condition cd st) = Phase st"
  "StartTime (push_condition cd st) = StartTime st"
  "CompletionTime (push_condition cd st) = CompletionTime st"
  "PendingPods (push_condition cd st) = PendingPods st"
  "CrashLoopBackOffPods (push_condition cd st) = CrashLoopBackOffPods st"
  "NodeDevice (push_condition cd st) = NodeDevice st"
  "ForcedOSDRemoval (push_condition cd st) = ForcedOSDRemoval st"
  "KeepCephToolsPod (push_condition cd st) = KeepCephToolsPod st"
  "OperationalOSDIDs (push_condition cd st) = OperationalOSDIDs st"
  "Conditions (push_condition cd st) =
     update_last (\<lambda>l. l\<lparr>cond_Status := StatusFalse\<rparr>) (Conditions st) @ [cd]"
  by (simp_all add: push_condition_def)

lemma new_condition_sel [simp]:
  "cond_Type (new_condition ty t p) = ty"
  "cond_LastTransitionTime (new_condition ty t p) = t"
  "cond_LastProbeTime (new_condition ty t p) = p"
  "cond_Status (new_condition ty t p) = StatusTrue"
  "cond_Message (new_condition ty t p) = []"
  "cond_Reason (new_condition ty t p) = NoReason"
  by (simp_all add: new_condition_def)

lemma cond_types_set_latest [simp]:
  "(\<And>l. cond_Type (f l) = cond_Type l) \<Longrightarrow> cond_types (set_latest f st) = cond_types st"
  by (simp add: map_update_last_same)

lemma cond_types_push [simp]: "cond_types (push_condition cd st) = cond_types st @ [cond_Type cd]"
  by (simp add: map_update_last_same)

lemma traces_set_reason: "traces P (set_reason r m)"
  by (simp add: set_reason_def traces_intros)

lemma traces_set_message: "traces P (set_message m)"
  by (simp add: set_message_def traces_intros)

lemma traces_transitionNextCondition: "traces P (transitionNextCondition c ty)"
  unfolding transitionNextCondition_def by (intro traces_intros)

lemma traces_getLatestCondition: "traces P (getLatestCondition c)"
  unfolding getLatestCondition_def by (intro traces_intros)

lemmas cond_traces =
  traces_set_reason traces_set_message traces_transitionNextCondition traces_getLatestCondition

lemma wp_set_reason [wp_simps]:
  "wp (set_reason r m) Q s =
     Q (Ok ()) (s\<lparr>inst := (inst s)\<lparr>Status :=
       set_latest (\<lambda>l. l\<lparr>cond_Reason := r, cond_Message := m\<rparr>) (Status (inst s))\<rparr>\<rparr>)"
  by (simp add: set_reason_def wp_simps)

lemma wp_set_message [wp_simps]:
  "wp (set_message m) Q s =
     Q (Ok ()) (s\<lparr>inst := (inst s)\<lparr>Status :=
       set_latest (\<lambda>l. l\<lparr>cond_Message := m\<rparr>) (Status (inst s))\<rparr>\<rparr>)"
  by (simp add: set_message_def wp_simps)

text \<open>
  A transition from a non-empty list returns normally, touches nothing but the list and the
  world, and pushes a condition of the given type that is \<open>True\<close>.
\<close>

lemma wp_transitionNextCondition:
  assumes "Conditions (Status (inst s)) \<noteq> []"
    and "\<And>w t1 t2. Q (Ok ()) (s\<lparr>world := w, inst := (inst s)\<lparr>Status :=
            push_condition (new_condition ty t1 t2) (Status (inst s))\<rparr>\<rparr>)"
  shows "wp (transitionNextCondition c ty) Q s"
  using assms by (simp add: transitionNextCondition_def wp_simps split: prod.splits)

lemma wp_getLatestCondition:
  assumes "Conditions (Status (inst s)) \<noteq> []"
    and "\<And>t w. Now c (world s) = (t, w) \<Longrightarrow>
           Q (Ok ((last (Conditions (Status (inst s))))\<lparr>cond_LastProbeTime := t\<rparr>))
             (s\<lparr>world := w, inst := (inst s)\<lparr>Status :=
                set_latest (\<lambda>l. l\<lparr>cond_LastProbeTime := t\<rparr>) (Status (inst s))\<rparr>\<rparr>)"
  shows "wp (getLatestCondition c) Q s"
  using assms by (simp add: getLatestCondition_def wp_simps split: prod.splits)

end
