(* ===== verification/Go_Json.thy ===== *)
theory Go_Json
  imports Go_Stdlib
begin

text \<open>
  \<open>encoding/json\<close> as far as \<open>getCephHealthStatus\<close> uses it: \<open>json.Unmarshal\<close> into the
  struct \<open>healthStatus\<close>. As in the library, the whole input is checked first, by a machine
  that reads one byte at a time with a stack of open arrays and objects; then the value is
  decoded into the struct. Both passes are structural recursions, so no fuel is needed.
  The library's limit on nesting (10000) is kept.
\<close>

section \<open>Tokens\<close>

datatype token = LBrace | RBrace | LBracket | RBracket | Colon | Comma
  | TString string | TNumber string | TTrue | TFalse | TNull

text \<open>The states of a number literal, as the scanner of \<open>encoding/json\<close> has them.\<close>

datatype numstate = NNeg | NZero | NDigits | NDot | NFrac | NExp | NExpSign | NExpDigits

datatype lexmode = LStart
  | LString string
  | LEscape string
  | LHex nat string
  | LNumber numstate string
  | LLiteral string token

definition is_digit :: "char \<Rightarrow> bool" where
  "is_digit c \<longleftrightarrow> (let n = (of_char c :: nat) in 48 \<le> n \<and> n \<le> 57)"

definition hex_value :: "char \<Rightarrow> nat option" where
  "hex_value c = (let n = (of_char c :: nat) in
     if 48 \<le> n \<and> n \<le> 57 then Some (n - 48)
     else if 97 \<le> n \<and> n \<le> 102 then Some (n - 87)
     else if 65 \<le> n \<and> n \<le> 70 then Some (n - 55)
     else None)"

definition json_space :: "char \<Rightarrow> bool" where
  "json_space c \<longleftrightarrow> c \<in> {CHR '' '', CHR 0x09, CHR 0x0A, CHR 0x0D}"

definition num_next :: "numstate \<Rightarrow> char \<Rightarrow> numstate option" where
  "num_next q c = (case q of
     NNeg \<Rightarrow> (if c = CHR ''0'' then Some NZero else if is_digit c then Some NDigits else None)
   | NZero \<Rightarrow> (if c = CHR ''.'' then Some NDot
       else if c \<in> {CHR ''e'', CHR ''E''} then Some NExp else None)
   | NDigits \<Rightarrow> (if is_digit c then Some NDigits else if c = CHR ''.'' then Some NDot
       else if c \<in> {CHR ''e'', CHR ''E''} then Some NExp else None)
   | NDot \<Rightarrow> (if is_digit c then Some NFrac else None)
   | NFrac \<Rightarrow> (if is_digit c then Some NFrac
       else if c \<in> {CHR ''e'', CHR ''E''} then Some NExp else None)
   | NExp \<Rightarrow> (if is_digit c then Some NExpDigits
       else if c \<in> {CHR ''+'', CHR ''-''} then Some NExpSign else None)
   | NExpSign \<Rightarrow> (if is_digit c then Some NExpDigits else None)
   | NExpDigits \<Rightarrow> (if is_digit c then Some NExpDigits else None))"

definition num_final :: "numstate \<Rightarrow> bool" where
  "num_final q \<longleftrightarrow> q \<in> {NZero, NDigits, NFrac, NExpDigits}"

text \<open>One byte outside a literal: the token it completes, if any, and the next mode.\<close>

definition lex_start :: "char \<Rightarrow> (token list \<times> lexmode) option" where
  "lex_start c =
     (if json_space c then Some ([], LStart)
      else if c = CHR ''{'' then Some ([LBrace], LStart)
      else if c = CHR ''}'' then Some ([RBrace], LStart)
      else if c = CHR ''['' then Some ([LBracket], LStart)
      else if c = CHR '']'' then Some ([RBracket], LStart)
      else if c = CHR '':'' then Some ([Colon], LStart)
      else if c = CHR '','' then Some ([Comma], LStart)
      else if c = CHR 0x22 then Some ([], LString [])
      else if c = CHR ''-'' then Some ([], LNumber NNeg [c])
      else if c = CHR ''0'' then Some ([], LNumber NZero [c])
      else if is_digit c then Some ([], LNumber NDigits [c])
      else if c = CHR ''t'' then Some ([], LLiteral ''rue'' TTrue)
      else if c = CHR ''f'' then Some ([], LLiteral ''alse'' TFalse)
      else if c = CHR ''n'' then Some ([], LLiteral ''ull'' TNull)
      else None)"

text \<open>The accumulators of the literal modes are reversed.\<close>

definition lex_byte :: "lexmode \<Rightarrow> char \<Rightarrow> (token list \<times> lexmode) option" where
  "lex_byte m c = (case m of
     LStart \<Rightarrow> lex_start c
   | LString acc \<Rightarrow>
       (if c = CHR 0x22 then Some ([TString (rev acc)], LStart)
        else if c = CHR 0x5C then Some ([], LEscape (c # acc))
        else if (of_char c :: nat) < 32 then None
        else Some ([], LString (c # acc)))
   | LEscape acc \<Rightarrow>
       (if c \<in> {CHR ''b'', CHR ''f'', CHR ''n'', CHR ''r'', CHR ''t'', CHR 0x5C, CHR ''/'', CHR 0x22}
        then Some ([], LString (c # acc))
        else if c = CHR ''u'' then Some ([], LHex 4 (c # acc))
        else None)
   | LHex n acc \<Rightarrow>
       (if hex_value c = None then None
        else if n = 1 then Some ([], LString (c # acc))
        else Some ([], LHex (n - 1) (c # acc)))
   | LNumber q acc \<Rightarrow>
       (case num_next q c of
          Some q' \<Rightarrow> Some ([], LNumber q' (c # acc))
        | None \<Rightarrow>
            (if num_final q then
               (case lex_start c of
                  None \<Rightarrow> None
                | Some (ts, m') \<Rightarrow> Some (TNumber (rev acc) # ts, m'))
             else None))
   | LLiteral ws t \<Rightarrow>
       (case ws of
          [] \<Rightarrow> None
        | [w] \<Rightarrow> (if c = w then Some ([t], LStart) else None)
        | w # w' # ws' \<Rightarrow> (if c = w then Some ([], LLiteral (w' # ws') t) else None)))"

fun lex_run :: "lexmode \<Rightarrow> string \<Rightarrow> token list option" where
  "lex_run m [] = (case m of
     LStart \<Rightarrow> Some []
   | LNumber q acc \<Rightarrow> (if num_final q then Some [TNumber (rev acc)] else None)
   | _ \<Rightarrow> None)"
| "lex_run m (c # cs) = (case lex_byte m c of
     None \<Rightarrow> None
   | Some (ts, m') \<Rightarrow> (case lex_run m' cs of None \<Rightarrow> None | Some us \<Rightarrow> Some (ts @ us)))"

section \<open>Values\<close>

datatype json = JNull | JBool bool | JNumber string | JString string
  | JArray "json list" | JObject "(string \<times> json) list"

text \<open>
  The parser's stack: an open array with its elements so far, an open object with its
  members so far and, while a member's value is read, its key. Strings are kept raw.
\<close>

datatype frame = FArray "json list" | FObject "(string \<times> json) list" | FMember "(string \<times> json) list" string

datatype pstate =
    PValue "frame list"
  | PValueOrEnd "frame list"
  | PKeyOrEnd "frame list"
  | PKey "frame list"
  | PColon "frame list" string
  | PAfter "frame list" json

definition max_depth :: nat where
  "max_depth = 10000"

text \<open>A completed value goes to the innermost open array or object.\<close>

definition give :: "frame list \<Rightarrow> json \<Rightarrow> pstate" where
  "give fs v = PAfter fs v"

definition open_frame :: "frame \<Rightarrow> frame list \<Rightarrow> (frame list \<Rightarrow> pstate) \<Rightarrow> pstate option" where
  "open_frame f fs k = (if max_depth < Suc (length fs) then None else Some (k (f # fs)))"

definition begin_value :: "frame list \<Rightarrow> token \<Rightarrow> pstate option" where
  "begin_value fs t = (case t of
     LBrace \<Rightarrow> open_frame (FObject []) fs PKeyOrEnd
   | LBracket \<Rightarrow> open_frame (FArray []) fs PValueOrEnd
   | TString s \<Rightarrow> Some (give fs (JString s))
   | TNumber n \<Rightarrow> Some (give fs (JNumber n))
   | TTrue \<Rightarrow> Some (give fs (JBool True))
   | TFalse \<Rightarrow> Some (give fs (JBool False))
   | TNull \<Rightarrow> Some (give fs JNull)
   | _ \<Rightarrow> None)"

definition parse_token :: "pstate \<Rightarrow> token \<Rightarrow> pstate option" where
  "parse_token p t = (case p of
     PValue fs \<Rightarrow> begin_value fs t
   | PValueOrEnd fs \<Rightarrow>
       (case fs of
          FArray vs # gs \<Rightarrow> (if t = RBracket then Some (give gs (JArray (rev vs))) else begin_value fs t)
        | _ \<Rightarrow> None)
   | PKeyOrEnd fs \<Rightarrow>
       (case fs of
          FObject ms # gs \<Rightarrow>
            (case t of
               RBrace \<Rightarrow> Some (give gs (JObject (rev ms)))
             | TString k \<Rightarrow> Some (PColon fs k)
             | _ \<Rightarrow> None)
        | _ \<Rightarrow> None)
   | PKey fs \<Rightarrow> (case t of TString k \<Rightarrow> Some (PColon fs k) | _ \<Rightarrow> None)
   | PColon fs k \<Rightarrow>
       (case fs of
          FObject ms # gs \<Rightarrow> (if t = Colon then Some (PValue (FMember ms k # gs)) else None)
        | _ \<Rightarrow> None)
   | PAfter fs v \<Rightarrow>
       (case fs of
          FArray vs # gs \<Rightarrow>
            (if t = Comma then Some (PValue (FArray (v # vs) # gs))
             else if t = RBracket then Some (give gs (JArray (rev (v # vs))))
             else None)
        | FMember ms k # gs \<Rightarrow>
            (if t = Comma then Some (PKey (FObject ((k, v) # ms) # gs))
             else if t = RBrace then Some (give gs (JObject (rev ((k, v) # ms))))
             else None)
        | _ \<Rightarrow> None))"

fun parse_run :: "pstate \<Rightarrow> token list \<Rightarrow> json option" where
  "parse_run p [] = (case p of PAfter [] v \<Rightarrow> Some v | _ \<Rightarrow> None)"
| "parse_run p (t # ts) = (case parse_token p t of None \<Rightarrow> None | Some p' \<Rightarrow> parse_run p' ts)"

definition json_parse :: "string \<Rightarrow> json option" where
  "json_parse s = (case lex_run LStart s of None \<Rightarrow> None | Some ts \<Rightarrow> parse_run (PValue []) ts)"

section \<open>String literals\<close>

definition utf8_encode :: "nat \<Rightarrow> string" where
  "utf8_encode r =
     (if r < 0x80 then [char_of r]
      else if r < 0x800 then [char_of (0xC0 + r div 64), char_of (0x80 + r mod 64)]
      else if r < 0x10000 then
        [char_of (0xE0 + r div 4096), char_of (0x80 + r div 64 mod 64), char_of (0x80 + r mod 64)]
      else
        [char_of (0xF0 + r div 262144), char_of (0x80 + r div 4096 mod 64),
         char_of (0x80 + r div 64 mod 64), char_of (0x80 + r mod 64)])"

definition replacement_char :: nat where
  "replacement_char = 0xFFFD"

text \<open>The number of bytes of the well-formed UTF-8 sequence at the start, 0 if there is none.\<close>

definition utf8_size :: "nat list \<Rightarrow> nat" where
  "utf8_size bs = (case bs of
     [] \<Rightarrow> 0
   | a # rest \<Rightarrow>
      (let cont = (\<lambda>i lo hi. i < length rest \<and> lo \<le> rest ! i \<and> rest ! i \<le> hi) in
       if a < 0x80 then 1
       else if 0xC2 \<le> a \<and> a \<le> 0xDF then (if cont 0 0x80 0xBF then 2 else 0)
       else if 0xE0 \<le> a \<and> a \<le> 0xEF then
         (if cont 0 (if a = 0xE0 then 0xA0 else 0x80) (if a = 0xED then 0x9F else 0xBF)
             \<and> cont 1 0x80 0xBF then 3 else 0)
       else if 0xF0 \<le> a \<and> a \<le> 0xF4 then
         (if cont 0 (if a = 0xF0 then 0x90 else 0x80) (if a = 0xF4 then 0x8F else 0xBF)
             \<and> cont 1 0x80 0xBF \<and> cont 2 0x80 0xBF then 4 else 0)
       else 0))"

text \<open>\<open>getu4\<close>: the code unit of a \<open>\u\<close> escape at the start.\<close>

definition getu4 :: "string \<Rightarrow> nat option" where
  "getu4 s =
     (if 6 \<le> length s \<and> s ! 0 = CHR 0x5C \<and> s ! 1 = CHR ''u'' then
        (case (hex_value (s ! 2), hex_value (s ! 3), hex_value (s ! 4), hex_value (s ! 5)) of
           (Some a, Some b, Some c, Some d) \<Rightarrow> Some (4096 * a + 256 * b + 16 * c + d)
         | _ \<Rightarrow> None)
      else None)"

definition escape_char :: "char \<Rightarrow> char option" where
  "escape_char c =
     (if c \<in> {CHR 0x22, CHR 0x5C, CHR ''/'', CHR 0x27} then Some c
      else if c = CHR ''b'' then Some (CHR 0x08)
      else if c = CHR ''f'' then Some (CHR 0x0C)
      else if c = CHR ''n'' then Some (CHR 0x0A)
      else if c = CHR ''r'' then Some (CHR 0x0D)
      else if c = CHR ''t'' then Some (CHR 0x09)
      else None)"

text \<open>The first unit of a raw literal: the bytes it denotes and the number of raw bytes it takes.\<close>

definition unquote_unit :: "string \<Rightarrow> (string \<times> nat) option" where
  "unquote_unit s = (case s of
     [] \<Rightarrow> None
   | c # rest \<Rightarrow>
      (if c = CHR 0x5C then
         (case rest of
            [] \<Rightarrow> None
          | e # _ \<Rightarrow>
             (if e = CHR ''u'' then
                (case getu4 s of
                   None \<Rightarrow> None
                 | Some r \<Rightarrow>
                    (if 0xD800 \<le> r \<and> r < 0xE000 then
                       (case getu4 (drop 6 s) of
                          Some r2 \<Rightarrow>
                            (if r < 0xDC00 \<and> 0xDC00 \<le> r2 \<and> r2 < 0xE000
                             then Some (utf8_encode ((r - 0xD800) * 1024 + (r2 - 0xDC00) + 0x10000), 12)
                             else Some (utf8_encode replacement_char, 6))
                        | None \<Rightarrow> Some (utf8_encode replacement_char, 6))
                     else Some (utf8_encode r, 6)))
              else map_option (\<lambda>d. ([d], 2)) (escape_char e)))
       else if c = CHR 0x22 \<or> (of_char c :: nat) < 32 then None
       else
         (let n = utf8_size (map of_char s)
          in if n = 0 then Some (utf8_encode replacement_char, 1) else Some (take n s, n))))"

function unquote :: "string \<Rightarrow> string option" where
  "unquote s =
     (if s = [] then Some []
      else case unquote_unit s of
          None \<Rightarrow> None
        | Some (b, n) \<Rightarrow> map_option (\<lambda>r. b @ r) (unquote (drop (max 1 n) s)))"
  by pat_completeness auto
termination
  by (relation "measure length") auto

declare unquote.simps [simp del]

section \<open>Decoding into healthStatus\<close>

record health =
  health_Status :: string

record healthStatus =
  Health :: health

text \<open>
  Keys are matched exactly or up to simple case folding; U+017F and U+212A fold to \<open>S\<close>
  and \<open>K\<close>.
\<close>

fun fold_name :: "string \<Rightarrow> string" where
  "fold_name [] = []"
| "fold_name (c # cs) =
     (let n = (of_char c :: nat) in
      if 97 \<le> n \<and> n \<le> 122 then char_of (n - 32) # fold_name cs
      else if prefix [CHR 0xC5, CHR 0xBF] (c # cs) then CHR ''S'' # fold_name (drop 1 cs)
      else if prefix [CHR 0xE2, CHR 0x84, CHR 0xAA] (c # cs) then CHR ''K'' # fold_name (drop 2 cs)
      else c # fold_name cs)"

definition key_matches :: "string \<Rightarrow> string \<Rightarrow> bool" where
  "key_matches field k \<longleftrightarrow> (case unquote k of None \<Rightarrow> False | Some u \<Rightarrow> u = field \<or> fold_name u = fold_name field)"

text \<open>
  Decoding a field keeps its old value for \<open>null\<close> and for a value of another type; the
  latter is an error (\<open>UnmarshalTypeError\<close>) that is returned after the whole value has been
  decoded. The flag tells whether one occurred.
\<close>

definition decode_string :: "json \<Rightarrow> string \<Rightarrow> bool \<Rightarrow> string \<times> bool" where
  "decode_string j old bad = (case j of
     JNull \<Rightarrow> (old, bad)
   | JString r \<Rightarrow> (case unquote r of None \<Rightarrow> (old, True) | Some s \<Rightarrow> (s, bad))
   | _ \<Rightarrow> (old, True))"

definition decode_health :: "json \<Rightarrow> health \<Rightarrow> bool \<Rightarrow> health \<times> bool" where
  "decode_health j old bad = (case j of
     JNull \<Rightarrow> (old, bad)
   | JObject ms \<Rightarrow>
       fold (\<lambda>(k, v) (h, b).
               if key_matches ''status'' k
               then (case decode_string v (health_Status h) b of (s, b') \<Rightarrow> (h\<lparr>health_Status := s\<rparr>, b'))
               else (h, b)) ms (old, bad)
   | _ \<Rightarrow> (old, True))"

definition decode_healthStatus :: "json \<Rightarrow> healthStatus \<Rightarrow> bool \<Rightarrow> healthStatus \<times> bool" where
  "decode_healthStatus j old bad = (case j of
     JNull \<Rightarrow> (old, bad)
   | JObject ms \<Rightarrow>
       fold (\<lambda>(k, v) (h, b).
               if key_matches ''health'' k
               then (case decode_health v (Health h) b of (x, b') \<Rightarrow> (h\<lparr>Health := x\<rparr>, b'))
               else (h, b)) ms (old, bad)
   | _ \<Rightarrow> (old, True))"

definition json_error :: go_error where
  "json_error = ErrorString ''json: cannot unmarshal''"

definition json_Unmarshal :: "string \<Rightarrow> healthStatus \<Rightarrow> go_error + healthStatus" where
  "json_Unmarshal s h = (case json_parse s of
     None \<Rightarrow> Inl json_error
   | Some j \<Rightarrow> (case decode_healthStatus j h False of (h', bad) \<Rightarrow> if bad then Inl json_error else Inr h'))"

end
