(* ===== verification/Ceph.thy ===== *)
theory Ceph
  imports Recoverer Go_Json
begin

text \<open>
  The operations on Ceph and its pods, \<open>src/internal/controller/ceph.go\<close>, with
  \<open>getOCPVersion\<close>, \<open>getStorageCluster\<close> and \<open>getOSCInitialization\<close> of
  \<open>src/internal/controller/node_recovery_reconciler.go\<close>, which they call. A selector is
  validated by the library function \<open>LabelSelectorAsSelector\<close>, a parameter that may fail.
\<close>

section \<open>Calls\<close>

definition asSelector :: "('w, 'v) external \<Rightarrow> LabelSelector \<Rightarrow> ('w, LabelSelector) go" where
  "asSelector c sel = bind (liftErr (LabelSelectorAsSelector c sel)) (\<lambda>_. ret sel)"

definition odf_list :: "LabelSelector \<Rightarrow> ListOptions" where
  "odf_list sel = (in_namespace ODF_NAMESPACE)\<lparr>lo_LabelSelector := Some sel\<rparr>"

definition odf_name :: "string \<Rightarrow> NamespacedName" where
  "odf_name n = \<lparr>nn_Namespace = ODF_NAMESPACE, nn_Name = n\<rparr>"

definition cluster_name :: "string \<Rightarrow> NamespacedName" where
  "cluster_name n = \<lparr>nn_Namespace = [], nn_Name = n\<rparr>"

definition listPods :: "('w, 'v) external \<Rightarrow> ListOptions \<Rightarrow> ('w, Pod list) go" where
  "listPods c l = call (ListCall KPod l) (List_Pod c l)"

text \<open>
  The manager's client answers a list from its cache. It filters by one field at most, and only by a field
  of the kind that has an index; the operator has the phases of pods and of claims indexed.
\<close>

definition field_indexes :: "(kind \<times> string) list" where
  "field_indexes = [(KPod, podStatusPhaseFieldSelector), (KPersistentVolumeClaim, pvcStatusPhaseFieldSelector)]"

definition list_indexed :: "kind \<Rightarrow> ListOptions \<Rightarrow> bool" where
  "list_indexed k l \<longleftrightarrow>
     length (lo_MatchingFields l) \<le> 1 \<and> list_all (\<lambda>(f, _). (k, f) \<in> set field_indexes) (lo_MatchingFields l)"

lemma list_indexed_plain [simp]: "lo_MatchingFields l = [] \<Longrightarrow> list_indexed k l"
  by (simp add: list_indexed_def)

lemma list_indexed_odf_list [simp]: "list_indexed k (odf_list sel)"
  by (simp add: odf_list_def in_namespace_def)

definition deleteAllOfPods :: "('w, 'v) external \<Rightarrow> ListOptions \<Rightarrow> int option \<Rightarrow> ('w, unit) go" where
  "deleteAllOfPods c l grace = call (DeleteAllOfPods l grace) (DeleteAllOf_Pod c l grace)"

section \<open>The version of the cluster\<close>

definition getStorageCluster :: "('w, 'v) Recoverer \<Rightarrow> ('w, StorageCluster) go" where
  "getStorageCluster r =
     (let k = odf_name ''ocs-storagecluster''
      in call (GetCall KStorageCluster k) (Get_StorageCluster (rc_Client r) k))"

definition getOSCInitialization :: "('w, 'v) Recoverer \<Rightarrow> ('w, OCSInitialization) go" where
  "getOSCInitialization r =
     (let k = odf_name ''ocsinit''
      in call (GetCall KOCSInitialization k) (Get_OCSInitialization (rc_Client r) k))"

fun first_completed :: "UpdateHistory list \<Rightarrow> UpdateHistory option" where
  "first_completed [] = None"
| "first_completed (i # is) = (if uh_State i = CompletedUpdate then Some i else first_completed is)"

definition getOCPVersion :: "('w, 'v) Recoverer \<Rightarrow> ('w, 'v) go" where
  "getOCPVersion r =
     (let c = rc_Client r; k = cluster_name ''version'' in
      bind (call (GetCall KClusterVersion k) (Get_ClusterVersion c k)) (\<lambda>cv.
      case first_completed (cv_History cv) of
        Some i \<Rightarrow> liftSum (NewVersion c (uh_Version i))
      | None \<Rightarrow> throw (ErrorString ''no valid version found in clusterversion object'')))"

section \<open>The Ceph tools pod\<close>

definition getRunningCephToolsPod :: "('w, 'v) Recoverer \<Rightarrow> ('w, Pod) go" where
  "getRunningCephToolsPod r =
     (let c = rc_Client r; selectorMap = [(''app'', ''rook-ceph-tools'')] in
      bind (asSelector c (match_labels selectorMap)) (\<lambda>selector.
      bind (listPods c (odf_list selector)) (\<lambda>items.
      case items of
        [] \<Rightarrow> throw (ErrorString (''no pods found with label '' @ fmt_map selectorMap))
      | p # _ \<Rightarrow> ret p)))"

definition getCephToolsPodPhase :: "('w, 'v) Recoverer \<Rightarrow> ('w, string) go" where
  "getCephToolsPodPhase r = bind (getRunningCephToolsPod r) (\<lambda>pod. ret (pod_Phase pod))"

definition getCephHealthStatus :: "('w, 'v) Recoverer \<Rightarrow> ('w, string) go" where
  "getCephHealthStatus r =
     bind (getRunningCephToolsPod r) (\<lambda>p.
     bind (rc_cmdRunner r p [''ceph'', ''status'', ''-f'', ''json'']) (\<lambda>(stdout, stderr).
     if 0 < length stderr then
       throw (ErrorString (''error while executing remote shell to retrieve the ceph health status: '' @ stderr))
     else
       bind (liftSum (json_Unmarshal stdout \<lparr>Health = \<lparr>health_Status = []\<rparr>\<rparr>)) (\<lambda>h.
       ret (health_Status (Health h)))))"

definition archiveCephDaemonCrashMessages :: "('w, 'v) Recoverer \<Rightarrow> ('w, unit) go" where
  "archiveCephDaemonCrashMessages r =
     (let cmd = [''ceph'', ''crash'', ''archive-all''] in
      bind (getRunningCephToolsPod r) (\<lambda>pod.
      bind (rc_cmdRunner r pod cmd) (\<lambda>_. ret ())))"

definition isCephToolsEnabled :: "('w, 'v) Recoverer \<Rightarrow> ('w, bool) go" where
  "isCephToolsEnabled r =
     bind (getOCPVersion r) (\<lambda>v.
     bind (ocp4_15 (rc_Client r)) (\<lambda>v415.
     if LessThan (rc_Client r) v v415 then
       bind (getOSCInitialization r) (\<lambda>i. ret (oi_EnableCephTools i))
     else
       bind (getStorageCluster r) (\<lambda>sc. ret (sc_EnableCephTools sc))))"

definition setEnableCephToolsValue :: "('w, 'v) Recoverer \<Rightarrow> bool \<Rightarrow> ('w, unit) go" where
  "setEnableCephToolsValue r value =
     (let c = rc_Client r in
      bind (getOCPVersion r) (\<lambda>v.
      bind (ocp4_15 c) (\<lambda>v415.
      if LessThan c v v415 then
        bind (getOSCInitialization r) (\<lambda>i.
        let i' = i\<lparr>oi_EnableCephTools := value\<rparr> in
        call (UpdateOCSInitialization i') (Update_OCSInitialization c i'))
      else
        bind (getStorageCluster r) (\<lambda>sc.
        let sc' = sc\<lparr>sc_EnableCephTools := value\<rparr> in
        call (UpdateStorageCluster sc') (Update_StorageCluster c sc')))))"

definition enableCephTools :: "('w, 'v) Recoverer \<Rightarrow> ('w, unit) go" where
  "enableCephTools r = setEnableCephToolsValue r True"

definition disableCephTools :: "('w, 'v) Recoverer \<Rightarrow> ('w, unit) go" where
  "disableCephTools r = setEnableCephToolsValue r False"

section \<open>OSD pods, deployments and the removal job\<close>

definition getOSDPods :: "('w, 'v) Recoverer \<Rightarrow> ('w, Pod list) go" where
  "getOSDPods r =
     (let c = rc_Client r in
      bind (asSelector c (match_labels [(''app'', ''rook-ceph-osd'')])) (\<lambda>selector.
      listPods c (odf_list selector)))"

definition getOSDPodsWithID :: "('w, 'v) Recoverer \<Rightarrow> string \<Rightarrow> ('w, Pod list) go" where
  "getOSDPodsWithID r osdID =
     (let c = rc_Client r in
      bind (asSelector c (match_labels [(''app'', ''rook-ceph-osd''), (OsdIdLabelKey c, osdID)])) (\<lambda>selector.
      listPods c (odf_list selector)))"

definition scaleRookCephOSDDeploymentToZero :: "('w, 'v) Recoverer \<Rightarrow> string \<Rightarrow> ('w, unit) go" where
  "scaleRookCephOSDDeploymentToZero r osdID =
     (let c = rc_Client r in
      bind (asSelector c (match_labels [(''app'', ''rook-ceph-osd''), (OsdIdLabelKey c, osdID)])) (\<lambda>selector.
      bind (call (ListCall KDeployment (odf_list selector)) (List_Deployment c (odf_list selector))) (\<lambda>items.
      forM (\<lambda>d. let d' = d\<lparr>dep_Replicas := Some 0\<rparr>
                in call (UpdateDeployment d') (Update_Deployment c d')) items)))"

definition osd_id_in :: "('w, 'v) external \<Rightarrow> string list \<Rightarrow> LabelSelector" where
  "osd_id_in c ids =
     \<lparr>MatchLabels = [],
      MatchExpressions = [\<lparr>req_Key = OsdIdLabelKey c, req_Operator = OpIn, req_Values = ids\<rparr>]\<rparr>"

definition forceDeleteRookCephOSDPods :: "('w, 'v) Recoverer \<Rightarrow> string list \<Rightarrow> ('w, unit) go" where
  "forceDeleteRookCephOSDPods r osdIDs =
     (let c = rc_Client r in
      bind (asSelector c (osd_id_in c osdIDs)) (\<lambda>selector.
      deleteAllOfPods c (odf_list selector) (Some 0)))"

definition deleteOldOSDRemovalJob :: "('w, 'v) Recoverer \<Rightarrow> ('w, unit) go" where
  "deleteOldOSDRemovalJob r =
     (let c = rc_Client r; k = odf_name ''ocs-osd-removal-job'' in
      bind (attempt (call (GetCall KJob k) (Get_Job c k))) (\<lambda>got.
      bind (case got of
              Inl e \<Rightarrow> (if \<not> IsNotFound c e then throw e else ret ())
            | Inr job \<Rightarrow> call (DeleteJob job) (Delete_Job c job)) (\<lambda>_.
      bind (asSelector c (match_labels [(''job-name'', ''ocs-osd-removal-job'')])) (\<lambda>s.
      deleteAllOfPods c (odf_list s) (Some 0)))))"

section \<open>Footprints\<close>

text \<open>The reads, the commands and the writes each operation may make.\<close>

definition is_read :: "effect \<Rightarrow> bool" where
  "is_read e \<longleftrightarrow> (\<exists>k n. e = GetCall k n) \<or> (\<exists>k l. e = ListCall k l)"

lemma is_read_simps [simp]: "is_read (GetCall k n)" "is_read (ListCall k l)"
  by (simp_all add: is_read_def)

lemma is_read_not_write: "is_read e \<Longrightarrow> \<not> is_write e"
  by (auto simp: is_read_def)

lemma footprint_asSelector: "footprint P (asSelector c sel)"
  unfolding asSelector_def by (intro footprint_intros)

lemma footprint_listPods: "P (ListCall KPod l) \<Longrightarrow> footprint P (listPods c l)"
  unfolding listPods_def by (intro footprint_intros)

lemma footprint_deleteAllOfPods: "P (DeleteAllOfPods l g) \<Longrightarrow> footprint P (deleteAllOfPods c l g)"
  unfolding deleteAllOfPods_def by (intro footprint_intros)

lemmas ceph_base = footprint_intros footprint_asSelector footprint_listPods
  footprint_deleteAllOfPods footprint_ocp4_15

lemma footprint_getStorageCluster: "P (GetCall KStorageCluster (odf_name ''ocs-storagecluster'')) \<Longrightarrow>
    footprint P (getStorageCluster r)"
  unfolding getStorageCluster_def Let_def by (intro ceph_base)

lemma footprint_getOSCInitialization: "P (GetCall KOCSInitialization (odf_name ''ocsinit'')) \<Longrightarrow>
    footprint P (getOSCInitialization r)"
  unfolding getOSCInitialization_def Let_def by (intro ceph_base)

lemma footprint_getOCPVersion: "P (GetCall KClusterVersion (cluster_name ''version'')) \<Longrightarrow>
    footprint P (getOCPVersion r)"
  unfolding getOCPVersion_def Let_def by (intro ceph_base)

lemma footprint_getRunningCephToolsPod:
  "(\<And>l. list_indexed KPod l \<Longrightarrow> P (ListCall KPod l)) \<Longrightarrow> footprint P (getRunningCephToolsPod r)"
  unfolding getRunningCephToolsPod_def Let_def by (intro ceph_base) simp_all

lemma footprint_getCephToolsPodPhase:
  "(\<And>l. list_indexed KPod l \<Longrightarrow> P (ListCall KPod l)) \<Longrightarrow> footprint P (getCephToolsPodPhase r)"
  unfolding getCephToolsPodPhase_def by (intro ceph_base footprint_getRunningCephToolsPod)

lemma footprint_getOSDPods: "(\<And>l. list_indexed KPod l \<Longrightarrow> P (ListCall KPod l)) \<Longrightarrow> footprint P (getOSDPods r)"
  unfolding getOSDPods_def Let_def by (intro ceph_base) simp_all

lemma footprint_getOSDPodsWithID: "(\<And>l. list_indexed KPod l \<Longrightarrow> P (ListCall KPod l)) \<Longrightarrow> footprint P (getOSDPodsWithID r i)"
  unfolding getOSDPodsWithID_def Let_def by (intro ceph_base) simp_all

lemma footprint_isCephToolsEnabled:
  "(\<And>k n. P (GetCall k n)) \<Longrightarrow> footprint P (isCephToolsEnabled r)"
  unfolding isCephToolsEnabled_def
  by (intro ceph_base footprint_getOCPVersion footprint_getOSCInitialization footprint_getStorageCluster)

lemma footprint_setEnableCephToolsValue:
  assumes "\<And>k n. P (GetCall k n)"
    and "\<And>i. oi_EnableCephTools i = v \<Longrightarrow> P (UpdateOCSInitialization i)"
    and "\<And>sc. sc_EnableCephTools sc = v \<Longrightarrow> P (UpdateStorageCluster sc)"
  shows "footprint P (setEnableCephToolsValue r v)"
  unfolding setEnableCephToolsValue_def Let_def
  by (intro ceph_base footprint_getOCPVersion footprint_getOSCInitialization footprint_getStorageCluster
      assms) simp_all

lemma footprint_scaleRookCephOSDDeploymentToZero:
  assumes "\<And>l. list_indexed KDeployment l \<Longrightarrow> P (ListCall KDeployment l)"
    and "\<And>d. dep_Replicas d = Some 0 \<Longrightarrow> P (UpdateDeployment d)"
  shows "footprint P (scaleRookCephOSDDeploymentToZero r i)"
  unfolding scaleRookCephOSDDeploymentToZero_def Let_def
  by (intro ceph_base assms) simp_all

lemma footprint_forceDeleteRookCephOSDPods:
  "P (DeleteAllOfPods (odf_list (osd_id_in (rc_Client r) ids)) (Some 0)) \<Longrightarrow>
   footprint P (forceDeleteRookCephOSDPods r ids)"
  by (auto simp: forceDeleteRookCephOSDPods_def Let_def asSelector_def bind_assoc
      intro!: ceph_base)

lemma footprint_deleteOldOSDRemovalJob:
  assumes "P (GetCall KJob (odf_name ''ocs-osd-removal-job''))"
    and "\<And>j. P (DeleteJob j)"
    and "P (DeleteAllOfPods (odf_list (match_labels [(''job-name'', ''ocs-osd-removal-job'')])) (Some 0))"
  shows "footprint P (deleteOldOSDRemovalJob r)"
  using assms
  by (auto simp: deleteOldOSDRemovalJob_def Let_def asSelector_def bind_assoc
      intro!: ceph_base split: sum.splits)

section \<open>A receiver with well-behaved collaborators\<close>

text \<open>The commands that the operator runs in the Ceph tools pod.\<close>

definition ceph_command :: "ExecRequest \<Rightarrow> bool" where
  "ceph_command q \<longleftrightarrow>
     exec_Command q \<in> {[''ceph'', ''status'', ''-f'', ''json''], [''ceph'', ''crash'', ''archive-all'']} \<and> \<not> exec_Stdin q"

text \<open>
  A receiver whose command runner and log retriever keep the contracts of their interfaces.
  The receiver that \<open>main\<close> wires is one.
\<close>

locale recoverer_env =
  cmd: RemoteCommandExecutor "rc_cmdRunner r" "NewForConfig (rc_Client r)" + logs: podLogRetriever "rc_logRetriever r"
  for r :: "('w, 'v) Recoverer"
begin

lemma footprint_cmdRunner:
  "(\<And>q. exec_Command q = cmd \<Longrightarrow> \<not> exec_Stdin q \<Longrightarrow> P (ExecCall q)) \<Longrightarrow> footprint P (rc_cmdRunner r pod cmd)"
  using cmd.Run_footprint by (rule footprint_mono) (auto simp: runs_command_def)

lemma footprint_logRetriever: "(\<And>n p. P (LogsCall n p)) \<Longrightarrow> footprint P (rc_logRetriever r pod)"
  using logs.GetLogs_footprint by (rule footprint_mono) (auto simp: is_logs_def)

lemma footprint_getCephHealthStatus:
  "(\<And>l. list_indexed KPod l \<Longrightarrow> P (ListCall KPod l)) \<Longrightarrow> (\<And>q. ceph_command q \<Longrightarrow> P (ExecCall q)) \<Longrightarrow>
   footprint P (getCephHealthStatus r)"
  unfolding getCephHealthStatus_def
  by (intro ceph_base footprint_cmdRunner footprint_getRunningCephToolsPod) (auto simp: ceph_command_def)

lemma footprint_archiveCephDaemonCrashMessages:
  "(\<And>l. list_indexed KPod l \<Longrightarrow> P (ListCall KPod l)) \<Longrightarrow> (\<And>q. ceph_command q \<Longrightarrow> P (ExecCall q)) \<Longrightarrow>
   footprint P (archiveCephDaemonCrashMessages r)"
  unfolding archiveCephDaemonCrashMessages_def Let_def
  by (intro ceph_base footprint_cmdRunner footprint_getRunningCephToolsPod) (auto simp: ceph_command_def)

end

interpretation wr: recoverer_env "wired c" for c :: "('w, 'v) external"
  by (simp add: recoverer_env_def rex.RemoteCommandExecutor_axioms logc.podLogRetriever_axioms)

end
