(* ===== verification/Health_Report.thy ===== *)
theory Health_Report
  imports Sample_Cluster Ceph
begin

text \<open>
  From the report that \<open>ceph status\<close> prints to the status that the reconciler compares. The theory has a printer for
  JSON, the inverse of the parser of \<open>Go_Json\<close>, and follows a printed report through the remote command of
  \<open>src/internal/controller/pod/remote_command.go\<close> to the result of \<open>getCephHealthStatus\<close>.
\<close>

section \<open>Printing JSON\<close>

fun sep_by :: "'a \<Rightarrow> 'a list list \<Rightarrow> 'a list" where
  "sep_by x [] = []"
| "sep_by x [ys] = ys"
| "sep_by x (ys # zs # yss) = ys @ x # sep_by x (zs # yss)"

definition quoted :: "string \<Rightarrow> string" where
  "quoted s = CHR 0x22 # s @ [CHR 0x22]"

fun print_json :: "json \<Rightarrow> string" where
  "print_json JNull = ''null''"
| "print_json (JBool b) = (if b then ''true'' else ''false'')"
| "print_json (JNumber n) = n"
| "print_json (JString s) = quoted s"
| "print_json (JArray vs) = CHR ''['' # sep_by (CHR '','') (map print_json vs) @ '']''"
| "print_json (JObject ms) = CHR ''{'' # sep_by (CHR '','') (map (\<lambda>(k, v). quoted k @ CHR '':'' # print_json v) ms) @ ''}''"

fun toks :: "json \<Rightarrow> token list" where
  "toks JNull = [TNull]"
| "toks (JBool b) = [if b then TTrue else TFalse]"
| "toks (JNumber n) = [TNumber n]"
| "toks (JString s) = [TString s]"
| "toks (JArray vs) = LBracket # sep_by Comma (map toks vs) @ [RBracket]"
| "toks (JObject ms) = LBrace # sep_by Comma (map (\<lambda>(k, v). TString k # Colon # toks v) ms) @ [RBrace]"

text \<open>
  A text within one token: the scanner reads it without completing a token. The raw text of a string and the digits
  of a number are such texts.
\<close>

fun silent :: "lexmode \<Rightarrow> string \<Rightarrow> lexmode option" where
  "silent m [] = Some m"
| "silent m (c # cs) = (case lex_byte m c of Some ([], m') \<Rightarrow> silent m' cs | _ \<Rightarrow> None)"

definition string_ok :: "string \<Rightarrow> bool" where
  "string_ok s \<longleftrightarrow> silent (LString []) s = Some (LString (rev s))"

definition number_ok :: "string \<Rightarrow> bool" where
  "number_ok n \<longleftrightarrow> (case silent LStart n of Some (LNumber q acc) \<Rightarrow> num_final q \<and> acc = rev n | _ \<Rightarrow> False)"

fun json_ok :: "json \<Rightarrow> bool" where
  "json_ok (JNumber n) = number_ok n"
| "json_ok (JString s) = string_ok s"
| "json_ok (JArray vs) = list_all json_ok vs"
| "json_ok (JObject ms) = list_all (\<lambda>(k, v). string_ok k \<and> json_ok v) ms"
| "json_ok _ = True"

fun depth :: "json \<Rightarrow> nat" where
  "depth (JArray vs) = Suc (foldr max (map depth vs) 0)"
| "depth (JObject ms) = Suc (foldr max (map (\<lambda>(k, v). depth v) ms) 0)"
| "depth _ = 0"

lemma foldr_max_le: "foldr max (map f xs) 0 \<le> (n :: nat) \<longleftrightarrow> (\<forall>x\<in>set xs. f x \<le> n)"
  by (induction xs) auto

section \<open>The scanner reads what is printed\<close>

lemma lex_silent: "silent m s = Some m' \<Longrightarrow> lex_run m (s @ rest) = lex_run m' rest"
  by (induction m s rule: silent.induct) (auto split: option.splits list.splits)

lemma lex_quoted: "string_ok s \<Longrightarrow> lex_run LStart (quoted s @ rest) = map_option ((#) (TString s)) (lex_run LStart rest)"
  using lex_silent [of "LString []" s]
  by (auto simp: quoted_def string_ok_def lex_byte_def lex_start_def json_space_def split: option.splits)

definition delimiter :: "char \<Rightarrow> bool" where
  "delimiter c \<longleftrightarrow> json_space c \<or> c \<in> {CHR '','', CHR '']'', CHR ''}''}"

definition delimited :: "string \<Rightarrow> bool" where
  "delimited s \<longleftrightarrow> (case s of [] \<Rightarrow> True | c # _ \<Rightarrow> delimiter c)"

lemma num_next_delimiter: "delimiter c \<Longrightarrow> num_next q c = None"
  by (cases q) (auto simp: delimiter_def json_space_def num_next_def is_digit_def)

lemma lex_number:
  assumes "number_ok n" and "delimited rest"
  shows "lex_run LStart (n @ rest) = map_option ((#) (TNumber n)) (lex_run LStart rest)"
proof -
  obtain q where q: "silent LStart n = Some (LNumber q (rev n))" "num_final q"
    using assms(1) by (auto simp: number_ok_def split: option.splits lexmode.splits)
  show ?thesis
    using assms(2) q(2) num_next_delimiter [of _ q] unfolding lex_silent [OF q(1)]
    by (auto simp: delimited_def lex_byte_def [of "LNumber _ _"] lex_byte_def [of LStart] split: list.splits option.splits)
qed

lemma lex_punctuation:
  "lex_run LStart (CHR '','' # s) = map_option ((#) Comma) (lex_run LStart s)"
  "lex_run LStart (CHR '':'' # s) = map_option ((#) Colon) (lex_run LStart s)"
  "lex_run LStart (CHR ''['' # s) = map_option ((#) LBracket) (lex_run LStart s)"
  "lex_run LStart (CHR '']'' # s) = map_option ((#) RBracket) (lex_run LStart s)"
  "lex_run LStart (CHR ''{'' # s) = map_option ((#) LBrace) (lex_run LStart s)"
  "lex_run LStart (CHR ''}'' # s) = map_option ((#) RBrace) (lex_run LStart s)"
  by (simp_all add: lex_byte_def lex_start_def json_space_def option.case_eq_if map_option_case)

lemma lex_literals:
  "lex_run LStart (''null'' @ s) = map_option ((#) TNull) (lex_run LStart s)"
  "lex_run LStart (''true'' @ s) = map_option ((#) TTrue) (lex_run LStart s)"
  "lex_run LStart (''false'' @ s) = map_option ((#) TFalse) (lex_run LStart s)"
  by (simp_all add: lex_byte_def lex_start_def json_space_def is_digit_def option.case_eq_if map_option_case)

declare lex_run.simps(2) [simp del]

lemma append_fun: "(@) [] = (\<lambda>zs. zs)" "(@) (x # xs) = (\<lambda>zs. x # xs @ zs)" "(@) (xs @ ys) = (\<lambda>zs. xs @ ys @ zs)"
  by (simp_all add: fun_eq_iff)

text \<open>A list of texts, each of which is read as its tokens when a delimiter follows.\<close>

lemma lex_sep_by:
  assumes "\<And>x r. x \<in> set xs \<Longrightarrow> delimited r \<Longrightarrow>
      lex_run LStart (p x @ r) = map_option (\<lambda>ts. f x @ ts) (lex_run LStart r)"
    and "delimited rest"
  shows "lex_run LStart (sep_by (CHR '','') (map p xs) @ rest) =
    map_option (\<lambda>ts. sep_by Comma (map f xs) @ ts) (lex_run LStart rest)"
  using assms(1)
proof (induction "CHR '',''" "map p xs" arbitrary: xs rule: sep_by.induct)
  case 1
  then show ?case by (simp add: append_fun option.map_ident)
next
  case (2 ys)
  then obtain x where "xs = [x]" by auto
  then show ?case using 2 assms(2) by simp
next
  case (3 ys zs yss)
  then obtain x x' xs' where xs: "xs = x # x' # xs'" by (metis map_eq_Cons_D)
  have "delimited (CHR '','' # t)" for t by (simp add: delimited_def delimiter_def)
  from 3(3) [of x, OF _ this] 3(1) [of "x' # xs'"] 3(2,3) show ?case
    by (simp add: xs lex_punctuation option.map_comp comp_def append_fun)
qed

lemma lex_print:
  "json_ok j \<Longrightarrow> delimited rest \<Longrightarrow>
   lex_run LStart (print_json j @ rest) = map_option (\<lambda>ts. toks j @ ts) (lex_run LStart rest)"
proof (induction j arbitrary: rest)
  case (JArray vs)
  have "delimited ('']'' @ rest)" by (simp add: delimited_def delimiter_def)
  with JArray show ?case
    by (simp add: lex_punctuation lex_sep_by [where f = toks] list_all_iff option.map_comp comp_def)
next
  case (JObject ms)
  let ?p = "\<lambda>(k, v). quoted k @ CHR '':'' # print_json v" and ?f = "\<lambda>(k, v). TString k # Colon # toks v"
  have "lex_run LStart (?p x @ r) = map_option (\<lambda>ts. ?f x @ ts) (lex_run LStart r)" if "x \<in> set ms" "delimited r" for x r
    using JObject that
    by (cases x) (fastforce simp: lex_quoted lex_punctuation list_all_iff option.map_comp comp_def)
  moreover have "delimited (''}'' @ rest)" by (simp add: delimited_def delimiter_def)
  ultimately show ?case
    by (simp add: lex_punctuation lex_sep_by [where f = ?f] option.map_comp comp_def)
qed (auto simp: lex_literals [simplified] lex_number lex_quoted append_fun)

section \<open>The parser reads back the value\<close>

lemma toks_start: "\<exists>t ts. toks j = t # ts \<and> t \<noteq> RBracket"
  by (cases j) auto

lemma parse_elements:
  assumes "\<And>v fs ts. v \<in> set (v0 # vs) \<Longrightarrow> length fs \<le> n \<Longrightarrow> parse_run (PValue fs) (toks v @ ts) = parse_run (PAfter fs v) ts"
    and "Suc (length fs) \<le> n"
  shows "parse_run (PValue (FArray acc # fs)) (sep_by Comma (map toks (v0 # vs)) @ RBracket # ts) =
    parse_run (PAfter fs (JArray (rev acc @ v0 # vs))) ts"
  using assms(1)
proof (induction vs arbitrary: v0 acc)
  case Nil
  then show ?case using assms(2) by (simp add: parse_token_def give_def)
next
  case (Cons v1 vs)
  from Cons.IH [of v1 "v0 # acc"] Cons.prems show ?case using assms(2) by (simp add: parse_token_def give_def)
qed

lemma parse_members:
  assumes "\<And>k v fs ts. (k, v) \<in> set (m0 # ms) \<Longrightarrow> length fs \<le> n \<Longrightarrow> parse_run (PValue fs) (toks v @ ts) = parse_run (PAfter fs v) ts"
    and "Suc (length fs) \<le> n"
  defines "f \<equiv> \<lambda>(k, v). TString k # Colon # toks v"
  shows "parse_run (PKey (FObject acc # fs)) (sep_by Comma (map f (m0 # ms)) @ RBrace # ts) =
    parse_run (PAfter fs (JObject (rev acc @ m0 # ms))) ts"
  using assms(1)
proof (induction ms arbitrary: m0 acc)
  case Nil
  then show ?case using assms(2) by (cases m0) (simp add: f_def parse_token_def give_def)
next
  case (Cons m1 ms)
  from Cons.IH [of m1 "m0 # acc"] Cons.prems show ?case
    using assms(2) by (cases m0) (fastforce simp: f_def parse_token_def give_def)
qed

lemma parse_toks:
  "length fs + depth j \<le> max_depth \<Longrightarrow> parse_run (PValue fs) (toks j @ ts) = parse_run (PAfter fs j) ts"
proof (induction j arbitrary: fs ts)
  case (JArray vs)
  let ?d = "foldr max (map depth vs) 0"
  have e: "parse_run (PValue gs) (toks v @ us) = parse_run (PAfter gs v) us"
    if "v \<in> set vs" "length gs \<le> max_depth - ?d" for v gs us
  proof (rule JArray.IH [OF that(1)])
    have "depth v \<le> ?d" using that(1) foldr_max_le [of depth vs ?d] by blast
    then show "length gs + depth v \<le> max_depth" using that(2) JArray.prems by simp
  qed
  have room: "Suc (length fs) \<le> max_depth - ?d" "Suc (length fs) \<le> max_depth" using JArray.prems by simp_all
  show ?case
  proof (cases vs)
    case Nil
    then show ?thesis using room by (simp add: parse_token_def begin_value_def open_frame_def give_def)
  next
    case (Cons v0 ws)
    obtain t us where "toks v0 = t # us" "t \<noteq> RBracket" using toks_start by blast
    then obtain us' where "sep_by Comma (map toks vs) = t # us'" "t \<noteq> RBracket" using Cons by (cases ws) auto
    then have "parse_run (PValue fs) (toks (JArray vs) @ ts) =
        parse_run (PValue (FArray [] # fs)) (sep_by Comma (map toks vs) @ RBracket # ts)"
      using room by (simp add: parse_token_def begin_value_def open_frame_def)
    also have "\<dots> = parse_run (PAfter fs (JArray vs)) ts"
      using parse_elements [of v0 ws "max_depth - ?d" fs "[]" ts] e room(1) Cons by simp
    finally show ?thesis .
  qed
next
  case (JObject ms)
  let ?d = "foldr max (map (\<lambda>(k, v). depth v) ms) 0" and ?f = "\<lambda>(k, v). TString k # Colon # toks v"
  have e: "parse_run (PValue gs) (toks v @ us) = parse_run (PAfter gs v) us"
    if "(k, v) \<in> set ms" "length gs \<le> max_depth - ?d" for k v gs us
  proof (rule JObject.IH [OF that(1)])
    have "depth v \<le> ?d" using that(1) foldr_max_le [of "\<lambda>(k, v). depth v" ms ?d] by fastforce
    then show "length gs + depth v \<le> max_depth" using that(2) JObject.prems by simp
  qed simp
  have room: "Suc (length fs) \<le> max_depth - ?d" "Suc (length fs) \<le> max_depth" using JObject.prems by simp_all
  show ?case
  proof (cases ms)
    case Nil
    then show ?thesis using room by (simp add: parse_token_def begin_value_def open_frame_def give_def)
  next
    case (Cons m0 ns)
    obtain k us where "sep_by Comma (map ?f ms) = TString k # us" using Cons by (cases ns; cases m0) auto
    then have "parse_run (PValue fs) (toks (JObject ms) @ ts) =
        parse_run (PKey (FObject [] # fs)) (sep_by Comma (map ?f ms) @ RBrace # ts)"
      using room by (simp add: parse_token_def begin_value_def open_frame_def)
    also have "\<dots> = parse_run (PAfter fs (JObject ms)) ts"
      using parse_members [of m0 ns "max_depth - ?d" fs "[]" ts] e room(1) Cons by simp
    finally show ?thesis .
  qed
qed (simp_all add: parse_token_def begin_value_def give_def)

lemma lex_spaces: "list_all json_space ws \<Longrightarrow> lex_run LStart (ws @ s) = lex_run LStart s"
  by (induction ws) (simp_all add: lex_run.simps(2) lex_byte_def lex_start_def option.case_eq_if)

lemma json_parse_print:
  assumes "json_ok j" and "depth j \<le> max_depth" and "list_all json_space ws" and "list_all json_space ws'"
  shows "json_parse (ws @ print_json j @ ws') = Some j"
proof -
  have "delimited ws'" using assms(4) by (cases ws') (simp_all add: delimited_def delimiter_def)
  moreover have "lex_run LStart ws' = Some []" using lex_spaces [OF assms(4), of "[]"] by simp
  ultimately have "lex_run LStart (ws @ print_json j @ ws') = Some (toks j)"
    using lex_print [OF assms(1)] lex_spaces [OF assms(3)] by simp
  moreover have "parse_run (PValue []) (toks j) = Some j" using parse_toks [of "[]" j "[]"] assms(2) by simp
  ultimately show ?thesis by (simp add: json_parse_def)
qed

section \<open>The status of a report\<close>

text \<open>
  The member of an object that decodes into a field, when there is exactly one, and the status of a report, as the
  comment of \<open>getCephHealthStatus\<close> writes it: \<open>.health.status\<close>.
\<close>

definition sole_member :: "string \<Rightarrow> json \<Rightarrow> json option" where
  "sole_member field j =
     (case j of
        JObject ms \<Rightarrow> (case filter (\<lambda>(k, v). key_matches field k) ms of [(k, v)] \<Rightarrow> Some v | _ \<Rightarrow> None)
      | _ \<Rightarrow> None)"

definition report_status :: "json \<Rightarrow> string option" where
  "report_status j =
     Option.bind (sole_member ''health'' j) (\<lambda>h. Option.bind (sole_member ''status'' h) (\<lambda>v.
       case v of JString raw \<Rightarrow> unquote raw | _ \<Rightarrow> None))"

lemma fold_members:
  "fold (\<lambda>(k, v) (h, b). if P k then g v h b else (h, b)) ms a = fold (\<lambda>(k, v) (h, b). g v h b) (filter (\<lambda>(k, v). P k) ms) a"
  by (induction ms arbitrary: a) auto

lemma sole_memberE:
  assumes "sole_member field j = Some v"
  obtains ms k where "j = JObject ms" "filter (\<lambda>(k, v). key_matches field k) ms = [(k, v)]"
  using assms by (auto simp: sole_member_def split: json.splits list.splits)

lemma decode_report:
  assumes "report_status j = Some st"
  shows "decode_healthStatus j h False = (h\<lparr>Health := (Health h)\<lparr>health_Status := st\<rparr>\<rparr>, False)"
proof -
  obtain x v where x: "sole_member ''health'' j = Some x" "sole_member ''status'' x = Some v"
    "(case v of JString raw \<Rightarrow> unquote raw | _ \<Rightarrow> None) = Some st"
    using assms by (auto simp: report_status_def bind_eq_Some_conv)
  then obtain raw where raw: "v = JString raw" "unquote raw = Some st" by (cases v) auto
  have "decode_health x (Health h) False = ((Health h)\<lparr>health_Status := st\<rparr>, False)"
    using x(2) raw by (elim sole_memberE) (simp add: decode_health_def fold_members decode_string_def)
  then show ?thesis using x(1) by (elim sole_memberE) (simp add: decode_healthStatus_def fold_members)
qed

section \<open>The remote command\<close>

text \<open>The request for \<open>ceph status\<close> in a container of the tools pod, and the executor that the feature gate of websockets selects.\<close>

definition status_request :: "Pod \<Rightarrow> string \<Rightarrow> ExecRequest" where
  "status_request pod container =
     \<lparr>exec_Namespace = pod_Namespace pod, exec_Pod = pod_Name pod, exec_Container = container,
      exec_Command = [''ceph'', ''status'', ''-f'', ''json''],
      exec_Stdin = False, exec_Stdout = True, exec_Stderr = True, exec_TTY = True\<rparr>"

definition executor_for :: "bool \<Rightarrow> ExecRequest \<Rightarrow> executor" where
  "executor_for websockets q =
     (if websockets then FallbackExecutor (WebSocketExecutor ''GET'' q) (SPDYExecutor ''POST'' q) else SPDYExecutor ''POST'' q)"

definition executor_built :: "('w, 'v) external \<Rightarrow> bool \<Rightarrow> ExecRequest \<Rightarrow> bool" where
  "executor_built c websockets q \<longleftrightarrow>
     NewSPDYExecutor c ''POST'' q = None \<and>
     (websockets \<longrightarrow> NewWebSocketExecutor c ''GET'' q = None \<and>
        NewFallbackExecutor c (WebSocketExecutor ''GET'' q) (SPDYExecutor ''POST'' q) = None)"

definition tools_pods :: ListOptions where
  "tools_pods = odf_list (match_labels [(''app'', ''rook-ceph-tools'')])"

lemma createExecutor_built:
  assumes "executor_built c (\<not> WebsocketsDisabled c (world s)) q"
  shows "createExecutor c q s = (Ok (executor_for (\<not> WebsocketsDisabled c (world s)) q), s)"
  using assms
  by (auto simp: createExecutor_def executor_built_def executor_for_def Let_def bind_def liftErr_def run_ret run_gets)

lemma getRunningCephToolsPod_listed:
  assumes "LabelSelectorAsSelector (rc_Client r) (match_labels [(''app'', ''rook-ceph-tools'')]) = None"
    and "List_Pod (rc_Client r) tools_pods (world s) = (Inr (pod # pods), w)"
  shows "getRunningCephToolsPod r s = (Ok pod, s\<lparr>world := w, trace := trace s @ [ListCall KPod tools_pods]\<rparr>)"
  using assms
  by (simp add: getRunningCephToolsPod_def asSelector_def listPods_def tools_pods_def bind_def liftErr_def run_ret run_call Let_def)

lemma remoteExecutor_Run_streams:
  assumes "NewForConfig c (world s) = Inr ()" and "FindOrDefaultContainerByName c pod '''' True = (Inr container, warnings)"
    and "executor_built c (\<not> WebsocketsDisabled c (world s)) (status_request pod container)"
    and "StreamWithContext c (executor_for (\<not> WebsocketsDisabled c (world s)) (status_request pod container))
      \<lparr>stream_Stdin = False, stream_Stdout = True, stream_Stderr = True, stream_Tty = False\<rparr> (world s) = (Inr (out, err), w)"
  shows "remoteExecutor_Run c pod [''ceph'', ''status'', ''-f'', ''json''] s =
    (Ok (out, warnings @ err), s\<lparr>world := w, trace := trace s @ [ExecCall (status_request pod container)]\<rparr>)"
  using assms createExecutor_built [OF assms(3), unfolded status_request_def]
  by (simp add: remoteExecutor_Run_def NewForConfigOrDie_def liftSum_def status_request_def [symmetric] bind_def onErr_def run_ret run_call
      Let_def)

text \<open>
  C14. The health status that the reconciler reads is the one that Ceph reports. When the tools pod is listed, the client set
  and the executor can be built, and the command prints a JSON report with one status, whatever else the report holds,
  \<open>getCephHealthStatus\<close> makes two requests, the list of the tools pods and one \<open>ceph status -f json\<close> in the first of them, and
  returns exactly this status. If anything is written to the second output, warnings of the container lookup included,
  the result is an error with that text.
\<close>

theorem health_status_reported:
  assumes pod: "LabelSelectorAsSelector c (match_labels [(''app'', ''rook-ceph-tools'')]) = None"
      "List_Pod c tools_pods (world s) = (Inr (pod # pods), w)" "NewForConfig c w = Inr ()"
    and container: "FindOrDefaultContainerByName c pod '''' True = (Inr container, warnings)"
    and executor: "executor_built c (\<not> WebsocketsDisabled c w) (status_request pod container)"
    and report: "json_ok j" "depth j \<le> max_depth" "report_status j = Some st"
      "list_all json_space before" "list_all json_space after"
    and answer: "StreamWithContext c (executor_for (\<not> WebsocketsDisabled c w) (status_request pod container))
      \<lparr>stream_Stdin = False, stream_Stdout = True, stream_Stderr = True, stream_Tty = False\<rparr> w =
        (Inr (before @ print_json j @ after, err), w')"
  shows "getCephHealthStatus (wired c) s =
    (if warnings @ err = [] then Ok st
     else Err (ErrorString (''error while executing remote shell to retrieve the ceph health status: '' @ warnings @ err)),
     s\<lparr>world := w', trace := trace s @ [ListCall KPod tools_pods, ExecCall (status_request pod container)]\<rparr>)"
proof -
  let ?s1 = "s\<lparr>world := w, trace := trace s @ [ListCall KPod tools_pods]\<rparr>"
  have "getRunningCephToolsPod (wired c) s = (Ok pod, ?s1)"
    by (rule getRunningCephToolsPod_listed) (simp_all add: pod)
  moreover have "remoteExecutor_Run c pod [''ceph'', ''status'', ''-f'', ''json''] ?s1 =
      (Ok (before @ print_json j @ after, warnings @ err),
       s\<lparr>world := w', trace := trace s @ [ListCall KPod tools_pods, ExecCall (status_request pod container)]\<rparr>)"
    using remoteExecutor_Run_streams [of c ?s1 pod container warnings] pod(3) container executor answer by simp
  moreover have "json_Unmarshal (before @ print_json j @ after) h = Inr (h\<lparr>Health := (Health h)\<lparr>health_Status := st\<rparr>\<rparr>)" for h
    using json_parse_print [OF report(1,2,4,5)] decode_report [OF report(3)] by (simp add: json_Unmarshal_def)
  ultimately show ?thesis
    by (simp add: getCephHealthStatus_def bind_def liftSum_def run_ret run_throw)
qed

text \<open>A report of a cluster with a warning, as Ceph prints it, with other members around the status.\<close>

definition warning_report :: json where
  "warning_report = JObject [
     (''fsid'', JString ''9f1c''), (''health'', JObject [(''status'', JString ''HEALTH_WARN''),
       (''checks'', JObject [(''OSD_DOWN'', JObject [(''severity'', JString ''HEALTH_WARN''), (''count'', JNumber ''1'')])]),
       (''mutes'', JArray [])]),
     (''quorum'', JArray [JNumber ''0'', JNumber ''1'', JNumber ''2'']), (''balanced'', JBool False), (''progress'', JNull)]"

theorem health_status_reported_witness:
  "fst (getCephHealthStatus (wired sample)
      (at_rest ((healthy new_recovery)\<lparr>cl_stdout := [CHR 0x0A] @ print_json warning_report @ [CHR 0x0A]\<rparr>) new_recovery)) =
    Ok ''HEALTH_WARN''"
proof -
  let ?cl = "(healthy new_recovery)\<lparr>cl_stdout := [CHR 0x0A] @ print_json warning_report @ [CHR 0x0A]\<rparr>"
  have report: "json_ok warning_report" "depth warning_report \<le> max_depth" "report_status warning_report = Some ''HEALTH_WARN''"
    "list_all json_space [CHR 0x0A]"
    by code_simp+
  have "pod_selected tools_pods tools_pod" by code_simp
  then have pods: "filter (pod_selected tools_pods) (cl_pods (healthy new_recovery)) = [tools_pod]" by (simp add: healthy_def)
  have "LabelSelectorAsSelector sample (match_labels [(''app'', ''rook-ceph-tools'')]) = None" by code_simp
  moreover have "List_Pod sample tools_pods (world (at_rest ?cl new_recovery)) = (Inr [tools_pod], ?cl)"
    using pods by (simp add: sample_def at_rest_def)
  moreover have "NewForConfig sample ?cl = Inr ()" "FindOrDefaultContainerByName sample tools_pod '''' True = (Inr ''main'', [])"
    "executor_built sample (\<not> WebsocketsDisabled sample ?cl) (status_request tools_pod ''main'')"
    "StreamWithContext sample (executor_for (\<not> WebsocketsDisabled sample ?cl) (status_request tools_pod ''main''))
       \<lparr>stream_Stdin = False, stream_Stdout = True, stream_Stderr = True, stream_Tty = False\<rparr> ?cl =
     (Inr ([CHR 0x0A] @ print_json warning_report @ [CHR 0x0A], []), ?cl)"
    by (simp_all add: sample_def executor_built_def)
  ultimately show ?thesis
    by (subst health_status_reported [OF _ _ _ _ _ report(1-3) report(4) report(4)]) simp_all
qed

end
