(* ===== verification/Ceph_Properties.thy ===== *)
theory Ceph_Properties
  imports Ceph Sample_Cluster
begin

text \<open>
  What the operations of \<open>ceph.go\<close> achieve: which object carries the flag of the Ceph tools
  pod and that reading it gives back what was written, the version that decides it, the
  deployments that are scaled down, the removal of the old job, and the health status.
\<close>

section \<open>Running through the outcomes\<close>

lemma ret_Ok: "ret x s = (Ok y, s') \<longleftrightarrow> y = x \<and> s' = s"
  by (auto simp: ret_def)

lemma liftSum_Ok: "liftSum x s = (Ok y, s') \<longleftrightarrow> x = Inr y \<and> s' = s"
  by (cases x) (auto simp: run_simps)

lemma call_Ok:
  "call e f s = (Ok x, s') \<longleftrightarrow>
     (\<exists>w. f (world s) = (Inr x, w) \<and> s' = s\<lparr>world := w, trace := trace s @ [e]\<rparr>)"
  by (auto simp: run_call split: prod.splits sum.splits)

lemma getOCPVersion_Ok:
  "getOCPVersion r s = (Ok v, s') \<longleftrightarrow>
     (\<exists>cv i w. Get_ClusterVersion (rc_Client r) (cluster_name ''version'') (world s) = (Inr cv, w) \<and>
        first_completed (cv_History cv) = Some i \<and> NewVersion (rc_Client r) (uh_Version i) = Inr v \<and>
        s' = s\<lparr>world := w, trace := trace s @ [GetCall KClusterVersion (cluster_name ''version'')]\<rparr>)"
  by (auto simp: getOCPVersion_def Let_def bind_eq_Ok call_Ok liftSum_Ok run_throw split: option.splits)

lemma ocp4_15_Ok: "ocp4_15 c s = (Ok v, s') \<longleftrightarrow> NewVersion c ''v4.15'' = Inr v \<and> s' = s"
  by (auto simp: ocp4_15_def run_simps split: sum.splits)

lemma first_completed_find: "first_completed hs = find (\<lambda>h. uh_State h = CompletedUpdate) hs"
  by (induction hs) simp_all

lemma first_completed_None: "first_completed hs = None \<longleftrightarrow> (\<forall>h\<in>set hs. uh_State h \<noteq> CompletedUpdate)"
  by (induction hs) auto

lemma liftErr_Ok: "liftErr x s = (Ok y, s') \<longleftrightarrow> x = None \<and> s' = s"
  by (cases x) (auto simp: run_simps)

lemma asSelector_Ok:
  "asSelector c sel s = (Ok l, s') \<longleftrightarrow> LabelSelectorAsSelector c sel = None \<and> l = sel \<and> s' = s"
  by (auto simp: asSelector_def bind_eq_Ok liftErr_Ok run_ret)

lemma attempt_Ok:
  "attempt m s = (Ok x, s') \<longleftrightarrow>
     (\<exists>y. x = Inr y \<and> m s = (Ok y, s')) \<or> (\<exists>e. x = Inl e \<and> m s = (Err e, s'))"
  by (auto simp: attempt_def split: prod.splits result.splits)

lemma call_Err:
  "call e f s = (Err x, s') \<longleftrightarrow>
     (\<exists>w. f (world s) = (Inl x, w) \<and> s' = s\<lparr>world := w, trace := trace s @ [e]\<rparr>)"
  by (auto simp: run_call split: prod.splits sum.splits)

text \<open>A loop of requests makes them in order, and stops at the first that fails.\<close>

lemma forM_call_trace:
  "\<exists>n\<le>length xs. trace (snd (forM (\<lambda>x. call (e x) (f x)) xs s)) = trace s @ map e (take n xs) \<and>
     (fst (forM (\<lambda>x. call (e x) (f x)) xs s) = Ok () \<longrightarrow> n = length xs)"
proof (induction xs arbitrary: s)
  case Nil
  then show ?case by (simp add: ret_def)
next
  case (Cons x xs)
  obtain a w where fx: "f x (world s) = (a, w)" by fastforce
  let ?s1 = "s\<lparr>world := w, trace := trace s @ [e x]\<rparr>"
  show ?case
  proof (cases a)
    case (Inl err)
    then have "call (e x) (f x) s = (Err err, ?s1)" using fx by (simp add: call_def)
    then show ?thesis by (intro exI [of _ 1]) (simp add: bind_def)
  next
    case (Inr u)
    from Cons [of ?s1] obtain n where "n \<le> length xs"
      "trace (snd (forM (\<lambda>x. call (e x) (f x)) xs ?s1)) = trace ?s1 @ map e (take n xs)"
      "fst (forM (\<lambda>x. call (e x) (f x)) xs ?s1) = Ok () \<longrightarrow> n = length xs" by blast
    moreover have "call (e x) (f x) s = (Ok (), ?s1)" using fx Inr by (simp add: call_def)
    ultimately show ?thesis by (intro exI [of _ "Suc n"]) (simp add: bind_def)
  qed
qed

lemma forM_call_Ok:
  assumes "forM (\<lambda>x. call (e x) (f x)) xs s = (Ok (), s')"
  shows "trace s' = trace s @ map e xs"
  using forM_call_trace [where e = e and f = f and xs = xs and s = s] assms by auto

section \<open>The flag of the Ceph tools pod\<close>

text \<open>The object that carries the flag is chosen by the version of the cluster.\<close>

definition before_4_15 :: "('w, 'v) external \<Rightarrow> 'w \<Rightarrow> bool option" where
  "before_4_15 c w =
     (case fst (Get_ClusterVersion c (cluster_name ''version'') w) of
        Inl _ \<Rightarrow> None
      | Inr cv \<Rightarrow> (case first_completed (cv_History cv) of
          None \<Rightarrow> None
        | Some i \<Rightarrow> (case (NewVersion c (uh_Version i), NewVersion c ''v4.15'') of
            (Inr v, Inr v415) \<Rightarrow> Some (LessThan c v v415)
          | _ \<Rightarrow> None)))"

lemma setEnableCephToolsValue_Ok:
  assumes "setEnableCephToolsValue r v s = (Ok (), s')"
  defines "c \<equiv> rc_Client r"
  defines "w1 \<equiv> snd (Get_ClusterVersion c (cluster_name ''version'') (world s))"
  shows "\<exists>old. before_4_15 c (world s) = Some old \<and>
    (if old
     then \<exists>i w2 w3. Get_OCSInitialization c (odf_name ''ocsinit'') w1 = (Inr i, w2) \<and>
        Update_OCSInitialization c (i\<lparr>oi_EnableCephTools := v\<rparr>) w2 = (Inr (), w3) \<and>
        s' = s\<lparr>world := w3, trace := trace s @
          [GetCall KClusterVersion (cluster_name ''version''), GetCall KOCSInitialization (odf_name ''ocsinit''),
           UpdateOCSInitialization (i\<lparr>oi_EnableCephTools := v\<rparr>)]\<rparr>
     else \<exists>sc w2 w3. Get_StorageCluster c (odf_name ''ocs-storagecluster'') w1 = (Inr sc, w2) \<and>
        Update_StorageCluster c (sc\<lparr>sc_EnableCephTools := v\<rparr>) w2 = (Inr (), w3) \<and>
        s' = s\<lparr>world := w3, trace := trace s @
          [GetCall KClusterVersion (cluster_name ''version''), GetCall KStorageCluster (odf_name ''ocs-storagecluster''),
           UpdateStorageCluster (sc\<lparr>sc_EnableCephTools := v\<rparr>)]\<rparr>)"
proof -
  from assms(1) [unfolded setEnableCephToolsValue_def Let_def bind_eq_Ok ocp4_15_Ok, folded c_def]
  obtain v1 v2 s1 where v: "getOCPVersion r s = (Ok v1, s1)" "NewVersion c ''v4.15'' = Inr v2"
    and rest: "(if LessThan c v1 v2 then
        bind (getOSCInitialization r) (\<lambda>i. call (UpdateOCSInitialization (i\<lparr>oi_EnableCephTools := v\<rparr>))
          (Update_OCSInitialization c (i\<lparr>oi_EnableCephTools := v\<rparr>)))
        else bind (getStorageCluster r) (\<lambda>sc. call (UpdateStorageCluster (sc\<lparr>sc_EnableCephTools := v\<rparr>))
          (Update_StorageCluster c (sc\<lparr>sc_EnableCephTools := v\<rparr>)))) s1 = (Ok (), s')"
    by blast
  from v(1) have "s1 = s\<lparr>world := w1, trace := trace s @ [GetCall KClusterVersion (cluster_name ''version'')]\<rparr>"
    "before_4_15 c (world s) = Some (LessThan c v1 v2)"
    using v(2) by (auto simp: getOCPVersion_Ok before_4_15_def c_def w1_def)
  with rest show ?thesis
    by (auto simp: bind_eq_Ok call_Ok getOSCInitialization_def getStorageCluster_def Let_def c_def split: if_splits)
qed

lemma isCephToolsEnabled_eval:
  assumes "before_4_15 (rc_Client r) (world s) = Some old"
    and "Get_ClusterVersion (rc_Client r) (cluster_name ''version'') (world s) = (cv, w1)"
    and "if old then \<exists>i. fst (Get_OCSInitialization (rc_Client r) (odf_name ''ocsinit'') w1) = Inr i \<and> oi_EnableCephTools i = v
         else \<exists>sc. fst (Get_StorageCluster (rc_Client r) (odf_name ''ocs-storagecluster'') w1) = Inr sc \<and> sc_EnableCephTools sc = v"
  shows "fst (isCephToolsEnabled r s) = Ok v"
proof -
  from assms(1,2) obtain h i v1 v2 where
    "Get_ClusterVersion (rc_Client r) (cluster_name ''version'') (world s) = (Inr h, w1)"
    "first_completed (cv_History h) = Some i" "NewVersion (rc_Client r) (uh_Version i) = Inr v1"
    "NewVersion (rc_Client r) ''v4.15'' = Inr v2" "old = LessThan (rc_Client r) v1 v2"
    by (auto simp: before_4_15_def split: sum.splits option.splits)
  moreover from this have "getOCPVersion r s =
      (Ok v1, s\<lparr>world := w1, trace := trace s @ [GetCall KClusterVersion (cluster_name ''version'')]\<rparr>)"
    by (auto simp: getOCPVersion_Ok)
  ultimately show ?thesis
    using assms(3)
    by (auto simp: isCephToolsEnabled_def ocp4_15_def getOSCInitialization_def getStorageCluster_def Let_def
        bind_def run_ret run_call split: if_splits prod.splits)
qed

text \<open>
  What the API server promises of the two objects: reads change no object, a successful update
  is seen by the next read, and it leaves the version of the cluster alone.
\<close>

locale tools_server =
  fixes c :: "('w, 'v) external"
  assumes version_read:
      "fst (Get_OCSInitialization c k (snd (Get_ClusterVersion c vk w))) = fst (Get_OCSInitialization c k w)"
      "fst (Get_StorageCluster c k (snd (Get_ClusterVersion c vk w))) = fst (Get_StorageCluster c k w)"
    and version_kept:
      "Get_OCSInitialization c k w = (oi, w2) \<Longrightarrow> fst (Get_ClusterVersion c vk w2) = fst (Get_ClusterVersion c vk w)"
      "Get_StorageCluster c k w = (sc, w2) \<Longrightarrow> fst (Get_ClusterVersion c vk w2) = fst (Get_ClusterVersion c vk w)"
      "Get_ClusterVersion c vk w = (cv, w2) \<Longrightarrow> fst (Get_ClusterVersion c vk w2) = fst (Get_ClusterVersion c vk w)"
      "Update_OCSInitialization c i w = (Inr (), w2) \<Longrightarrow> fst (Get_ClusterVersion c vk w2) = fst (Get_ClusterVersion c vk w)"
      "Update_StorageCluster c s w = (Inr (), w2) \<Longrightarrow> fst (Get_ClusterVersion c vk w2) = fst (Get_ClusterVersion c vk w)"
    and update_seen_OCSInitialization:
      "Get_OCSInitialization c k w = (Inr i0, w2) \<Longrightarrow> Update_OCSInitialization c (i0\<lparr>oi_EnableCephTools := v\<rparr>) w2 = (Inr (), w3) \<Longrightarrow>
       \<exists>i. fst (Get_OCSInitialization c k w3) = Inr i \<and> oi_EnableCephTools i = v"
    and update_seen_StorageCluster:
      "Get_StorageCluster c k w = (Inr s0, w2) \<Longrightarrow> Update_StorageCluster c (s0\<lparr>sc_EnableCephTools := v\<rparr>) w2 = (Inr (), w3) \<Longrightarrow>
       \<exists>s. fst (Get_StorageCluster c k w3) = Inr s \<and> sc_EnableCephTools s = v"
begin

lemma before_4_15_cong:
  "fst (Get_ClusterVersion c (cluster_name ''version'') w) = fst (Get_ClusterVersion c (cluster_name ''version'') w') \<Longrightarrow>
   before_4_15 c w = before_4_15 c w'"
  by (simp add: before_4_15_def)

lemma set_is_round_trip:
  assumes "rc_Client r = c" and "setEnableCephToolsValue r v s = (Ok (), s')"
  shows "fst (isCephToolsEnabled r s') = Ok v"
proof -
  let ?w1 = "snd (Get_ClusterVersion c (cluster_name ''version'') (world s))"
  obtain old where old: "before_4_15 c (world s) = Some old"
    and post: "if old
     then \<exists>i w2. Get_OCSInitialization c (odf_name ''ocsinit'') ?w1 = (Inr i, w2) \<and>
        Update_OCSInitialization c (i\<lparr>oi_EnableCephTools := v\<rparr>) w2 = (Inr (), world s')
     else \<exists>sc w2. Get_StorageCluster c (odf_name ''ocs-storagecluster'') ?w1 = (Inr sc, w2) \<and>
        Update_StorageCluster c (sc\<lparr>sc_EnableCephTools := v\<rparr>) w2 = (Inr (), world s')"
    using setEnableCephToolsValue_Ok [OF assms(2)] unfolding assms(1) by (auto split: if_splits)
  have "fst (Get_ClusterVersion c (cluster_name ''version'') (world s')) =
        fst (Get_ClusterVersion c (cluster_name ''version'') (world s))"
    using post version_kept [where vk = "cluster_name ''version''"]
    by (metis prod.collapse)
  then have same: "before_4_15 c (world s') = Some old" using old before_4_15_cong by metis
  obtain cv w1 where cv: "Get_ClusterVersion c (cluster_name ''version'') (world s') = (cv, w1)" by fastforce
  have seen: "if old then \<exists>i. fst (Get_OCSInitialization c (odf_name ''ocsinit'') w1) = Inr i \<and> oi_EnableCephTools i = v
      else \<exists>sc. fst (Get_StorageCluster c (odf_name ''ocs-storagecluster'') w1) = Inr sc \<and> sc_EnableCephTools sc = v"
    using post version_read [where w = "world s'" and vk = "cluster_name ''version''"] cv
      update_seen_OCSInitialization update_seen_StorageCluster
    by (auto split: if_splits)
  show ?thesis using isCephToolsEnabled_eval [of r s' old cv w1 v] same cv seen assms(1) by simp
qed

end

section \<open>The in-memory cluster is such a server\<close>

lemma lookup_by_Ok: "lookup_by P sel w = (Inr x, w') \<longleftrightarrow> find P (sel w) = Some x \<and> w' = w"
  by (auto simp: lookup_by_def split: option.splits)

lemma find_replace:
  "find P xs = Some x \<Longrightarrow> P y \<Longrightarrow> find P (map (\<lambda>z. if P z then y else z) xs) = Some y"
  by (induction xs) (auto split: if_splits)

lemma lookup_update:
  assumes "lookup_by P sel w = (Inr x, w2)" and "update_by P y sel upd w2 = (Inr (), w3)"
    and "P y" and "sel (upd (map (\<lambda>z. if P z then y else z) (sel w)) w) = map (\<lambda>z. if P z then y else z) (sel w)"
  shows "fst (lookup_by P sel w3) = Inr y"
proof -
  from assms(1) have found: "find P (sel w) = Some x" and w2: "w2 = w" by (simp_all add: lookup_by_Ok)
  with assms(2) have "w3 = upd (map (\<lambda>z. if P z then y else z) (sel w)) w"
    by (auto simp: update_by_def replace_by_def split: if_splits)
  then show ?thesis using assms(3,4) find_replace [OF found] by (simp add: lookup_by_def)
qed

lemma find_holds: "find P xs = Some x \<Longrightarrow> P x"
  by (induction xs) (auto split: if_splits)

lemma sample_tools_calls:
  "Get_OCSInitialization sample k = lookup_by (\<lambda>x. oi_Name x = nn_Name k \<and> oi_Namespace x = nn_Namespace k) cl_ocsinits"
  "Get_StorageCluster sample k = lookup_by (\<lambda>x. sc_Name x = nn_Name k \<and> sc_Namespace x = nn_Namespace k) cl_storageclusters"
  "Get_ClusterVersion sample k w = (Inr \<lparr>cv_History = cl_history w\<rparr>, w)"
  "Update_OCSInitialization sample i = update_by (\<lambda>y. oi_Name y = oi_Name i \<and> oi_Namespace y = oi_Namespace i) i
     cl_ocsinits (\<lambda>xs w. w\<lparr>cl_ocsinits := xs\<rparr>)"
  "Update_StorageCluster sample s = update_by (\<lambda>y. sc_Name y = sc_Name s \<and> sc_Namespace y = sc_Namespace s) s
     cl_storageclusters (\<lambda>xs w. w\<lparr>cl_storageclusters := xs\<rparr>)"
  by (simp_all add: sample_def)

interpretation sample_tools: tools_server sample
proof (unfold_locales, unfold sample_tools_calls, goal_cases)
  case (8 k w i0 w2 v w3)
  then have "oi_Name i0 = nn_Name k \<and> oi_Namespace i0 = nn_Namespace k"
    using find_holds by (fastforce simp: lookup_by_Ok)
  with 8 lookup_update [OF 8(1), of "i0\<lparr>oi_EnableCephTools := v\<rparr>"] show ?case by simp
next
  case (9 k w s0 w2 v w3)
  then have "sc_Name s0 = nn_Name k \<and> sc_Namespace s0 = nn_Namespace k"
    using find_holds by (fastforce simp: lookup_by_Ok)
  with 9 lookup_update [OF 9(1), of "s0\<lparr>sc_EnableCephTools := v\<rparr>"] show ?case by simp
qed (auto simp: lookup_by_def update_by_def split: option.splits sum.splits)

section \<open>Properties\<close>

text \<open>
  Enabling or disabling the Ceph tools writes exactly one object, and the version of the
  cluster decides which: the \<open>OCSInitialization\<close> before 4.15, the \<open>StorageCluster\<close> from then on.
  The object is written as it was read but for the flag.
\<close>

theorem tools_flag_written_to_one_object:
  assumes "setEnableCephToolsValue r v s = (Ok (), s')"
  defines "w1 \<equiv> snd (Get_ClusterVersion (rc_Client r) (cluster_name ''version'') (world s))"
  shows "\<exists>old. before_4_15 (rc_Client r) (world s) = Some old \<and>
    (if old
     then \<exists>i. fst (Get_OCSInitialization (rc_Client r) (odf_name ''ocsinit'') w1) = Inr i \<and>
        filter is_write (trace s') = filter is_write (trace s) @ [UpdateOCSInitialization (i\<lparr>oi_EnableCephTools := v\<rparr>)]
     else \<exists>sc. fst (Get_StorageCluster (rc_Client r) (odf_name ''ocs-storagecluster'') w1) = Inr sc \<and>
        filter is_write (trace s') = filter is_write (trace s) @ [UpdateStorageCluster (sc\<lparr>sc_EnableCephTools := v\<rparr>)])"
proof -
  from setEnableCephToolsValue_Ok [OF assms(1), folded w1_def] obtain old where
    old: "before_4_15 (rc_Client r) (world s) = Some old" and
    post: "if old
     then \<exists>i w2 w3. Get_OCSInitialization (rc_Client r) (odf_name ''ocsinit'') w1 = (Inr i, w2) \<and>
        Update_OCSInitialization (rc_Client r) (i\<lparr>oi_EnableCephTools := v\<rparr>) w2 = (Inr (), w3) \<and>
        s' = s\<lparr>world := w3, trace := trace s @
          [GetCall KClusterVersion (cluster_name ''version''), GetCall KOCSInitialization (odf_name ''ocsinit''),
           UpdateOCSInitialization (i\<lparr>oi_EnableCephTools := v\<rparr>)]\<rparr>
     else \<exists>sc w2 w3. Get_StorageCluster (rc_Client r) (odf_name ''ocs-storagecluster'') w1 = (Inr sc, w2) \<and>
        Update_StorageCluster (rc_Client r) (sc\<lparr>sc_EnableCephTools := v\<rparr>) w2 = (Inr (), w3) \<and>
        s' = s\<lparr>world := w3, trace := trace s @
          [GetCall KClusterVersion (cluster_name ''version''), GetCall KStorageCluster (odf_name ''ocs-storagecluster''),
           UpdateStorageCluster (sc\<lparr>sc_EnableCephTools := v\<rparr>)]\<rparr>" by (elim exE conjE) (rule that)
  show ?thesis
  proof (cases old)
    case True
    with post obtain i w2 w3 where "Get_OCSInitialization (rc_Client r) (odf_name ''ocsinit'') w1 = (Inr i, w2)"
      "trace s' = trace s @ [GetCall KClusterVersion (cluster_name ''version''),
         GetCall KOCSInitialization (odf_name ''ocsinit''), UpdateOCSInitialization (i\<lparr>oi_EnableCephTools := v\<rparr>)]"
      by force
    with old True show ?thesis by (intro exI [of _ True]) simp
  next
    case False
    with post obtain sc w2 w3 where "Get_StorageCluster (rc_Client r) (odf_name ''ocs-storagecluster'') w1 = (Inr sc, w2)"
      "trace s' = trace s @ [GetCall KClusterVersion (cluster_name ''version''),
         GetCall KStorageCluster (odf_name ''ocs-storagecluster''), UpdateStorageCluster (sc\<lparr>sc_EnableCephTools := v\<rparr>)]"
      by force
    with old False show ?thesis by (intro exI [of _ False]) simp
  qed
qed

theorem tools_flag_written_to_one_object_witness:
  "\<exists>sc. fst (Get_StorageCluster sample (odf_name ''ocs-storagecluster'') (healthy new_recovery)) = Inr sc \<and>
     filter is_write (trace (snd (setEnableCephToolsValue (wired sample) True (at_rest (healthy new_recovery) new_recovery)))) =
       [UpdateStorageCluster (sc\<lparr>sc_EnableCephTools := True\<rparr>)]"
proof -
  let ?s = "at_rest (healthy new_recovery) new_recovery"
  have "fst (setEnableCephToolsValue (wired sample) True ?s) = Ok ()" by code_simp
  note post = tools_flag_written_to_one_object [OF run_fst [of "setEnableCephToolsValue (wired sample) True", OF this]]
  have "before_4_15 sample (healthy new_recovery) = Some False" by code_simp
  moreover have "rc_Client (wired sample) = sample" "world ?s = healthy new_recovery" "trace ?s = []"
    by (simp_all add: wired_def at_rest_def)
  ultimately show ?thesis using post by (auto simp: sample_tools_calls(3))
qed

text \<open>
  C15. Reading the flag gives back what was written: on an API server that answers reads from
  what was last written, \<open>isCephToolsEnabled\<close> returns \<open>v\<close> after \<open>setEnableCephToolsValue v\<close> succeeded,
  at every version of the cluster.
\<close>

theorem tools_flag_round_trip:
  assumes "tools_server (rc_Client r)" and "setEnableCephToolsValue r v s = (Ok (), s')"
  shows "fst (isCephToolsEnabled r s') = Ok v"
  by (rule tools_server.set_is_round_trip [OF assms(1) refl assms(2)])

theorem tools_flag_round_trip_witness:
  "fst (isCephToolsEnabled (wired sample)
     (snd (setEnableCephToolsValue (wired sample) True (at_rest (healthy new_recovery) new_recovery)))) = Ok True \<and>
   fst (isCephToolsEnabled (wired sample)
     (snd (setEnableCephToolsValue (wired sample) True
       (at_rest ((healthy new_recovery)\<lparr>cl_history := [\<lparr>uh_State = ''Completed'', uh_Version = ''4.14.2''\<rparr>]\<rparr>) new_recovery)))) = Ok True"
proof
  have server: "tools_server (rc_Client (wired sample))"
    by (simp add: wired_def sample_tools.tools_server_axioms)
  let ?s = "at_rest (healthy new_recovery) new_recovery"
  have "fst (setEnableCephToolsValue (wired sample) True ?s) = Ok ()" by code_simp
  then show "fst (isCephToolsEnabled (wired sample) (snd (setEnableCephToolsValue (wired sample) True ?s))) = Ok True"
    using tools_flag_round_trip [OF server run_fst [of "setEnableCephToolsValue (wired sample) True"]] by blast
  let ?t = "at_rest ((healthy new_recovery)\<lparr>cl_history := [\<lparr>uh_State = ''Completed'', uh_Version = ''4.14.2''\<rparr>]\<rparr>) new_recovery"
  have "fst (setEnableCephToolsValue (wired sample) True ?t) = Ok ()" by code_simp
  then show "fst (isCephToolsEnabled (wired sample) (snd (setEnableCephToolsValue (wired sample) True ?t))) = Ok True"
    using tools_flag_round_trip [OF server run_fst [of "setEnableCephToolsValue (wired sample) True"]] by blast
qed

text \<open>
  The world in which no old job is left: the API server has not found one, or has deleted the one that it found.
\<close>

definition job_gone :: "('w, 'v) external \<Rightarrow> NamespacedName \<Rightarrow> 'w \<Rightarrow> 'w option" where
  "job_gone c k w =
     (case Get_Job c k w of
        (Inr job, w1) \<Rightarrow> (case Delete_Job c job w1 of (Inr _, w2) \<Rightarrow> Some w2 | (Inl _, _) \<Rightarrow> None)
      | (Inl e, w1) \<Rightarrow> if IsNotFound c e then Some w1 else None)"

text \<open>
  C16. \<open>deleteOldOSDRemovalJob\<close> reads the old job and always asks to delete it if it exists. The pods of the job are then deleted
  at once, with no grace period, exactly when no job is left: the deletion was accepted, or the API server
  had reported the job as not found, which is not an error. The operation succeeds exactly when no job is left and the
  deletion of the pods was accepted; any other error of the read is returned, and nothing is written.
\<close>

theorem old_removal_job_deleted:
  defines "k \<equiv> odf_name ''ocs-osd-removal-job''"
  defines "l \<equiv> odf_list (match_labels [(''job-name'', ''ocs-osd-removal-job'')])"
  assumes "LabelSelectorAsSelector (rc_Client r) (match_labels [(''job-name'', ''ocs-osd-removal-job'')]) = None"
    and "deleteOldOSDRemovalJob r s = (out, s')"
  shows "trace s' = trace s @ [GetCall KJob k] @
      (case fst (Get_Job (rc_Client r) k (world s)) of Inr job \<Rightarrow> [DeleteJob job] | Inl _ \<Rightarrow> []) @
      (if job_gone (rc_Client r) k (world s) = None then [] else [DeleteAllOfPods l (Some 0)]) \<and>
    (out = Ok () \<longleftrightarrow> (\<exists>w. job_gone (rc_Client r) k (world s) = Some w \<and> fst (DeleteAllOf_Pod (rc_Client r) l (Some 0) w) = Inr ())) \<and>
    (\<forall>e. fst (Get_Job (rc_Client r) k (world s)) = Inl e \<longrightarrow> \<not> IsNotFound (rc_Client r) e \<longrightarrow> out = Err e)"
  using assms(3,4)
  by (auto simp: deleteOldOSDRemovalJob_def Let_def k_def l_def job_gone_def asSelector_def deleteAllOfPods_def
      run_simps split: prod.splits sum.splits if_splits)

text \<open>A cluster without an old job, and one with an old job.\<close>

definition old_job :: Job where
  "old_job = \<lparr>job_Name = ''ocs-osd-removal-job'', job_Namespace = ''openshift-storage''\<rparr>"

theorem old_removal_job_deleted_witness:
  "fst (deleteOldOSDRemovalJob (wired sample) (at_rest (healthy new_recovery) new_recovery)) = Ok () \<and>
   trace (snd (deleteOldOSDRemovalJob (wired sample) (at_rest ((healthy new_recovery)\<lparr>cl_jobs := [old_job]\<rparr>) new_recovery))) =
     [GetCall KJob (odf_name ''ocs-osd-removal-job''), DeleteJob old_job,
      DeleteAllOfPods (odf_list (match_labels [(''job-name'', ''ocs-osd-removal-job'')])) (Some 0)]"
proof
  let ?s = "at_rest (healthy new_recovery) new_recovery"
  let ?t = "at_rest ((healthy new_recovery)\<lparr>cl_jobs := [old_job]\<rparr>) new_recovery"
  have sel: "LabelSelectorAsSelector (rc_Client (wired sample)) (match_labels [(''job-name'', ''ocs-osd-removal-job'')]) = None"
    by (simp add: sample_def match_labels_def)
  note job = old_removal_job_deleted [where r = "wired sample", OF sel surjective_pairing]
  show "fst (deleteOldOSDRemovalJob (wired sample) ?s) = Ok ()"
    using job [of ?s]
    by (simp add: at_rest_def healthy_def sample_def lookup_by_def not_found_def job_gone_def)
  show "trace (snd (deleteOldOSDRemovalJob (wired sample) ?t)) =
     [GetCall KJob (odf_name ''ocs-osd-removal-job''), DeleteJob old_job,
      DeleteAllOfPods (odf_list (match_labels [(''job-name'', ''ocs-osd-removal-job'')])) (Some 0)]"
    using job [of ?t]
    by (simp add: at_rest_def healthy_def sample_def lookup_by_def old_job_def odf_name_def ODF_NAMESPACE_def job_gone_def)
qed

text \<open>
  Scaling down the deployments of an OSD writes exactly the deployments that the API server
  listed for its id, in that order, with zero replicas and no other change; when it returns an
  error it has written a prefix of them.
\<close>

theorem scale_to_zero_all_listed:
  assumes "scaleRookCephOSDDeploymentToZero r osdID s = (out, s')"
  defines "c \<equiv> rc_Client r"
  defines "l \<equiv> odf_list (match_labels [(''app'', ''rook-ceph-osd''), (OsdIdLabelKey c, osdID)])"
  shows "\<exists>ds n. n \<le> length ds \<and>
     filter is_write (trace s') = filter is_write (trace s) @
       map (\<lambda>d. UpdateDeployment (d\<lparr>dep_Replicas := Some 0\<rparr>)) (take n ds) \<and>
     (out = Ok () \<longrightarrow> n = length ds \<and> fst (List_Deployment c l (world s)) = Inr ds)"
proof (cases "LabelSelectorAsSelector c (match_labels [(''app'', ''rook-ceph-osd''), (OsdIdLabelKey c, osdID)])")
  case (Some e)
  then show ?thesis
    using assms(1) by (auto simp: scaleRookCephOSDDeploymentToZero_def Let_def c_def asSelector_def run_throw)
next
  case None
  obtain got w where got: "List_Deployment c l (world s) = (got, w)" by fastforce
  let ?s1 = "s\<lparr>world := w, trace := trace s @ [ListCall KDeployment l]\<rparr>"
  let ?upd = "\<lambda>d. d\<lparr>dep_Replicas := Some 0\<rparr>"
  have call: "call (ListCall KDeployment l) (List_Deployment c l) s =
      (case got of Inl e \<Rightarrow> Err e | Inr ds \<Rightarrow> Ok ds, ?s1)"
    using got by (cases got) (simp_all add: call_def)
  have run: "scaleRookCephOSDDeploymentToZero r osdID =
      bind (call (ListCall KDeployment l) (List_Deployment c l))
        (forM (\<lambda>d. call (UpdateDeployment (?upd d)) (Update_Deployment c (?upd d))))"
    using None by (simp add: scaleRookCephOSDDeploymentToZero_def Let_def asSelector_def c_def l_def)
  show ?thesis
  proof (cases got)
    case (Inl e)
    then show ?thesis using assms(1) call run by (auto simp: bind_def intro!: exI [of _ "[]"])
  next
    case (Inr ds)
    from forM_call_trace [of ds "\<lambda>d. UpdateDeployment (?upd d)" "\<lambda>d. Update_Deployment c (?upd d)" ?s1]
    show ?thesis using assms(1) call run Inr got by (force simp: bind_def)
  qed
qed

theorem scale_to_zero_all_listed_witness:
  "filter is_write (trace (snd (scaleRookCephOSDDeploymentToZero (wired sample) ''2''
     (at_rest (disk_failed new_recovery) new_recovery)))) = [UpdateDeployment (osd_deployment\<lparr>dep_Replicas := Some 0\<rparr>)]"
proof -
  let ?s = "at_rest (disk_failed new_recovery) new_recovery"
  let ?l = "odf_list (match_labels [(''app'', ''rook-ceph-osd''), (OsdIdLabelKey sample, ''2'')])"
  have "fst (scaleRookCephOSDDeploymentToZero (wired sample) ''2'' ?s) = Ok ()" by code_simp
  note post = scale_to_zero_all_listed [OF run_fst [of "scaleRookCephOSDDeploymentToZero (wired sample) ''2''", OF this]]
  have "fst (List_Deployment sample ?l (world ?s)) = Inr [osd_deployment]"
    by (simp add: sample_def at_rest_def disk_failed_def selected_def has_labels_def odf_list_def in_namespace_def
        match_labels_def osd_deployment_def ODF_NAMESPACE_def)
  moreover have "rc_Client (wired sample) = sample" "trace ?s = []" by (simp_all add: wired_def at_rest_def)
  ultimately show ?thesis using post by auto
qed

end
