(* ===== verification/Recovery_Ops.thy ===== *)
theory Recovery_Ops
  imports Ceph
begin

text \<open>
  The methods the reconciler's steps call, \<open>src/internal/controller/node_recovery_reconciler.go\<close>
  from line 423 on: which pods are failing, which nodes to label, which volumes to delete,
  the OSD removal template and its job. A loop over a Go map takes its order from
  \<open>map_range\<close>, because the language leaves it open.
\<close>

section \<open>Pods\<close>

definition listOperationalOSDIDsFromPods :: "Pod list \<Rightarrow> string list" where
  "listOperationalOSDIDsFromPods osdPods = map (\<lambda>p. map_get (pod_Labels p) ''osd'') osdPods"

definition all_statuses :: "Pod \<Rightarrow> ContainerStatus list" where
  "all_statuses p = pod_InitContainerStatuses p @ pod_ContainerStatuses p"

definition waiting_error :: "Pod \<Rightarrow> ContainerStatus \<Rightarrow> ContainerStateWaiting \<Rightarrow> go_error" where
  "waiting_error p s w =
     ErrorString (''pod '' @ pod_Name p @ '': container '' @ cs_Name s @ '' waiting in '' @
       waiting_Reason w @ '': '' @ waiting_Message w)"

primrec check_statuses ::
  "('w, 'v) external \<Rightarrow> Pod \<Rightarrow> go_error option \<Rightarrow> ContainerStatus list \<Rightarrow> go_error option" where
  "check_statuses c p podErrors [] = podErrors"
| "check_statuses c p podErrors (s # ss) =
     (case cs_Waiting s of
        None \<Rightarrow> check_statuses c p podErrors ss
      | Some w \<Rightarrow>
          (if waiting_Reason w = podStateReasonCrashLoopBackOff then None
           else if waiting_Reason w = ContainerCreating c \<or> waiting_Reason w = PodInitializing c
           then check_statuses c p (errors_Join [podErrors, Some (waiting_error p s w)]) ss
           else check_statuses c p podErrors ss))"

definition checkPodStatus :: "('w, 'v) external \<Rightarrow> Pod \<Rightarrow> go_error option" where
  "checkPodStatus c p = check_statuses c p None (all_statuses p)"

definition hasPodsInCreatingOrInitializingState ::
  "('w, 'v) Recoverer \<Rightarrow> ('w, go_error option) go" where
  "hasPodsInCreatingOrInitializingState r =
     (let c = rc_Client r in
      bind (listPods c (in_namespace ODF_NAMESPACE)) (\<lambda>pods.
      ret (fold (\<lambda>pod errs. errors_Join [errs, checkPodStatus c pod]) pods None)))"

definition getPodsInPendingPhase :: "('w, 'v) Recoverer \<Rightarrow> ('w, Pod list) go" where
  "getPodsInPendingPhase r =
     listPods (rc_Client r)
       ((in_namespace ODF_NAMESPACE)
          \<lparr>lo_MatchingFields := [(podStatusPhaseFieldSelector, PodPending)],
           lo_MatchingLabels := [(''app'', ''rook-ceph-osd'')]\<rparr>)"

definition getPodsInFailedPhaseWithReasonNodeAffinity :: "('w, 'v) Recoverer \<Rightarrow> ('w, Pod list) go" where
  "getPodsInFailedPhaseWithReasonNodeAffinity r =
     (let c = rc_Client r in
      bind (listPods c
              ((in_namespace ODF_NAMESPACE)\<lparr>lo_MatchingFields := [(podStatusPhaseFieldSelector, PodFailed)]\<rparr>)) (\<lambda>pods.
      ret (filter (\<lambda>pod. pod_Reason pod = ReasonNodeAffinity c) pods)))"

text \<open>\<open>errs\<close> as the final value of a function of type \<open>error\<close>.\<close>

definition return_errs :: "go_error option \<Rightarrow> ('w, unit) go" where
  "return_errs errs = liftErr errs"

definition sum_err :: "go_error + 'a \<Rightarrow> go_error option" where
  "sum_err r = (case r of Inl e \<Rightarrow> Some e | Inr _ \<Rightarrow> None)"

definition deleteFailedPodsWithReasonNodeAffinity :: "('w, 'v) Recoverer \<Rightarrow> ('w, unit) go" where
  "deleteFailedPodsWithReasonNodeAffinity r =
     (let c = rc_Client r in
      bind (getPodsInFailedPhaseWithReasonNodeAffinity r) (\<lambda>failedPods.
      bind (foldM (\<lambda>errs pod.
              bind (attempt (call (DeletePod pod) (Delete_Pod c pod))) (\<lambda>res.
              ret (case res of Inl e \<Rightarrow> errors_Join [errs, Some e] | Inr _ \<Rightarrow> errs)))
            None failedPods)
        return_errs))"

definition isPodInCrashBackLoopOffOrErrorStatus :: "ContainerStatus list \<Rightarrow> bool" where
  "isPodInCrashBackLoopOffOrErrorStatus statuses =
     list_ex (\<lambda>s. (case cs_Waiting s of None \<Rightarrow> False
                   | Some w \<Rightarrow> waiting_Reason w = podStateReasonCrashLoopBackOff) \<or>
                  (case cs_Terminated s of None \<Rightarrow> False
                   | Some t \<Rightarrow> terminated_Reason t = podStateReasonError)) statuses"

definition pod_failing :: "Pod \<Rightarrow> bool" where
  "pod_failing p = isPodInCrashBackLoopOffOrErrorStatus (all_statuses p)"

definition getOSDPodsInOperationalAndFailingStatus ::
  "('w, 'v) Recoverer \<Rightarrow> ('w, Pod list \<times> Pod list) go" where
  "getOSDPodsInOperationalAndFailingStatus r =
     bind (getOSDPods r) (\<lambda>items.
     ret (fold (\<lambda>pod (operational, failing).
                 if pod_failing pod then (operational, failing @ [pod]) else (operational @ [pod], failing))
           items ([], [])))"

section \<open>Nodes\<close>

definition add_label :: "string \<Rightarrow> Node \<Rightarrow> Node" where
  "add_label k n =
     (let m = (case node_Labels n of None \<Rightarrow> Map.empty | Some m \<Rightarrow> m)
      in n\<lparr>node_Labels := Some (m(k \<mapsto> []))\<rparr>)"

definition label_node :: "('w, 'v) external \<Rightarrow> string \<Rightarrow> go_error option \<Rightarrow> ('w, go_error option) go" where
  "label_node c nodeName errs =
     bind (attempt (call (GetCall KNode (cluster_name nodeName)) (Get_Node c (cluster_name nodeName)))) (\<lambda>got.
     case got of
       Inl e \<Rightarrow> ret (errors_Join [errs, Some e])
     | Inr n \<Rightarrow>
         (let n' = add_label (NodeAffinityKey c) n in
          bind (attempt (call (UpdateNode n') (Update_Node c n'))) (\<lambda>res.
          ret (case res of Inl e \<Rightarrow> errors_Join [errs, Some e] | Inr _ \<Rightarrow> errs))))"

definition pending_nodes :: "('w, 'v) external \<Rightarrow> Pod list \<Rightarrow> string list" where
  "pending_nodes c pods = remdups (map (\<lambda>p. map_get (pod_NodeSelector p) (LabelHostname c)) pods)"

definition labelNodesWithPodsInPendingState :: "('w, 'v) Recoverer \<Rightarrow> Pod list \<Rightarrow> ('w, unit) go" where
  "labelNodesWithPodsInPendingState r pods =
     (let c = rc_Client r in
      bind (map_range c (pending_nodes c pods)) (\<lambda>nodes.
      bind (foldM (\<lambda>errs nodeName. label_node c nodeName errs) None nodes) return_errs))"

section \<open>Devices and volumes\<close>

definition getNodeDeviceNameFromPV :: "('w, 'v) Recoverer \<Rightarrow> Pod \<Rightarrow> ('w, NodePV option) go" where
  "getNodeDeviceNameFromPV r pod =
     (let c = rc_Client r in
      case pod_Labels pod (OSDOverPVCLabelKey c) of
        Some pvcName \<Rightarrow>
          (let pk = \<lparr>nn_Namespace = pod_Namespace pod, nn_Name = pvcName\<rparr> in
           bind (call (GetCall KPersistentVolumeClaim pk) (Get_PersistentVolumeClaim c pk)) (\<lambda>pvc.
           let vk = cluster_name (pvc_VolumeName pvc) in
           bind (call (GetCall KPersistentVolume vk) (Get_PersistentVolume c vk)) (\<lambda>pv.
           ret (Some \<lparr>nd_NodeName = map_get (pv_Labels pv) (LabelHostname c),
                      nd_PersistentVolumeName = pv_Name pv,
                      nd_FailingOSDID = map_get (pod_Labels pod) ''osd''\<rparr>))))
      | None \<Rightarrow> ret None)"

text \<open>The body of the loop of \<open>handleCrashLoopBackOffPods\<close>, then the function.\<close>

definition handle_crash_pod ::
  "('w, 'v) Recoverer \<Rightarrow> NodePV option list \<Rightarrow> Pod \<Rightarrow> ('w, NodePV option list) go" where
  "handle_crash_pod r nodePV p =
     bind (getNodeDeviceNameFromPV r p) (\<lambda>nodeDevice.
     bind (deref nodeDevice) (\<lambda>nd.
     bind (scaleRookCephOSDDeploymentToZero r (nd_FailingOSDID nd)) (\<lambda>_.
     ret (nodePV @ [nodeDevice]))))"

definition handleCrashLoopBackOffPods ::
  "('w, 'v) Recoverer \<Rightarrow> Pod list \<Rightarrow> ('w, NodePV option list \<times> Result) go" where
  "handleCrashLoopBackOffPods r osdPods =
     bind (foldM (handle_crash_pod r) [] osdPods) (\<lambda>nodePV.
     ret (nodePV, requeue_after (15 * Second)))"

definition getOSDIDsFromNodeDevices :: "NodePV option list \<Rightarrow> ('w, string list) go" where
  "getOSDIDsFromNodeDevices nodeDevice =
     foldM (\<lambda>r p. bind (deref p) (\<lambda>nd. ret (r @ [nd_FailingOSDID nd]))) [] nodeDevice"

definition getPVsForNode :: "('w, 'v) Recoverer \<Rightarrow> string \<Rightarrow> ('w, PersistentVolume list) go" where
  "getPVsForNode r nodeName =
     (let c = rc_Client r in
      bind (asSelector c (match_labels [(''kubernetes.io/hostname'', nodeName)])) (\<lambda>selector.
      let l = (in_namespace [])\<lparr>lo_LabelSelector := Some selector\<rparr> in
      call (ListCall KPersistentVolume l) (List_PersistentVolume c l)))"

definition processPVForNode ::
  "('w, 'v) Recoverer \<Rightarrow> NodePV \<Rightarrow> PersistentVolume list \<Rightarrow> ('w, go_error option) go" where
  "processPVForNode r nd pvs =
     (let c = rc_Client r;
          errs0 = (if length pvs = 0
                   then errors_Join [None, Some (ErrorString (''no PV found for host '' @ nd_NodeName nd))]
                   else None) in
      foldM (\<lambda>errs pv.
        if pv_Name pv = nd_PersistentVolumeName nd \<and> pv_Phase pv = VolumeReleased then
          (let errs1 = errors_Join [errs, Some (ErrorString (''volume '' @ pv_Name pv @ '' in node '' @
                 nd_NodeName nd @ '' is released and about to be deleted''))] in
           bind (attempt (call (DeletePersistentVolume pv) (Delete_PersistentVolume c pv))) (\<lambda>res.
           ret (errors_Join [errs1, sum_err res])))
        else ret errs) errs0 pvs)"

definition osd_over_pvc_in :: "('w, 'v) external \<Rightarrow> string list \<Rightarrow> LabelSelector" where
  "osd_over_pvc_in c n =
     \<lparr>MatchLabels = [(''app'', ''rook-ceph-osd'')],
      MatchExpressions = [\<lparr>req_Key = OSDOverPVCLabelKey c, req_Operator = OpIn, req_Values = n\<rparr>]\<rparr>"

definition bound_osd_pvcs :: ListOptions where
  "bound_osd_pvcs =
     (in_namespace ODF_NAMESPACE)
       \<lparr>lo_MatchingLabels := [(''ceph.rook.io/cephImageAtCreation'', [])],
        lo_MatchingFields := [(pvcStatusPhaseFieldSelector, ClaimBound)]\<rparr>"

definition countPVCsBoundToODSPods :: "('w, 'v) Recoverer \<Rightarrow> ('w, nat) go" where
  "countPVCsBoundToODSPods r =
     (let c = rc_Client r in
      bind (call (ListCall KPersistentVolumeClaim bound_osd_pvcs)
             (List_PersistentVolumeClaim c bound_osd_pvcs)) (\<lambda>items.
      let n = map pvc_Name items in
      bind (asSelector c (osd_over_pvc_in c n)) (\<lambda>ls.
      bind (listPods c (odf_list ls)) (\<lambda>pl.
      ret (length pl)))))"

section \<open>The OSD removal job\<close>

definition set_parameter :: "nat \<Rightarrow> string \<Rightarrow> Template \<Rightarrow> Template" where
  "set_parameter i v t =
     t\<lparr>tpl_Parameters := (tpl_Parameters t)[i := (tpl_Parameters t ! i)\<lparr>par_Value := v\<rparr>]\<rparr>"

definition create_template_object :: "('w, 'v) external \<Rightarrow> RawExtension \<Rightarrow> ('w, unit) go" where
  "create_template_object c obj =
     bind (case raw_Object obj of
             Some ob \<Rightarrow> ret ob
           | None \<Rightarrow> liftSum (Decode c (raw_Raw obj))) (\<lambda>objToCreate.
     if \<not> obj_IsClientObject objToCreate
     then throw (ErrorString (''failed to cast as client.Object: '' @ fmt_object c objToCreate))
     else
       (let cobj = objToCreate\<lparr>obj_Namespace := ODF_NAMESPACE\<rparr> in
        call (CreateObject cobj) (Create_Object c cobj)))"

definition processTemplate :: "('w, 'v) external \<Rightarrow> Template \<Rightarrow> ('w, string list \<times> Template) go" where
  "processTemplate c t s = (case ProcessTemplate c t (world s) of (r, w) \<Rightarrow> (Ok r, s\<lparr>world := w\<rparr>))"

definition processOCSOSDRemovalTemplate ::
  "('w, 'v) Recoverer \<Rightarrow> string list \<Rightarrow> bool \<Rightarrow> ('w, unit) go" where
  "processOCSOSDRemovalTemplate r ids forceOSDRemovalParam =
     (let c = rc_Client r; k = odf_name OCS_OSD_REMOVAL_JOB in
      bind (call (GetCall KTemplate k) (Get_Template c k)) (\<lambda>t.
      bind (deref (GetParameterByName c t FAILED_OSD_IDS)) (\<lambda>i.
      let t1 = set_parameter i (strings_Join ids '','') t in
      bind (deref (GetParameterByName c t1 FORCE_OSD_REMOVAL)) (\<lambda>j.
      let t2 = set_parameter j (FormatBool forceOSDRemovalParam) t1 in
      bind (time_Now c) (\<lambda>_.
      bind (processTemplate c t2) (\<lambda>(errs, t3).
      if 0 < length errs then throw (NewInvalid c ''Template'' (tpl_Name t3) errs)
      else forM (create_template_object c) (tpl_Objects t3)))))))"

definition listPodsWithSelectors ::
  "('w, 'v) Recoverer \<Rightarrow> (string \<times> string) list \<Rightarrow> ('w, Pod list) go" where
  "listPodsWithSelectors r selectors =
     (let c = rc_Client r in
      bind (map_range c (map fst selectors)) (\<lambda>ks.
      let s = map (\<lambda>k. \<lparr>req_Key = k, req_Operator = OpIn,
                        req_Values = [map_get (map_of selectors) k]\<rparr>) ks in
      bind (asSelector c \<lparr>MatchLabels = [], MatchExpressions = s\<rparr>) (\<lambda>l.
      onErr (listPods c (odf_list l))
        (\<lambda>err. throw (ErrorString (''failed to retrieve the list of pods that match the selected criteria '' @
                 fmt_map selectors @ '': '' @ Error err))))))"

definition getOSDRemovalPodJobCompletionStatus :: "('w, 'v) Recoverer \<Rightarrow> ('w, Pod) go" where
  "getOSDRemovalPodJobCompletionStatus r =
     bind (listPodsWithSelectors r [(''job-name'', ''ocs-osd-removal-job'')]) (\<lambda>pods.
     case find (\<lambda>p. IsZero (pod_DeletionTimestamp p)) pods of
       Some p \<Rightarrow> ret p
     | None \<Rightarrow> throw (ErrorString (''failed to retrieve the status of the ODF removal job pod in '' @
         ODF_NAMESPACE @ '': no pod found or all pod instances are being deleted'')))"

definition deleteRookCephOperatorPod :: "('w, 'v) Recoverer \<Rightarrow> ('w, unit) go" where
  "deleteRookCephOperatorPod r =
     (let c = rc_Client r;
          sel = \<lparr>MatchLabels = [],
                 MatchExpressions = [\<lparr>req_Key = ''app'', req_Operator = OpIn,
                                      req_Values = [''rook-ceph-operator'']\<rparr>]\<rparr> in
      bind (asSelector c sel) (\<lambda>selector. deleteAllOfPods c (odf_list selector) None))"

text \<open>The verdict on the log of a completed job: its last line, blank lines at the end apart.\<close>

definition job_log_last_line :: "string \<Rightarrow> string" where
  "job_log_last_line logs = last (strings_Split (strings_TrimSpace logs) (CHR 0x0A))"

definition validateJobLogs :: "('w, 'v) Recoverer \<Rightarrow> string \<Rightarrow> ('w, unit) go" where
  "validateJobLogs r podName =
     bind (rc_logRetriever r podName) (\<lambda>logs.
     let l = job_log_last_line logs in
     if \<not> strings_Contains (strings_ToLower l) osdJobSuccessMessage
     then throw (ErrorString (''osd job removal completed with failure: '' @ l))
     else ret ())"

section \<open>Footprints\<close>

text \<open>
  Each operation leaves the object in memory alone; the hypotheses name the requests it may
  make. \<open>reads P\<close> admits every read that the cache can answer.
\<close>

definition reads :: "(effect \<Rightarrow> bool) \<Rightarrow> bool" where
  "reads P \<longleftrightarrow> (\<forall>k n. P (GetCall k n)) \<and> (\<forall>k l. list_indexed k l \<longrightarrow> P (ListCall k l))"

lemma readsD [dest]: "reads P \<Longrightarrow> P (GetCall k n)" "reads P \<Longrightarrow> list_indexed k l \<Longrightarrow> P (ListCall k l)"
  by (simp_all add: reads_def)

lemmas list_indexed_simps = list_indexed_def field_indexes_def in_namespace_def odf_list_def bound_osd_pvcs_def

lemma footprint_hasPods:
  "reads P \<Longrightarrow> footprint P (hasPodsInCreatingOrInitializingState r)"
  unfolding hasPodsInCreatingOrInitializingState_def Let_def by (intro ceph_base) (auto simp: reads_def list_indexed_simps)

lemma footprint_getPodsInPendingPhase: "reads P \<Longrightarrow> footprint P (getPodsInPendingPhase r)"
  unfolding getPodsInPendingPhase_def by (intro ceph_base) (auto simp: reads_def list_indexed_simps)

lemma footprint_getPodsInFailedPhase:
  "reads P \<Longrightarrow> footprint P (getPodsInFailedPhaseWithReasonNodeAffinity r)"
  unfolding getPodsInFailedPhaseWithReasonNodeAffinity_def Let_def by (intro ceph_base) (auto simp: reads_def list_indexed_simps)

lemma footprint_return_errs: "footprint P (return_errs errs)"
  unfolding return_errs_def by (intro ceph_base)

lemma footprint_deleteFailedPods:
  "reads P \<Longrightarrow> (\<And>p. P (DeletePod p)) \<Longrightarrow> footprint P (deleteFailedPodsWithReasonNodeAffinity r)"
  unfolding deleteFailedPodsWithReasonNodeAffinity_def Let_def
  by (intro ceph_base footprint_getPodsInFailedPhase footprint_return_errs)

lemma footprint_getOSDPodsInOperational:
  "reads P \<Longrightarrow> footprint P (getOSDPodsInOperationalAndFailingStatus r)"
  unfolding getOSDPodsInOperationalAndFailingStatus_def
  by (intro ceph_base footprint_getOSDPods) auto

lemma footprint_label_node:
  "reads P \<Longrightarrow> (\<And>n. P (UpdateNode n)) \<Longrightarrow> footprint P (label_node c n errs)"
  unfolding label_node_def Let_def by (intro ceph_base) (auto simp: reads_def list_indexed_simps)

lemma footprint_labelNodes:
  "reads P \<Longrightarrow> (\<And>n. P (UpdateNode n)) \<Longrightarrow> footprint P (labelNodesWithPodsInPendingState r pods)"
  unfolding labelNodesWithPodsInPendingState_def Let_def
  by (intro ceph_base footprint_label_node footprint_return_errs)

lemma footprint_getNodeDeviceNameFromPV:
  "reads P \<Longrightarrow> footprint P (getNodeDeviceNameFromPV r pod)"
  unfolding getNodeDeviceNameFromPV_def Let_def by (intro ceph_base) (auto simp: reads_def list_indexed_simps)

lemma footprint_handleCrashLoopBackOffPods:
  "reads P \<Longrightarrow> (\<And>d. dep_Replicas d = Some 0 \<Longrightarrow> P (UpdateDeployment d)) \<Longrightarrow>
   footprint P (handleCrashLoopBackOffPods r pods)"
  unfolding handleCrashLoopBackOffPods_def handle_crash_pod_def
  by (intro ceph_base footprint_getNodeDeviceNameFromPV footprint_scaleRookCephOSDDeploymentToZero) auto

lemma footprint_getOSDIDsFromNodeDevices: "footprint P (getOSDIDsFromNodeDevices nds)"
  unfolding getOSDIDsFromNodeDevices_def by (intro ceph_base)

lemma footprint_getPVsForNode: "reads P \<Longrightarrow> footprint P (getPVsForNode r n)"
  unfolding getPVsForNode_def Let_def by (intro ceph_base) (auto simp: reads_def list_indexed_simps)

lemma footprint_processPVForNode:
  "(\<And>pv. P (DeletePersistentVolume pv)) \<Longrightarrow> footprint P (processPVForNode r nd pvs)"
  unfolding processPVForNode_def Let_def by (intro ceph_base)

lemma footprint_countPVCs: "reads P \<Longrightarrow> footprint P (countPVCsBoundToODSPods r)"
  unfolding countPVCsBoundToODSPods_def Let_def by (intro ceph_base) (auto simp: reads_def list_indexed_simps)

lemma footprint_create_template_object:
  "(\<And>ob. obj_Namespace ob = ODF_NAMESPACE \<Longrightarrow> P (CreateObject ob)) \<Longrightarrow>
   footprint P (create_template_object c obj)"
  unfolding create_template_object_def Let_def by (intro ceph_base) simp_all

lemma footprint_processTemplate: "footprint P (processTemplate c t)"
  by (auto simp: upholds_def processTemplate_def grows_frame_def grows_def split: prod.splits)

lemma footprint_processOCSOSDRemovalTemplate:
  assumes "reads P" and "\<And>ob. obj_Namespace ob = ODF_NAMESPACE \<Longrightarrow> P (CreateObject ob)"
  shows "footprint P (processOCSOSDRemovalTemplate r ids f)"
  unfolding processOCSOSDRemovalTemplate_def Let_def
  by (intro ceph_base footprint_processTemplate footprint_create_template_object assms) (use assms in auto)

lemma footprint_listPodsWithSelectors: "reads P \<Longrightarrow> footprint P (listPodsWithSelectors r sel)"
  unfolding listPodsWithSelectors_def Let_def by (intro ceph_base) (auto simp: reads_def list_indexed_simps)

lemma footprint_getOSDRemovalPod:
  "reads P \<Longrightarrow> footprint P (getOSDRemovalPodJobCompletionStatus r)"
  unfolding getOSDRemovalPodJobCompletionStatus_def
  by (intro ceph_base footprint_listPodsWithSelectors)

lemma footprint_deleteRookCephOperatorPod:
  "P (DeleteAllOfPods (odf_list \<lparr>MatchLabels = [], MatchExpressions =
      [\<lparr>req_Key = ''app'', req_Operator = OpIn, req_Values = [''rook-ceph-operator'']\<rparr>]\<rparr>) None) \<Longrightarrow>
   footprint P (deleteRookCephOperatorPod r)"
  by (auto simp: deleteRookCephOperatorPod_def Let_def asSelector_def bind_assoc intro!: ceph_base)

context recoverer_env
begin

lemma footprint_validateJobLogs:
  "(\<And>n p. P (LogsCall n p)) \<Longrightarrow> footprint P (validateJobLogs r podName)"
  unfolding validateJobLogs_def Let_def by (intro ceph_base footprint_logRetriever)

end

end
