(* ===== verification/Recovery_Ops_Properties.thy ===== *)
theory Recovery_Ops_Properties
  imports Recovery_Ops Ceph_Properties
begin

text \<open>
  What the methods called by the recovery's steps achieve: when pods count as settled, how OSD
  pods are divided, that loops which collect errors visit every element, which volumes are
  deleted, what the removal template is given, and when a job's log is accepted.
\<close>

section \<open>Pods that still initialise\<close>

definition waits_for :: "string list \<Rightarrow> ContainerStatus \<Rightarrow> bool" where
  "waits_for reasons s \<longleftrightarrow>
     (case cs_Waiting s of None \<Rightarrow> False | Some w \<Rightarrow> waiting_Reason w \<in> set reasons)"

definition settled :: "('w, 'v) external \<Rightarrow> Pod \<Rightarrow> bool" where
  "settled c p \<longleftrightarrow>
     list_ex (waits_for [podStateReasonCrashLoopBackOff]) (all_statuses p) \<or>
     \<not> list_ex (waits_for [ContainerCreating c, PodInitializing c]) (all_statuses p)"

lemma check_statuses_None:
  "check_statuses c p errs ss = None \<longleftrightarrow>
     list_ex (waits_for [podStateReasonCrashLoopBackOff]) ss \<or>
     errs = None \<and> \<not> list_ex (waits_for [ContainerCreating c, PodInitializing c]) ss"
  by (induction ss arbitrary: errs) (auto simp: waits_for_def split: option.split)

lemma checkPodStatus_None: "checkPodStatus c p = None \<longleftrightarrow> settled c p"
  by (simp add: checkPodStatus_def check_statuses_None settled_def)

lemma fold_errors_None:
  "fold (\<lambda>x errs. errors_Join [errs, f x]) xs errs = None \<longleftrightarrow> errs = None \<and> (\<forall>x\<in>set xs. f x = None)"
  by (induction xs arbitrary: errs) auto

text \<open>
  C17. The wait for the pods of the namespace ends exactly when every listed pod is settled: a
  pod is settled when one of its containers crashes in a loop, whatever the others do, or when
  none of its containers, init containers included, is still being created or initialised.
\<close>

theorem stabilised_iff_all_settled:
  assumes "hasPodsInCreatingOrInitializingState r s = (Ok errs, s')"
  shows "\<exists>pods. fst (List_Pod (rc_Client r) (in_namespace ODF_NAMESPACE) (world s)) = Inr pods \<and>
     (errs = None \<longleftrightarrow> (\<forall>p\<in>set pods. settled (rc_Client r) p))"
  using assms
  by (auto simp: hasPodsInCreatingOrInitializingState_def Let_def bind_eq_Ok listPods_def call_Ok run_ret
      fold_errors_None checkPodStatus_None)

theorem stabilised_iff_all_settled_witness:
  "settled sample (osd_pod ''2'' [crashing]) \<and>
   fst (hasPodsInCreatingOrInitializingState (wired sample) (at_rest (disk_failed new_recovery) new_recovery)) = Ok None"
proof -
  let ?s = "at_rest (disk_failed new_recovery) new_recovery"
  have run: "fst (hasPodsInCreatingOrInitializingState (wired sample) ?s) = Ok None" by code_simp
  from stabilised_iff_all_settled [OF run_fst [of "hasPodsInCreatingOrInitializingState (wired sample)", OF run]]
  have "\<forall>p\<in>set (filter (pod_selected (in_namespace ODF_NAMESPACE)) (cl_pods (disk_failed new_recovery))). settled sample p"
    by (simp add: wired_def at_rest_def sample_def)
  moreover have "pod_selected (in_namespace ODF_NAMESPACE) (osd_pod ''2'' [crashing])" by code_simp
  ultimately show ?thesis using run by (simp add: disk_failed_def)
qed

section \<open>Operational and failing pods\<close>

lemma fold_partition:
  "fold (\<lambda>x (as, bs). if P x then (as, bs @ [x]) else (as @ [x], bs)) xs (as, bs) =
     (as @ filter (\<lambda>x. \<not> P x) xs, bs @ filter P xs)"
  by (induction xs arbitrary: as bs) auto

definition container_failed :: "ContainerStatus \<Rightarrow> bool" where
  "container_failed s \<longleftrightarrow>
     waits_for [podStateReasonCrashLoopBackOff] s \<or>
     (\<exists>t. cs_Terminated s = Some t \<and> terminated_Reason t = podStateReasonError)"

lemma pod_failing_iff: "pod_failing p \<longleftrightarrow> (\<exists>s\<in>set (all_statuses p). container_failed s)"
proof -
  have "((case cs_Waiting s of None \<Rightarrow> False | Some w \<Rightarrow> waiting_Reason w = podStateReasonCrashLoopBackOff) \<or>
      (case cs_Terminated s of None \<Rightarrow> False | Some t \<Rightarrow> terminated_Reason t = podStateReasonError)) =
      container_failed s" for s
    by (cases "cs_Waiting s"; cases "cs_Terminated s") (simp_all add: container_failed_def waits_for_def)
  then show ?thesis
    by (simp add: pod_failing_def isPodInCrashBackLoopOffOrErrorStatus_def list_ex_iff)
qed

text \<open>
  C18. The OSD pods are divided into operational and failing ones: every listed pod is in exactly
  one of the two lists, in the listed order, and it is failing exactly when some init or main
  container of it crashes in a loop or has terminated with an error. The phase plays no part: the comments of the function and of
  \<open>OperationalOSDIDs\<close> speak of running pods, but every pod that does not fail counts as operational, also one in
  another phase, such as a pending pod none of whose containers has a status yet.
\<close>

theorem osd_pods_partitioned:
  assumes "getOSDPodsInOperationalAndFailingStatus r s = (Ok (operational, failing), s')"
  shows "\<exists>pods. getOSDPods r s = (Ok pods, s') \<and>
     failing = filter (\<lambda>p. \<exists>st\<in>set (all_statuses p). container_failed st) pods \<and>
     operational = filter (\<lambda>p. \<not> (\<exists>st\<in>set (all_statuses p). container_failed st)) pods \<and>
     (\<forall>p\<in>set pods. all_statuses p = [] \<longrightarrow> p \<in> set operational)"
  using assms
  by (auto simp: getOSDPodsInOperationalAndFailingStatus_def bind_eq_Ok run_ret fold_partition pod_failing_iff [symmetric])
    (simp add: pod_failing_iff)

theorem osd_pods_partitioned_witness:
  "\<exists>pods. fst (getOSDPods (wired sample) (at_rest (disk_failed new_recovery) new_recovery)) = Ok pods \<and>
     map pod_Name (filter (\<lambda>p. \<exists>st\<in>set (all_statuses p). container_failed st) pods) = [''rook-ceph-osd-2'']"
proof -
  let ?s = "at_rest (disk_failed new_recovery) new_recovery"
  let ?m = "getOSDPodsInOperationalAndFailingStatus (wired sample)"
  have "map_result id (map pod_Name \<circ> snd) (fst (?m ?s)) = Ok [''rook-ceph-osd-2'']" by code_simp
  then obtain operational failing where run: "fst (?m ?s) = Ok (operational, failing)"
    and names: "map pod_Name failing = [''rook-ceph-osd-2'']"
    by (cases "fst (?m ?s)") auto
  from osd_pods_partitioned [OF run_fst [of ?m, OF run]] obtain pods where
    "getOSDPods (wired sample) ?s = (Ok pods, snd (?m ?s))"
    "failing = filter (\<lambda>p. \<exists>st\<in>set (all_statuses p). container_failed st) pods" by blast
  with names show ?thesis by (intro exI [of _ pods]) (simp del: bex_simps)
qed

section \<open>Loops that collect errors\<close>

lemma return_errs_run: "return_errs errs s = (case errs of None \<Rightarrow> Ok () | Some e \<Rightarrow> Err e, s)"
  by (cases errs) (simp_all add: return_errs_def run_ret run_throw)

lemma call_run:
  obtains out w where "f (world s) = (out, w)"
    and "attempt (call e f) s = (Ok out, s\<lparr>world := w, trace := trace s @ [e]\<rparr>)"
  by (cases "f (world s)", cases "fst (f (world s))") (auto simp: attempt_def call_def)

subsection \<open>Failed pods\<close>

text \<open>The answers to a sequence of requests made one after the other.\<close>

primrec replies :: "('x \<Rightarrow> 'w \<Rightarrow> (go_error + 'a) \<times> 'w) \<Rightarrow> 'x list \<Rightarrow> 'w \<Rightarrow> (go_error + 'a) list" where
  "replies f [] w = []"
| "replies f (x # xs) w = (case f x w of (a, w') \<Rightarrow> a # replies f xs w')"

lemma foldM_calls:
  fixes f :: "'x \<Rightarrow> 'w \<Rightarrow> (go_error + unit) \<times> 'w" and e :: "'x \<Rightarrow> effect"
  defines "body \<equiv> \<lambda>errs x. bind (attempt (call (e x) (f x))) (\<lambda>res.
              ret (case res of Inl err \<Rightarrow> errors_Join [errs, Some err] | Inr _ \<Rightarrow> errs))"
  shows "\<exists>errs' w. foldM body errs xs s = (Ok errs', s\<lparr>world := w, trace := trace s @ map e xs\<rparr>) \<and>
     (errs' = None \<longleftrightarrow> errs = None \<and> (\<forall>a\<in>set (replies f xs (world s)). a = Inr ()))"
proof (induction xs arbitrary: errs s)
  case Nil
  then show ?case by (auto simp: ret_def intro!: exI [of _ "world s"])
next
  case (Cons x xs)
  obtain out w where out: "f x (world s) = (out, w)"
    and run: "attempt (call (e x) (f x)) s = (Ok out, s\<lparr>world := w, trace := trace s @ [e x]\<rparr>)"
    by (rule call_run)
  let ?errs = "case out of Inl err \<Rightarrow> errors_Join [errs, Some err] | Inr _ \<Rightarrow> errs"
  have "body errs x s = (Ok ?errs, s\<lparr>world := w, trace := trace s @ [e x]\<rparr>)"
    using run by (simp add: body_def bind_def run_ret)
  moreover have "?errs = None \<longleftrightarrow> errs = None \<and> out = Inr ()" by (cases out) auto
  ultimately show ?case
    using Cons [of ?errs "s\<lparr>world := w, trace := trace s @ [e x]\<rparr>"] out by (auto simp: bind_def)
qed

text \<open>
  C19. The pods that failed because of node affinity are all deleted, one request each in the
  listed order, also when some of the deletions fail; the operation succeeds exactly when
  every deletion did.
\<close>

theorem failed_pods_all_deleted:
  assumes "deleteFailedPodsWithReasonNodeAffinity r s = (out, s')"
    and "getPodsInFailedPhaseWithReasonNodeAffinity r s = (Ok pods, s1)"
  shows "trace s' = trace s1 @ map DeletePod pods \<and>
    (out = Ok () \<longleftrightarrow> (\<forall>a\<in>set (replies (Delete_Pod (rc_Client r)) pods (world s1)). a = Inr ()))"
proof -
  have "(out, s') = bind (foldM (\<lambda>errs pod. bind (attempt (call (DeletePod pod) (Delete_Pod (rc_Client r) pod))) (\<lambda>res.
              ret (case res of Inl e \<Rightarrow> errors_Join [errs, Some e] | Inr _ \<Rightarrow> errs))) None pods) return_errs s1"
    using assms
    by (simp add: deleteFailedPodsWithReasonNodeAffinity_def Let_def bind_def [of "getPodsInFailedPhaseWithReasonNodeAffinity r"])
  then show ?thesis
    using foldM_calls [of DeletePod "Delete_Pod (rc_Client r)" None pods s1]
    by (auto simp: bind_def [of "foldM _ _ _"] return_errs_run split: option.splits)
qed

theorem failed_pods_all_deleted_witness:
  "map_result id (\<lambda>_. True) (fst (deleteFailedPodsWithReasonNodeAffinity (wired sample)
     (at_rest ((healthy new_recovery)\<lparr>cl_pods := [tools_pod\<lparr>pod_Phase := ''Failed'', pod_Reason := ''NodeAffinity''\<rparr>]\<rparr>) new_recovery))) = Ok True"
proof -
  let ?p = "tools_pod\<lparr>pod_Phase := ''Failed'', pod_Reason := ''NodeAffinity''\<rparr>"
  let ?w = "(healthy new_recovery)\<lparr>cl_pods := [?p]\<rparr>"
  let ?s = "at_rest ?w new_recovery"
  let ?s1 = "snd (getPodsInFailedPhaseWithReasonNodeAffinity (wired sample) ?s)"
  have "fst (getPodsInFailedPhaseWithReasonNodeAffinity (wired sample) ?s) = Ok [?p]"
    by (simp add: getPodsInFailedPhaseWithReasonNodeAffinity_def listPods_def bind_def run_call run_ret wired_def
        sample_def at_rest_def pod_selected_def selected_def has_labels_def in_namespace_def tools_pod_def
        ODF_NAMESPACE_def podStatusPhaseFieldSelector_def)
  from failed_pods_all_deleted [OF surjective_pairing run_fst
      [of "getPodsInFailedPhaseWithReasonNodeAffinity (wired sample)", OF this], simplified]
  have "fst (deleteFailedPodsWithReasonNodeAffinity (wired sample) ?s) = Ok ()"
    by (simp add: wired_def sample_def split: prod.splits)
  then show ?thesis by simp
qed

subsection \<open>Nodes with pending pods\<close>

text \<open>
  The turn of a node: the requests that it takes in a world \<open>w\<close>, whether the node ends up labelled, and the world after it. The
  label is added with an empty value, and nothing else of the node changes.
\<close>

definition with_label :: "string \<Rightarrow> Node \<Rightarrow> Node" where
  "with_label k n = n\<lparr>node_Labels := Some (case node_Labels n of None \<Rightarrow> [k \<mapsto> []] | Some m \<Rightarrow> m(k \<mapsto> []))\<rparr>"

definition node_requests :: "('w, 'v) external \<Rightarrow> string \<Rightarrow> 'w \<Rightarrow> effect list" where
  "node_requests c n w =
     GetCall KNode (cluster_name n) #
     (case fst (Get_Node c (cluster_name n) w) of Inl _ \<Rightarrow> [] | Inr node \<Rightarrow> [UpdateNode (with_label (NodeAffinityKey c) node)])"

definition node_labelled :: "('w, 'v) external \<Rightarrow> string \<Rightarrow> 'w \<Rightarrow> bool" where
  "node_labelled c n w \<longleftrightarrow>
     (\<exists>node w1. Get_Node c (cluster_name n) w = (Inr node, w1) \<and>
        fst (Update_Node c (with_label (NodeAffinityKey c) node) w1) = Inr ())"

definition after_turn :: "('w, 'v) external \<Rightarrow> string \<Rightarrow> 'w \<Rightarrow> 'w" where
  "after_turn c n w =
     (case Get_Node c (cluster_name n) w of
        (Inl _, w1) \<Rightarrow> w1
      | (Inr node, w1) \<Rightarrow> snd (Update_Node c (with_label (NodeAffinityKey c) node) w1))"

primrec turns :: "('w, 'v) external \<Rightarrow> string list \<Rightarrow> 'w \<Rightarrow> 'w list" where
  "turns c [] w = []"
| "turns c (n # ns) w = w # turns c ns (after_turn c n w)"

lemma label_node_run:
  "\<exists>errs'. label_node c n errs s =
      (Ok errs', s\<lparr>world := after_turn c n (world s), trace := trace s @ node_requests c n (world s)\<rparr>) \<and>
     (errs' = None \<longleftrightarrow> errs = None \<and> node_labelled c n (world s))"
proof -
  have add: "add_label (NodeAffinityKey c) = with_label (NodeAffinityKey c)"
    by (auto simp: add_label_def with_label_def Let_def fun_eq_iff split: option.splits)
  show ?thesis
    by (auto simp: label_node_def add Let_def run_simps after_turn_def node_requests_def node_labelled_def errors_Join_def
        split: prod.splits sum.splits)
qed

lemma label_nodes_run:
  "\<exists>errs' w. foldM (\<lambda>errs n. label_node c n errs) errs ns s =
      (Ok errs', s\<lparr>world := w, trace := trace s @ concat (map2 (node_requests c) ns (turns c ns (world s)))\<rparr>) \<and>
     (errs' = None \<longleftrightarrow> errs = None \<and> list_all2 (node_labelled c) ns (turns c ns (world s)))"
proof (induction ns arbitrary: errs s)
  case Nil
  then show ?case by (auto simp: ret_def intro!: exI [of _ "world s"])
next
  case (Cons n ns)
  obtain errs1 where 1: "label_node c n errs s =
      (Ok errs1, s\<lparr>world := after_turn c n (world s), trace := trace s @ node_requests c n (world s)\<rparr>)"
    "errs1 = None \<longleftrightarrow> errs = None \<and> node_labelled c n (world s)"
    using label_node_run by blast
  from Cons [of errs1 "s\<lparr>world := after_turn c n (world s), trace := trace s @ node_requests c n (world s)\<rparr>"] 1
  show ?case by (auto simp: bind_def)
qed

text \<open>
  C20. Every node that an unschedulable OSD pod is bound to has its turn, once, in some order. In its turn it is read and, exactly
  if it could be read, written back with the storage label added and nothing else changed, whatever happened to the nodes
  before; the operation succeeds exactly when every node was read and every write was accepted.
\<close>

theorem pending_nodes_all_labelled:
  assumes "labelNodesWithPodsInPendingState r pods s = (out, s')"
  defines "c \<equiv> rc_Client r"
  shows "\<exists>order. distinct order \<and> set order = (\<lambda>p. map_get (pod_NodeSelector p) (LabelHostname c)) ` set pods \<and>
     trace s' = trace s @ concat (map2 (node_requests c) order (turns c order (world s))) \<and>
     (out = Ok () \<longleftrightarrow> list_all2 (node_labelled c) order (turns c order (world s)))"
proof -
  obtain order where order: "map_range c (pending_nodes c pods) s = (Ok order, s)"
    "distinct order" "set order = set (pending_nodes c pods)"
    using map_range_perm [of "pending_nodes c pods" c s] by (auto simp: pending_nodes_def)
  obtain errs' w where loop: "foldM (\<lambda>errs n. label_node c n errs) None order s =
      (Ok errs', s\<lparr>world := w, trace := trace s @ concat (map2 (node_requests c) order (turns c order (world s)))\<rparr>)"
    "errs' = None \<longleftrightarrow> list_all2 (node_labelled c) order (turns c order (world s))"
    using label_nodes_run [of c None order s] by auto
  have "(out, s') = return_errs errs'
      (s\<lparr>world := w, trace := trace s @ concat (map2 (node_requests c) order (turns c order (world s)))\<rparr>)"
    using assms(1) order(1) loop(1) by (simp add: labelNodesWithPodsInPendingState_def c_def Let_def bind_def)
  then have "trace s' = trace s @ concat (map2 (node_requests c) order (turns c order (world s)))"
    "out = Ok () \<longleftrightarrow> errs' = None"
    by (auto simp: return_errs_run split: option.splits)
  with loop(2) order(2,3) show ?thesis by (auto simp: pending_nodes_def)
qed

text \<open>Of two nodes one does not exist: the other one is labelled, and the operation fails.\<close>

theorem pending_nodes_all_labelled_witness:
  "fst (labelNodesWithPodsInPendingState (wired sample) [osd_pod ''1'' [], osd_pod ''2'' []]
     (at_rest ((healthy new_recovery)\<lparr>cl_nodes := [\<lparr>node_Name = ''node-2'', node_Labels = None\<rparr>]\<rparr>) new_recovery)) \<noteq> Ok () \<and>
   UpdateNode \<lparr>node_Name = ''node-2'', node_Labels = Some [NodeAffinityKey sample \<mapsto> []]\<rparr> \<in>
     set (trace (snd (labelNodesWithPodsInPendingState (wired sample) [osd_pod ''1'' [], osd_pod ''2'' []]
       (at_rest ((healthy new_recovery)\<lparr>cl_nodes := [\<lparr>node_Name = ''node-2'', node_Labels = None\<rparr>]\<rparr>) new_recovery))))"
proof -
  let ?s = "at_rest ((healthy new_recovery)\<lparr>cl_nodes := [\<lparr>node_Name = ''node-2'', node_Labels = None\<rparr>]\<rparr>) new_recovery"
  let ?m = "labelNodesWithPodsInPendingState (wired sample) [osd_pod ''1'' [], osd_pod ''2'' []]"
  have host: "map_get (pod_NodeSelector (osd_pod k [])) (LabelHostname sample) = ''node-'' @ k" for k
    by (simp add: osd_pod_def sample_def map_get_def)
  from pending_nodes_all_labelled [OF surjective_pairing, of "wired sample" "[osd_pod ''1'' [], osd_pod ''2'' []]" ?s] obtain order where
    o: "distinct order" "set order = {''node-1'', ''node-2''}"
      "trace (snd (?m ?s)) = concat (map2 (node_requests sample) order (turns sample order (world ?s)))"
      "fst (?m ?s) = Ok () \<longleftrightarrow> list_all2 (node_labelled sample) order (turns sample order (world ?s))"
    by (auto simp: host at_rest_def)
  let ?w = "world ?s"
  have missing: "Get_Node sample (cluster_name ''node-1'') w = (Inl not_found, w)" if "cl_nodes w = [n]" "node_Name n = ''node-2''" for w n
    using that by (simp add: sample_def lookup_by_def cluster_name_def)
  have found: "Get_Node sample (cluster_name ''node-2'') ?w = (Inr \<lparr>node_Name = ''node-2'', node_Labels = None\<rparr>, ?w)"
    by (simp add: sample_def lookup_by_def cluster_name_def at_rest_def)
  have skip: "after_turn sample ''node-1'' ?w = ?w"
    using missing [of ?w] by (simp add: after_turn_def at_rest_def)
  have labels: "UpdateNode \<lparr>node_Name = ''node-2'', node_Labels = Some [NodeAffinityKey sample \<mapsto> []]\<rparr> \<in> set (node_requests sample ''node-2'' ?w)"
    using found by (simp add: node_requests_def with_label_def)
  obtain n where n: "cl_nodes (after_turn sample ''node-2'' ?w) = [n]" "node_Name n = ''node-2''"
    using found by (auto simp: after_turn_def with_label_def sample_def update_by_def replace_by_def at_rest_def)
  have failed: "\<not> node_labelled sample ''node-1'' ?w" "\<not> node_labelled sample ''node-1'' (after_turn sample ''node-2'' ?w)"
    using missing [of ?w] missing [OF n] by (simp_all add: node_labelled_def at_rest_def)
  have "length order = 2" using distinct_card [OF o(1)] o(2) by simp
  then obtain a b where ab: "order = [a, b]" by (auto simp: length_Suc_conv numeral_2_eq_2)
  then consider "order = [''node-1'', ''node-2'']" | "order = [''node-2'', ''node-1'']"
    using o(1,2) by (auto simp: doubleton_eq_iff)
  then show ?thesis
    using o(3,4) skip labels failed by cases simp_all
qed

section \<open>Released volumes\<close>

definition released :: "NodePV \<Rightarrow> PersistentVolume \<Rightarrow> bool" where
  "released nd pv \<longleftrightarrow> pv_Name pv = nd_PersistentVolumeName nd \<and> pv_Phase pv = VolumeReleased"

lemma processPV_loop:
  fixes c :: "('w, 'v) external" and nd :: NodePV and e :: "PersistentVolume \<Rightarrow> go_error"
  defines "body \<equiv> \<lambda>errs pv.
        if pv_Name pv = nd_PersistentVolumeName nd \<and> pv_Phase pv = VolumeReleased then
          (let errs1 = errors_Join [errs, Some (e pv)] in
           bind (attempt (call (DeletePersistentVolume pv) (Delete_PersistentVolume c pv))) (\<lambda>res.
           ret (errors_Join [errs1, sum_err res])))
        else ret errs"
  shows "\<exists>errs' w. foldM body errs pvs s =
      (Ok errs', s\<lparr>world := w, trace := trace s @ map DeletePersistentVolume (filter (released nd) pvs)\<rparr>) \<and>
    (errs' = None \<longleftrightarrow> errs = None \<and> filter (released nd) pvs = [])"
proof (induction pvs arbitrary: errs s)
  case Nil
  then show ?case by (auto simp: ret_def intro!: exI [of _ "world s"])
next
  case (Cons pv pvs)
  show ?case
  proof (cases "released nd pv")
    case True
    obtain res w where "attempt (call (DeletePersistentVolume pv) (Delete_PersistentVolume c pv)) s =
        (Ok res, s\<lparr>world := w, trace := trace s @ [DeletePersistentVolume pv]\<rparr>)" by (rule call_run)
    with True have "body errs pv s = (Ok (errors_Join [errors_Join [errs, Some (e pv)], sum_err res]),
        s\<lparr>world := w, trace := trace s @ [DeletePersistentVolume pv]\<rparr>)"
      by (simp add: body_def released_def bind_def run_ret)
    with True Cons [of "errors_Join [errors_Join [errs, Some (e pv)], sum_err res]"
        "s\<lparr>world := w, trace := trace s @ [DeletePersistentVolume pv]\<rparr>"]
    show ?thesis by (auto simp: bind_def)
  next
    case False
    then have "body errs pv = ret errs" by (auto simp: body_def released_def)
    with False Cons [of errs s] show ?thesis by simp
  qed
qed

lemma processPV_outcome:
  assumes "processPVForNode r nd pvs s = (out, s')"
  shows "\<exists>errs. out = Ok errs \<and>
     trace s' = trace s @ map DeletePersistentVolume (filter (released nd) pvs) \<and>
     (errs = None \<longleftrightarrow> pvs \<noteq> [] \<and> filter (released nd) pvs = [])"
proof -
  let ?e0 = "if length pvs = 0 then errors_Join [None, Some (ErrorString (''no PV found for host '' @ nd_NodeName nd))] else None"
  have "?e0 = None \<longleftrightarrow> pvs \<noteq> []" by simp
  then show ?thesis
    using assms processPV_loop [of nd "\<lambda>pv. ErrorString (''volume '' @ pv_Name pv @ '' in node '' @
                 nd_NodeName nd @ '' is released and about to be deleted'')" "rc_Client r" ?e0 pvs s]
    unfolding processPVForNode_def Let_def by fastforce
qed

text \<open>
  C21. For a recorded device, the volumes of its node that are deleted are exactly those with the
  recorded name that have been released; the device counts as clean exactly when its node has
  a volume and none of them is such a volume.
\<close>

theorem released_volumes_deleted:
  assumes "processPVForNode r nd pvs s = (out, s')"
  shows "\<exists>errs. out = Ok errs \<and>
     trace s' = trace s @ map DeletePersistentVolume (filter (released nd) pvs) \<and>
     (errs = None \<longleftrightarrow> pvs \<noteq> [] \<and> filter (released nd) pvs = [])"
  by (rule processPV_outcome) fact

theorem released_volumes_deleted_witness:
  "let nd = \<lparr>nd_NodeName = ''node-2'', nd_PersistentVolumeName = ''local-pv-2'', nd_FailingOSDID = ''2''\<rparr>;
       pv = \<lparr>pv_Name = ''local-pv-2'', pv_Labels = Map.empty, pv_Phase = ''Released''\<rparr>
   in trace (snd (processPVForNode (wired sample) nd [pv] (at_rest (healthy new_recovery) new_recovery))) =
        [DeletePersistentVolume pv]"
  using released_volumes_deleted [OF surjective_pairing, of "wired sample"
      "\<lparr>nd_NodeName = ''node-2'', nd_PersistentVolumeName = ''local-pv-2'', nd_FailingOSDID = ''2''\<rparr>"
      "[\<lparr>pv_Name = ''local-pv-2'', pv_Labels = Map.empty, pv_Phase = ''Released''\<rparr>]"
      "at_rest (healthy new_recovery) new_recovery"]
  by (auto simp: Let_def released_def at_rest_def)

section \<open>The log of the removal job\<close>

lemma split_last_line:
  "\<exists>pre. s = pre @ last (strings_Split s sep) \<and> (pre = [] \<or> last pre = sep)"
proof (induction s)
  case (Cons c cs)
  from Cons obtain pre where pre: "cs = pre @ last (strings_Split cs sep)" "pre = [] \<or> last pre = sep" by blast
  obtain x xs where split: "strings_Split cs sep = x # xs"
    using strings_Split_not_Nil [of cs sep] by (cases "strings_Split cs sep") auto
  show ?case
  proof (cases "c = sep \<or> xs \<noteq> []")
    case True
    then have "last (strings_Split (c # cs) sep) = last (strings_Split cs sep)" using split by auto
    moreover have "pre \<noteq> [] \<or> c = sep"
      using True pre split strings_Split_parts_sepfree by (metis append_Nil last_in_set list.distinct(1) list.inject strings_Split_sepfree)
    ultimately show ?thesis using pre by (intro exI [of _ "c # pre"]) auto
  next
    case False
    then show ?thesis using split strings_Join_Split [of cs sep] by auto
  qed
qed simp

lemma last_split_append: "last (strings_Split (p @ sep # t) sep) = last (strings_Split t sep)"
proof (induction p)
  case (Cons c p)
  obtain x xs where split: "strings_Split (p @ sep # t) sep = x # xs"
    using strings_Split_not_Nil [of "p @ sep # t" sep] by (cases "strings_Split (p @ sep # t) sep") auto
  have "xs \<noteq> []"
  proof
    assume "xs = []"
    then have "p @ sep # t = x" using split strings_Join_Split [of "p @ sep # t" sep] by simp
    with split strings_Split_parts_sepfree [of x "p @ sep # t" sep] show False by auto
  qed
  with Cons split show ?case by simp
qed simp

lemma last_line_unique:
  assumes "s = pre @ line" and "sep \<notin> set line" and "pre = [] \<or> last pre = sep"
  shows "last (strings_Split s sep) = line"
proof (cases pre rule: rev_cases)
  case Nil
  then show ?thesis using assms by (simp add: strings_Split_sepfree)
next
  case (snoc p c)
  then show ?thesis using assms last_split_append [of p sep line] by (simp add: strings_Split_sepfree)
qed

text \<open>
  C22. The log of a completed removal job is accepted exactly when it could be read and its last
  line contains the success message, in any case of its letters. The last line is what
  follows the last line break once surrounding white space is removed.
\<close>

theorem job_log_accepted_iff:
  "validateJobLogs r podName s = (Ok (), s') \<longleftrightarrow>
     (\<exists>logs pre line. rc_logRetriever r podName s = (Ok logs, s') \<and>
        strings_TrimSpace logs = pre @ line \<and> CHR 0x0A \<notin> set line \<and> (pre = [] \<or> last pre = CHR 0x0A) \<and>
        sublist osdJobSuccessMessage (strings_ToLower line))"
proof -
  have run: "validateJobLogs r podName s = (Ok (), s') \<longleftrightarrow>
      (\<exists>logs. rc_logRetriever r podName s = (Ok logs, s') \<and>
         sublist osdJobSuccessMessage (strings_ToLower (job_log_last_line logs)))"
    by (auto simp: validateJobLogs_def Let_def bind_eq_Ok strings_Contains_sublist run_ret run_throw split: if_splits)
  have line: "(\<exists>pre line. strings_TrimSpace logs = pre @ line \<and> CHR 0x0A \<notin> set line \<and>
        (pre = [] \<or> last pre = CHR 0x0A) \<and> Q line) \<longleftrightarrow> Q (job_log_last_line logs)" for logs Q
  proof
    assume "\<exists>pre line. strings_TrimSpace logs = pre @ line \<and> CHR 0x0A \<notin> set line \<and>
        (pre = [] \<or> last pre = CHR 0x0A) \<and> Q line"
    then show "Q (job_log_last_line logs)"
      unfolding job_log_last_line_def using last_line_unique by blast
  next
    assume q: "Q (job_log_last_line logs)"
    obtain pre where pre: "strings_TrimSpace logs = pre @ job_log_last_line logs" "pre = [] \<or> last pre = CHR 0x0A"
      using split_last_line [of "strings_TrimSpace logs" "CHR 0x0A"] unfolding job_log_last_line_def by blast
    have "CHR 0x0A \<notin> set (job_log_last_line logs)"
      unfolding job_log_last_line_def
      by (rule strings_Split_parts_sepfree [OF last_in_set [OF strings_Split_not_Nil]])
    with pre q show "\<exists>pre line. strings_TrimSpace logs = pre @ line \<and> CHR 0x0A \<notin> set line \<and>
        (pre = [] \<or> last pre = CHR 0x0A) \<and> Q line"
      by blast
  qed
  note contains = line [of _ "\<lambda>l. sublist osdJobSuccessMessage (strings_ToLower l)", symmetric]
  show ?thesis by (simp only: run contains) blast
qed

section \<open>The removal template\<close>

text \<open>
  What \<open>GetParameterByName\<close> promises: a parameter of the template with the name asked for.
\<close>

definition finds_parameters :: "('w, 'v) external \<Rightarrow> bool" where
  "finds_parameters c \<longleftrightarrow>
     (\<forall>t n i. GetParameterByName c t n = Some i \<longrightarrow> i < length (tpl_Parameters t) \<and> par_Name (tpl_Parameters t ! i) = n)"

definition has_parameter :: "Template \<Rightarrow> string \<Rightarrow> string \<Rightarrow> bool" where
  "has_parameter t n v \<longleftrightarrow> (\<exists>p\<in>set (tpl_Parameters t). par_Name p = n \<and> par_Value p = v)"

lemma has_parameter_nth:
  "has_parameter t n v \<longleftrightarrow> (\<exists>i<length (tpl_Parameters t). par_Name (tpl_Parameters t ! i) = n \<and> par_Value (tpl_Parameters t ! i) = v)"
  unfolding has_parameter_def by (metis in_set_conv_nth)

lemma has_set_parameter:
  "i < length (tpl_Parameters t) \<Longrightarrow> par_Name (tpl_Parameters t ! i) = n \<Longrightarrow> has_parameter (set_parameter i v t) n v"
  by (auto simp: has_parameter_nth set_parameter_def intro!: exI [of _ i])

lemma has_parameter_other:
  "has_parameter t n v \<Longrightarrow> j < length (tpl_Parameters t) \<Longrightarrow> par_Name (tpl_Parameters t ! j) \<noteq> n \<Longrightarrow>
   has_parameter (set_parameter j u t) n v"
  by (auto simp: has_parameter_nth set_parameter_def nth_list_update split: if_splits)

lemma create_objects_Ok:
  assumes "forM (create_template_object c) obs s1 = (Ok (), s2)"
  shows "\<exists>es. trace s2 = trace s1 @ es \<and> length es = length obs \<and>
        (\<forall>e\<in>set es. \<exists>ob. e = CreateObject ob \<and> obj_Namespace ob = ODF_NAMESPACE)"
  using assms
proof (induction obs arbitrary: s1)
  case (Cons ob obs)
  then obtain s3 where "create_template_object c ob s1 = (Ok (), s3)"
    and rest: "forM (create_template_object c) obs s3 = (Ok (), s2)" by (auto simp: bind_eq_Ok)
  then obtain o' where "trace s3 = trace s1 @ [CreateObject (o'\<lparr>obj_Namespace := ODF_NAMESPACE\<rparr>)]"
    by (auto simp: create_template_object_def Let_def bind_eq_Ok call_Ok liftSum_Ok run_ret run_throw
        split: option.splits if_splits)
  moreover from Cons.IH [OF rest] obtain es where "trace s2 = trace s3 @ es" "length es = length obs"
    "\<forall>e\<in>set es. \<exists>ob. e = CreateObject ob \<and> obj_Namespace ob = ODF_NAMESPACE" by blast
  ultimately show ?case
    by (intro exI [of _ "CreateObject (o'\<lparr>obj_Namespace := ODF_NAMESPACE\<rparr>) # es"]) auto
qed (simp add: ret_def)

lemma processTemplate_Ok:
  "processTemplate c t s = (Ok x, s') \<longleftrightarrow> (\<exists>w. ProcessTemplate c t (world s) = (x, w) \<and> s' = s\<lparr>world := w\<rparr>)"
  by (auto simp: processTemplate_def split: prod.splits)

lemma deref_Ok: "deref p s = (Ok x, s') \<longleftrightarrow> p = Some x \<and> s' = s"
  by (cases p) (auto simp: run_simps)

lemma time_Now_Ok: "time_Now c s = (Ok t, s') \<longleftrightarrow> (\<exists>w. Now c (world s) = (t, w) \<and> s' = s\<lparr>world := w\<rparr>)"
  by (auto simp: time_Now_def split: prod.splits)

text \<open>The template as it is handed to the processor.\<close>

lemma processOCSOSDRemovalTemplate_Ok:
  assumes "processOCSOSDRemovalTemplate r ids forced s = (Ok (), s')"
  shows "\<exists>t i j w t' w' s1. GetParameterByName (rc_Client r) t FAILED_OSD_IDS = Some i \<and>
     GetParameterByName (rc_Client r) (set_parameter i (strings_Join ids '','') t) FORCE_OSD_REMOVAL = Some j \<and>
     ProcessTemplate (rc_Client r)
       (set_parameter j (FormatBool forced) (set_parameter i (strings_Join ids '','') t)) w = (([], t'), w') \<and>
     trace s1 = trace s @ [GetCall KTemplate (odf_name OCS_OSD_REMOVAL_JOB)] \<and>
     forM (create_template_object (rc_Client r)) (tpl_Objects t') s1 = (Ok (), s')"
proof -
  from assms obtain t i j w t' w' s1 where
    "forM (create_template_object (rc_Client r)) (tpl_Objects t') s1 = (Ok (), s')"
    "ProcessTemplate (rc_Client r)
       (set_parameter j (FormatBool forced) (set_parameter i (strings_Join ids '','') t)) w = (([], t'), w')"
    "GetParameterByName (rc_Client r) t FAILED_OSD_IDS = Some i"
    "GetParameterByName (rc_Client r) (set_parameter i (strings_Join ids '','') t) FORCE_OSD_REMOVAL = Some j"
    "trace s1 = trace s @ [GetCall KTemplate (odf_name OCS_OSD_REMOVAL_JOB)]"
    by (auto simp: processOCSOSDRemovalTemplate_def Let_def bind_eq_Ok call_Ok deref_Ok time_Now_Ok
        processTemplate_Ok run_throw split: prod.splits if_splits)
  then show ?thesis by blast
qed

text \<open>
  C23. A successful processing of the removal template hands the processor a template in which
  the parameter of the failed OSDs splits back, at its commas, into the ids, and the parameter
  of the forced removal reads \<open>true\<close> exactly when removal is forced; the processor reports no
  error, and every object that is created is put into the storage namespace.
\<close>

theorem removal_template_parameters:
  assumes "finds_parameters (rc_Client r)" and "ids \<noteq> []" and "\<forall>x\<in>set ids. CHR '','' \<notin> set x"
    and "processOCSOSDRemovalTemplate r ids forced s = (Ok (), s')"
  shows "\<exists>t w t' w' v. ProcessTemplate (rc_Client r) t w = (([], t'), w') \<and>
     has_parameter t FAILED_OSD_IDS v \<and> strings_Split v (CHR '','') = ids \<and>
     has_parameter t FORCE_OSD_REMOVAL (if forced then ''true'' else ''false'') \<and>
     (\<exists>es. trace s' = trace s @ GetCall KTemplate (odf_name OCS_OSD_REMOVAL_JOB) # es \<and>
        length es = length (tpl_Objects t') \<and>
        (\<forall>e\<in>set es. \<exists>ob. e = CreateObject ob \<and> obj_Namespace ob = ODF_NAMESPACE))"
proof -
  let ?c = "rc_Client r"
  from processOCSOSDRemovalTemplate_Ok [OF assms(4)] obtain t i j w t' w' s1 where *:
    "GetParameterByName ?c t FAILED_OSD_IDS = Some i"
    "GetParameterByName ?c (set_parameter i (strings_Join ids '','') t) FORCE_OSD_REMOVAL = Some j"
    "ProcessTemplate ?c (set_parameter j (FormatBool forced) (set_parameter i (strings_Join ids '','') t)) w = (([], t'), w')"
    "trace s1 = trace s @ [GetCall KTemplate (odf_name OCS_OSD_REMOVAL_JOB)]"
    "forM (create_template_object ?c) (tpl_Objects t') s1 = (Ok (), s')" by blast
  let ?t1 = "set_parameter i (strings_Join ids '','') t"
  let ?t2 = "set_parameter j (FormatBool forced) ?t1"
  have j: "j < length (tpl_Parameters ?t1)" "par_Name (tpl_Parameters ?t1 ! j) = FORCE_OSD_REMOVAL"
    and i: "i < length (tpl_Parameters t)" "par_Name (tpl_Parameters t ! i) = FAILED_OSD_IDS"
    using *(1,2) assms(1) by (auto simp: finds_parameters_def)
  have "has_parameter ?t2 FAILED_OSD_IDS (strings_Join ids '','')"
    by (rule has_parameter_other [OF has_set_parameter [OF i] j(1)])
      (simp add: j(2) FORCE_OSD_REMOVAL_def FAILED_OSD_IDS_def)
  moreover have "has_parameter ?t2 FORCE_OSD_REMOVAL (if forced then ''true'' else ''false'')"
    using has_set_parameter [OF j, of "FormatBool forced"] by (simp add: FormatBool_def)
  moreover have "strings_Split (strings_Join ids '','') (CHR '','') = ids"
    by (rule strings_Split_Join) fact+
  moreover from create_objects_Ok [OF *(5)] *(4) have "\<exists>es. trace s' = trace s @ GetCall KTemplate (odf_name OCS_OSD_REMOVAL_JOB) # es \<and>
        length es = length (tpl_Objects t') \<and>
        (\<forall>e\<in>set es. \<exists>ob. e = CreateObject ob \<and> obj_Namespace ob = ODF_NAMESPACE)" by auto
  ultimately show ?thesis using *(3) by blast
qed

lemma param_index_Some:
  "param_index ps n = Some i \<Longrightarrow> i < length ps \<and> par_Name (ps ! i) = n"
  by (induction ps arbitrary: i) (auto split: if_splits)

theorem removal_template_parameters_witness:
  "\<exists>t w t' w' v. ProcessTemplate sample t w = (([], t'), w') \<and>
     has_parameter t FAILED_OSD_IDS v \<and> strings_Split v (CHR '','') = [''2'', ''5''] \<and>
     has_parameter t FORCE_OSD_REMOVAL ''true''"
proof -
  let ?s = "at_rest (disk_failed new_recovery) new_recovery"
  have "finds_parameters (rc_Client (wired sample))"
    by (auto simp: finds_parameters_def wired_def sample_def dest: param_index_Some)
  moreover have "[''2'', ''5''] \<noteq> []" "\<forall>x\<in>set [''2'', ''5'']. CHR '','' \<notin> set x" by simp_all
  moreover have "fst (processOCSOSDRemovalTemplate (wired sample) [''2'', ''5''] True ?s) = Ok ()" by code_simp
  note run_fst [of "processOCSOSDRemovalTemplate (wired sample) [''2'', ''5''] True", OF this]
  ultimately have "\<exists>t w t' w' v. ProcessTemplate (rc_Client (wired sample)) t w = (([], t'), w') \<and>
     has_parameter t FAILED_OSD_IDS v \<and> strings_Split v (CHR '','') = [''2'', ''5''] \<and>
     has_parameter t FORCE_OSD_REMOVAL (if True then ''true'' else ''false'')"
    using removal_template_parameters by blast
  then show ?thesis by (simp add: wired_def)
qed

section \<open>The devices of the crashing pods\<close>

lemma getNodeDevice_Ok:
  "getNodeDeviceNameFromPV r p s = (Ok (Some nd), s') \<Longrightarrow>
   pod_Labels p (OSDOverPVCLabelKey (rc_Client r)) \<noteq> None \<and> nd_FailingOSDID nd = map_get (pod_Labels p) ''osd''"
  by (auto simp: getNodeDeviceNameFromPV_def Let_def bind_eq_Ok run_ret split: option.splits)

lemma foldM_crash_pods:
  assumes "foldM (handle_crash_pod r) acc pods s = (Ok nds, s')"
  shows "\<exists>ds. nds = acc @ map Some ds \<and> map nd_FailingOSDID ds = map (\<lambda>p. map_get (pod_Labels p) ''osd'') pods \<and>
    (\<forall>p\<in>set pods. pod_Labels p (OSDOverPVCLabelKey (rc_Client r)) \<noteq> None)"
  using assms
proof (induction pods arbitrary: acc s)
  case (Cons p pods)
  then obtain acc1 s1 where step: "handle_crash_pod r acc p s = (Ok acc1, s1)"
    and rest: "foldM (handle_crash_pod r) acc1 pods s1 = (Ok nds, s')" by (auto simp: bind_eq_Ok)
  from step obtain nd where acc1: "acc1 = acc @ [Some nd]"
    and nd: "pod_Labels p (OSDOverPVCLabelKey (rc_Client r)) \<noteq> None" "nd_FailingOSDID nd = map_get (pod_Labels p) ''osd''"
    by (auto simp: handle_crash_pod_def bind_eq_Ok deref_Ok run_ret dest: getNodeDevice_Ok)
  from Cons.IH [OF rest] obtain ds where "nds = acc1 @ map Some ds"
    "map nd_FailingOSDID ds = map (\<lambda>p. map_get (pod_Labels p) ''osd'') pods"
    "\<forall>p\<in>set pods. pod_Labels p (OSDOverPVCLabelKey (rc_Client r)) \<noteq> None" by blast
  with acc1 nd show ?case by (intro exI [of _ "nd # ds"]) auto
qed (simp add: ret_def)

text \<open>
  C24. When the crashing pods are handled without an error, one device is recorded per pod, in the
  order of the pods and with the OSD id of the pod's label, so that the ids handed to the
  removal job are those of the failing pods; each of the pods was backed by a claim.
\<close>

theorem one_device_per_crashing_pod:
  assumes "handleCrashLoopBackOffPods r pods s = (Ok (nds, res), s')"
  shows "None \<notin> set nds \<and>
    getOSDIDsFromNodeDevices nds s' = (Ok (listOperationalOSDIDsFromPods pods), s') \<and>
    (\<forall>p\<in>set pods. pod_Labels p (OSDOverPVCLabelKey (rc_Client r)) \<noteq> None)"
proof -
  have ids: "getOSDIDsFromNodeDevices (map Some ds) s = (Ok (map nd_FailingOSDID ds), s)" for ds and s :: "'a st"
  proof -
    have "foldM (\<lambda>r p. bind (deref p) (\<lambda>nd. ret (r @ [nd_FailingOSDID nd]))) acc (map Some ds) s =
        (Ok (acc @ map nd_FailingOSDID ds), s)" for acc
      by (induction ds arbitrary: acc) (simp add: run_ret, simp)
    from this [of "[]"] show ?thesis by (simp add: getOSDIDsFromNodeDevices_def)
  qed
  from assms have "foldM (handle_crash_pod r) [] pods s = (Ok nds, s')"
    by (auto simp: handleCrashLoopBackOffPods_def bind_eq_Ok run_ret)
  from foldM_crash_pods [OF this] obtain ds where "nds = map Some ds"
    "map nd_FailingOSDID ds = map (\<lambda>p. map_get (pod_Labels p) ''osd'') pods"
    "\<forall>p\<in>set pods. pod_Labels p (OSDOverPVCLabelKey (rc_Client r)) \<noteq> None" by auto
  then show ?thesis using ids [of ds s'] by (auto simp: listOperationalOSDIDsFromPods_def)
qed

theorem one_device_per_crashing_pod_witness:
  "\<exists>nds res s'. handleCrashLoopBackOffPods (wired sample) [osd_pod ''2'' [crashing]]
       (at_rest (disk_failed new_recovery) new_recovery) = (Ok (nds, res), s') \<and>
     getOSDIDsFromNodeDevices nds s' = (Ok [''2''], s')"
proof -
  let ?s = "at_rest (disk_failed new_recovery) new_recovery"
  let ?m = "handleCrashLoopBackOffPods (wired sample) [osd_pod ''2'' [crashing]]"
  have "map_result id (\<lambda>_. ()) (fst (?m ?s)) = Ok ()" by code_simp
  then obtain nds res where "fst (?m ?s) = Ok (nds, res)" by (cases "fst (?m ?s)") auto
  then have run: "?m ?s = (Ok (nds, res), snd (?m ?s))" by (rule run_fst [of ?m])
  moreover have "listOperationalOSDIDsFromPods [osd_pod ''2'' [crashing]] = [''2'']"
    by (simp add: listOperationalOSDIDsFromPods_def osd_pod_def)
  ultimately show ?thesis
    using one_device_per_crashing_pod [OF run] by metis
qed

end
