(* ===== verification/Reconciler.thy ===== *)
theory Reconciler
  imports Recovery_Ops
begin

text \<open>
  \<open>(*NodeRecovery).Reconcile\<close> of \<open>src/internal/controller/node_recovery_reconciler.go\<close>: one
  definition per case of its switch, then the function itself. Each case is a step of the
  recovery; it returns the \<open>ctrl.Result\<close> and leaves the updated object in the state. Log
  lines are not modelled.
\<close>

section \<open>Shared pieces\<close>

text \<open>\<open>latestCondition.Reason = r; latestCondition.Message = err.Error(); return ctrl.Result{}, err\<close>.\<close>

definition fail_with :: "RecoveryConditionReason \<Rightarrow> go_error \<Rightarrow> ('w, 'a) go" where
  "fail_with reason e = bind (set_reason reason (Error e)) (\<lambda>_. throw e)"

definition fail_message :: "go_error \<Rightarrow> ('w, 'a) go" where
  "fail_message e = bind (set_message (Error e)) (\<lambda>_. throw e)"

definition go_to :: "('w, 'v) Recoverer \<Rightarrow> RecoveryConditionType \<Rightarrow> Result \<Rightarrow> ('w, Result) go" where
  "go_to r ty res = bind (transitionNextCondition (rc_Client r) ty) (\<lambda>_. ret res)"

definition set_phase :: "RecoveryPhase \<Rightarrow> ('w, unit) go" where
  "set_phase p = modify_status (\<lambda>st. st\<lparr>Phase := p\<rparr>)"

definition fmt_minutes :: "duration \<Rightarrow> string" where
  "fmt_minutes d = digits (nat (d div Minute))"

section \<open>The steps\<close>

definition step_EnableCephToolsPod :: "('w, 'v) Recoverer \<Rightarrow> ('w, Result) go" where
  "step_EnableCephToolsPod r =
     bind (onErr (isCephToolsEnabled r) (fail_with FailedCheckCephToolsPod)) (\<lambda>enabled.
     bind (if \<not> enabled then onErr (enableCephTools r) (fail_with FailedEnableCephToolsPod)
           else modify_status (\<lambda>st. st\<lparr>KeepCephToolsPod := True\<rparr>)) (\<lambda>_.
     go_to r WaitForCephToolsPodRunning (requeue_after (10 * Second))))"

definition step_WaitForCephToolsPodRunning :: "('w, 'v) Recoverer \<Rightarrow> ('w, Result) go" where
  "step_WaitForCephToolsPodRunning r =
     bind (onErr (getCephToolsPodPhase r) (fail_with FailedRetrieveCephToolPod)) (\<lambda>phase.
     if phase \<noteq> PodRunning then
       bind (set_reason PodNotInRunningPhase ''Ceph Tool pod is not in Running phase'') (\<lambda>_.
       ret (requeue_after (10 * Second)))
     else go_to r WaitForOSDPodsStabilize requeue)"

definition step_WaitForOSDPodsStabilize :: "('w, 'v) Recoverer \<Rightarrow> ('w, Result) go" where
  "step_WaitForOSDPodsStabilize r =
     bind (onErr (hasPodsInCreatingOrInitializingState r) (fail_with FailedRetrievePodsPhase)) (\<lambda>podErr.
     case podErr of
       Some e \<Rightarrow>
         bind (set_reason WaitingForPodsToInitialize (''OSD pods still in initializing status: '' @ Error e)) (\<lambda>_.
         ret (requeue_after (10 * Second)))
     | None \<Rightarrow> go_to r LabelNodesWithPendingPods requeue)"

definition step_LabelNodesWithPendingPods :: "('w, 'v) Recoverer \<Rightarrow> ('w, Result) go" where
  "step_LabelNodesWithPendingPods r =
     bind (onErr (getPodsInPendingPhase r) (fail_with FailedRetrievePendingPods)) (\<lambda>pendingOSDPods.
     bind (if 0 < length pendingOSDPods then
             bind (modify_status (\<lambda>st. st\<lparr>PendingPods := True\<rparr>)) (\<lambda>_.
             onErr (labelNodesWithPodsInPendingState r pendingOSDPods) (fail_with FailedLabelNodes))
           else ret ()) (\<lambda>_.
     go_to r ManageCrashLoopBackOffPods requeue))"

definition step_ManageCrashLoopBackOffPods :: "('w, 'v) Recoverer \<Rightarrow> ('w, Result) go" where
  "step_ManageCrashLoopBackOffPods r =
     bind (onErr (getOSDPodsInOperationalAndFailingStatus r) (fail_with FailedRetrieveCrashLoopBackOffPods))
       (\<lambda>(operational, failing).
     if length failing = 0 then go_to r RestartStorageOperator requeue
     else
       bind (if 0 < length operational
             then modify_status (\<lambda>st. st\<lparr>OperationalOSDIDs := listOperationalOSDIDsFromPods operational\<rparr>)
             else ret ()) (\<lambda>_.
       bind (modify_status (\<lambda>st. st\<lparr>CrashLoopBackOffPods := True\<rparr>)) (\<lambda>_.
       bind (onErr (handleCrashLoopBackOffPods r failing) (fail_with FailedHandleCrashLoopBackOffPods))
         (\<lambda>(nodeDevice, _).
       bind (modify_status (\<lambda>st. st\<lparr>NodeDevice := nodeDevice\<rparr>)) (\<lambda>_.
       go_to r ForceDeleteRookCephOSDPods (requeue_after (15 * Second)))))))"

text \<open>The loop over the ids: \<open>None\<close> is the early return, otherwise the final count.\<close>

primrec count_terminating ::
  "('w, 'v) Recoverer \<Rightarrow> nat \<Rightarrow> string list \<Rightarrow> ('w, nat option) go" where
  "count_terminating r c [] = ret (Some c)"
| "count_terminating r c (osdID # ids) =
     bind (getOSDPodsWithID r osdID) (\<lambda>pods.
     case pods of
       [] \<Rightarrow> count_terminating r c ids
     | p # _ \<Rightarrow>
         bind (time_Now (rc_Client r)) (\<lambda>now.
         bind (deref (pod_DeletionTimestamp p)) (\<lambda>deleted.
         if Before now (deleted + Minute) then ret None
         else count_terminating r (Suc c) ids)))"

definition step_ForceDeleteRookCephOSDPods :: "('w, 'v) Recoverer \<Rightarrow> ('w, Result) go" where
  "step_ForceDeleteRookCephOSDPods r =
     bind get_status (\<lambda>st.
     if \<not> CrashLoopBackOffPods st then go_to r RestartStorageOperator requeue
     else
       bind (getOSDIDsFromNodeDevices (NodeDevice st)) (\<lambda>ids.
       bind (count_terminating r 0 ids) (\<lambda>counted.
       case counted of
         None \<Rightarrow> ret (requeue_after (15 * Second))
       | Some c \<Rightarrow>
           (if 0 < c then
              bind (forceDeleteRookCephOSDPods r ids) (\<lambda>_.
              go_to r ForceDeleteRookCephOSDPods requeue)
            else go_to r ProcessOCSRemovalTemplate requeue))))"

definition step_ProcessOCSRemovalTemplate :: "('w, 'v) Recoverer \<Rightarrow> ('w, Result) go" where
  "step_ProcessOCSRemovalTemplate r =
     bind (deleteOldOSDRemovalJob r) (\<lambda>_.
     bind (getOSDPods r) (\<lambda>osdPods.
     bind (modify_status (\<lambda>st. st\<lparr>ForcedOSDRemoval := length osdPods \<le> 3\<rparr>)) (\<lambda>_.
     bind get_status (\<lambda>st.
     bind (getOSDIDsFromNodeDevices (NodeDevice st)) (\<lambda>ids.
     bind (processOCSOSDRemovalTemplate r ids (ForcedOSDRemoval st)) (\<lambda>_.
     go_to r CleanupOSDRemovalJob (requeue_after (10 * Second))))))))"

text \<open>The end of both job steps once the pod has succeeded.\<close>

definition finish_removal_job :: "('w, 'v) Recoverer \<Rightarrow> Pod \<Rightarrow> ('w, Result) go" where
  "finish_removal_job r pod =
     bind (onErr (validateJobLogs r (pod_Name pod))
            (\<lambda>e. bind (set_message (Error e)) (\<lambda>_. bind (set_phase FailedPhase) (\<lambda>_. throw e)))) (\<lambda>_.
     bind (deleteOldOSDRemovalJob r) (\<lambda>_.
     go_to r WaitForPersistenVolumeBound requeue))"

definition step_CleanupOSDRemovalJob ::
  "('w, 'v) Recoverer \<Rightarrow> RecoveryCondition \<Rightarrow> ('w, Result) go" where
  "step_CleanupOSDRemovalJob r latest =
     bind (onErr (getOSDRemovalPodJobCompletionStatus r) fail_message) (\<lambda>pod.
     if pod_Phase pod \<noteq> PodSucceeded then
       bind (time_Now (rc_Client r)) (\<lambda>now.
       if Before now (cond_LastTransitionTime latest + osdRemovalJobTimeout)
       then ret (requeue_after (10 * Second))
       else
         bind (emit (Eventf ''Warning'' ''Reconciliation''
                 (''OSD removal job timed out after '' @ fmt_minutes osdRemovalJobTimeout @
                  '' minutes. Retrying with '' @ FORCE_OSD_REMOVAL @ ''='' @ FormatBool enableForcedOSDRemoval) [])) (\<lambda>_.
         bind (deleteOldOSDRemovalJob r) (\<lambda>_.
         bind get_status (\<lambda>st.
         bind (getOSDIDsFromNodeDevices (NodeDevice st)) (\<lambda>ids.
         bind (processOCSOSDRemovalTemplate r ids enableForcedOSDRemoval) (\<lambda>_.
         bind (modify_status (\<lambda>st. st\<lparr>ForcedOSDRemoval := True\<rparr>)) (\<lambda>_.
         go_to r RetryForceCleanupOSDRemovalJob requeue)))))))
     else finish_removal_job r pod)"

definition step_RetryForceCleanupOSDRemovalJob ::
  "('w, 'v) Recoverer \<Rightarrow> RecoveryCondition \<Rightarrow> ('w, Result) go" where
  "step_RetryForceCleanupOSDRemovalJob r latest =
     bind (onErr (getOSDRemovalPodJobCompletionStatus r) fail_message) (\<lambda>pod.
     if pod_Phase pod \<noteq> PodSucceeded then
       bind (time_Now (rc_Client r)) (\<lambda>now.
       if Before now (cond_LastTransitionTime latest + osdRemovalJobTimeout)
       then ret (requeue_after (10 * Second))
       else
         bind (emit (Eventf ''Warning'' ''Reconciliation''
                 (''OSD removal job timed out after '' @ fmt_minutes osdRemovalJobTimeout @ '' minutes.'') [])) (\<lambda>_.
         bind (set_phase FailedPhase) (\<lambda>_.
         ret no_requeue)))
     else finish_removal_job r pod)"

definition step_WaitForPersistenVolumeBound :: "('w, 'v) Recoverer \<Rightarrow> ('w, Result) go" where
  "step_WaitForPersistenVolumeBound r =
     bind get_status (\<lambda>st.
     bind (foldM (\<lambda>errs p.
             bind (deref p) (\<lambda>nd.
             bind (getPVsForNode r (nd_NodeName nd)) (\<lambda>pvs.
             bind (processPVForNode r nd pvs) (\<lambda>err.
             ret (errors_Join [errs, err]))))) None (NodeDevice st)) (\<lambda>errs.
     case errs of
       Some e \<Rightarrow> bind (set_message (Error e)) (\<lambda>_. ret (requeue_after (15 * Second)))
     | None \<Rightarrow>
         (let expectedPVCs = length (OperationalOSDIDs st) + length (NodeDevice st) in
          bind (attempt (countPVCsBoundToODSPods r)) (\<lambda>counted.
          case counted of
            Inl e \<Rightarrow> bind (set_message (Error e)) (\<lambda>_. ret (requeue_after (15 * Second)))
          | Inr pvcs \<Rightarrow>
              (if pvcs < expectedPVCs then
                 bind (set_message (''expected to find '' @ digits expectedPVCs @
                         '' PVCs bound to OSD pods but found '' @ digits pvcs)) (\<lambda>_.
                 ret (requeue_after (15 * Second)))
               else go_to r RestartStorageOperator requeue)))))"

definition step_RestartStorageOperator :: "('w, 'v) Recoverer \<Rightarrow> ('w, Result) go" where
  "step_RestartStorageOperator r =
     bind get_status (\<lambda>st.
     bind (if PendingPods st \<or> CrashLoopBackOffPods st
           then onErr (deleteRookCephOperatorPod r) (fail_with FailedRestartODFOperator)
           else ret ()) (\<lambda>_.
     go_to r DeleteFailedPodsNodeAffinity (requeue_after (30 * Second))))"

definition step_DeleteFailedPodsNodeAffinity :: "('w, 'v) Recoverer \<Rightarrow> ('w, Result) go" where
  "step_DeleteFailedPodsNodeAffinity r =
     bind (onErr (deleteFailedPodsWithReasonNodeAffinity r) (fail_with FailedDeleteFailedPodsNodeAffinity)) (\<lambda>_.
     go_to r StorageClusterFitnessCheck requeue)"

definition step_StorageClusterFitnessCheck :: "('w, 'v) Recoverer \<Rightarrow> ('w, Result) go" where
  "step_StorageClusterFitnessCheck r =
     bind (onErr (getCephHealthStatus r) (fail_with FailedRetrieveCephHealthStatus)) (\<lambda>status.
     if status \<noteq> HEALTH_OK then
       bind (set_message (''Waiting for cluster to become healthy: '' @ status)) (\<lambda>_.
       bind (onErr (archiveCephDaemonCrashMessages r) (fail_with FailedArchiveCephDaemonCrashMessages)) (\<lambda>_.
       ret (requeue_after (15 * Second))))
     else go_to r DisableCephTools requeue)"

definition step_DisableCephTools :: "('w, 'v) Recoverer \<Rightarrow> ('w, unit) go" where
  "step_DisableCephTools r =
     bind get_status (\<lambda>st.
     bind (if \<not> KeepCephToolsPod st
           then onErr (disableCephTools r) (fail_with FailedDisableCephToolsPod)
           else ret ()) (\<lambda>_.
     IncrementCompletedOperandCounter))"

text \<open>What follows the switch.\<close>

definition complete_recovery :: "('w, 'v) Recoverer \<Rightarrow> ('w, Result) go" where
  "complete_recovery r =
     bind (set_phase CompletedPhase) (\<lambda>_.
     bind (time_Now (rc_Client r)) (\<lambda>now.
     bind (modify_status (\<lambda>st. st\<lparr>CompletionTime := Some now\<rparr>)) (\<lambda>_.
     bind get_status (\<lambda>st.
     bind (deref (StartTime st)) (\<lambda>start.
     bind (emit (Eventf ''Normal'' ''Reconciliation''
             ''Successfully completed recovering cluster in %s'' [time_Sub now start])) (\<lambda>_.
     bind (emit (CounterInc CompletedOperandInstances)) (\<lambda>_.
     ret no_requeue)))))))"

text \<open>The early return on a condition older than the reconciliation timeout.\<close>

definition time_out :: "RecoveryCondition \<Rightarrow> ('w, Result) go" where
  "time_out latest =
     bind (set_phase FailedPhase) (\<lambda>_.
     bind (emit (Eventf ''Error'' ''Reconciliation''
             (''failed to reconcile after retrying for 5 minutes: '' @ cond_Message latest) [])) (\<lambda>_.
     bind IncrementFailedNodeCounter (\<lambda>_.
     bind (emit (CounterInc (FailedOperandInstances (condition_string (cond_Type latest))))) (\<lambda>_.
     ret no_requeue))))"

definition run_step :: "('w, 'v) Recoverer \<Rightarrow> RecoveryCondition \<Rightarrow> ('w, Result) go" where
  "run_step r latest = (case cond_Type latest of
     EnableCephToolsPod \<Rightarrow> step_EnableCephToolsPod r
   | WaitForCephToolsPodRunning \<Rightarrow> step_WaitForCephToolsPodRunning r
   | WaitForOSDPodsStabilize \<Rightarrow> step_WaitForOSDPodsStabilize r
   | LabelNodesWithPendingPods \<Rightarrow> step_LabelNodesWithPendingPods r
   | ManageCrashLoopBackOffPods \<Rightarrow> step_ManageCrashLoopBackOffPods r
   | ForceDeleteRookCephOSDPods \<Rightarrow> step_ForceDeleteRookCephOSDPods r
   | ProcessOCSRemovalTemplate \<Rightarrow> step_ProcessOCSRemovalTemplate r
   | CleanupOSDRemovalJob \<Rightarrow> step_CleanupOSDRemovalJob r latest
   | RetryForceCleanupOSDRemovalJob \<Rightarrow> step_RetryForceCleanupOSDRemovalJob r latest
   | WaitForPersistenVolumeBound \<Rightarrow> step_WaitForPersistenVolumeBound r
   | RestartStorageOperator \<Rightarrow> step_RestartStorageOperator r
   | DeleteFailedPodsNodeAffinity \<Rightarrow> step_DeleteFailedPodsNodeAffinity r
   | StorageClusterFitnessCheck \<Rightarrow> step_StorageClusterFitnessCheck r
   | DisableCephTools \<Rightarrow> bind (step_DisableCephTools r) (\<lambda>_. complete_recovery r)
   | OtherCondition _ \<Rightarrow> complete_recovery r)"

definition Reconcile :: "('w, 'v) Recoverer \<Rightarrow> ('w, Result) go" where
  "Reconcile r =
     bind (getLatestCondition (rc_Client r)) (\<lambda>latest.
     bind (time_Now (rc_Client r)) (\<lambda>now.
     if After now (cond_LastTransitionTime latest + reconciliationTimeout)
     then time_out latest
     else run_step r latest))"

end
