(* ===== verification/Controller.thy ===== *)
theory Controller
  imports Reconciler
begin

text \<open>
  The controller, \<open>src/internal/controller/noderecovery_controller.go\<close>: the reconciler's
  struct, \<open>(*NodeRecoveryReconciler).Reconcile\<close>, which loads the object, starts it, runs one
  recovery step and stores the status, and \<open>SetupWithManager\<close>.
\<close>

section \<open>Reconcile\<close>

record ('w, 'v) NodeRecoveryReconciler =
  nrr_Client :: "('w, 'v) external"
  nrr_CmdRunner :: "Pod \<Rightarrow> string list \<Rightarrow> ('w, string \<times> string) go"
  nrr_LogClient :: "string \<Rightarrow> ('w, string) go"

definition first_condition :: "time \<Rightarrow> RecoveryCondition" where
  "first_condition t =
     \<lparr>cond_Type = EnableCephToolsPod, cond_LastProbeTime = 0, cond_LastTransitionTime = t,
      cond_Reason = NoReason, cond_Message = [], cond_Status = StatusTrue\<rparr>"

definition start_recovery :: "('w, 'v) external \<Rightarrow> ('w, unit) go" where
  "start_recovery c =
     bind get_status (\<lambda>st.
     if IsZero (StartTime st) then
       bind (time_Now c) (\<lambda>t.
       bind (modify_status (\<lambda>st. st\<lparr>StartTime := Some t, Phase := RunningPhase\<rparr>)) (\<lambda>_.
       bind (time_Now c) (\<lambda>t2.
       bind (modify_status (\<lambda>st. st\<lparr>Conditions := Conditions st @ [first_condition t2]\<rparr>)) (\<lambda>_.
       emit (CounterInc TotalOperandInstances)))))
     else ret ())"

text \<open>
  The value is the \<open>ctrl.Result\<close> with the returned error: a failed step still stores the
  status, and both errors are joined. A panic of the step leaves the status unstored.
\<close>

definition controller_Reconcile ::
  "('w, 'v) NodeRecoveryReconciler \<Rightarrow> NamespacedName \<Rightarrow> ('w, Result \<times> go_error option) go" where
  "controller_Reconcile nrr req =
     (let c = nrr_Client nrr in
      bind (attempt (call (GetCall KNodeRecovery req) (Get_NodeRecovery c req))) (\<lambda>got.
      case got of
        Inl e \<Rightarrow> (if IsNotFound c e then ret (no_requeue, None) else ret (no_requeue, Some e))
      | Inr instance' \<Rightarrow>
          bind (modify (\<lambda>s. s\<lparr>inst := instance'\<rparr>)) (\<lambda>_.
          if \<not> IsZero (nr_DeletionTimestamp instance') then ret (no_requeue, None)
          else if Phase (Status instance') = FailedPhase \<or> Phase (Status instance') = CompletedPhase
          then ret (no_requeue, None)
          else
            bind (start_recovery c) (\<lambda>_.
            case newNodeRecoveryReconciler c (nrr_CmdRunner nrr) (nrr_LogClient nrr) of
              Inl e \<Rightarrow> ret (no_requeue, Some e)
            | Inr recoverer \<Rightarrow>
                bind (attempt (Reconcile recoverer)) (\<lambda>out.
                bind (gets inst) (\<lambda>i.
                bind (attempt (call (UpdateStatus i) (Update_Status c i))) (\<lambda>stored.
                ret (case out of Inl _ \<Rightarrow> no_requeue | Inr res \<Rightarrow> res,
                     errors_Join [sum_err out, sum_err stored]))))))))"

text \<open>The reconciler that \<open>main\<close> builds, once it has a log retriever.\<close>

definition wired_controller :: "('w, 'v) external \<Rightarrow> ('w, 'v) NodeRecoveryReconciler" where
  "wired_controller c =
     \<lparr>nrr_Client = c, nrr_CmdRunner = NewRemoteExecutor c, nrr_LogClient = LogClient_GetLogs c ODF_NAMESPACE\<rparr>"

lemma wired_controller_recoverer:
  "newNodeRecoveryReconciler (nrr_Client (wired_controller c)) (nrr_CmdRunner (wired_controller c))
     (nrr_LogClient (wired_controller c)) = Inr (wired c)"
  by (simp add: newNodeRecoveryReconciler_def wired_controller_def wired_def NewRemoteExecutor_def)

section \<open>SetupWithManager\<close>

text \<open>
  The manager is a parameter: \<open>index_field\<close> and \<open>complete\<close> answer the two registrations
  of a field index and the registration of the controller with its \<open>Reconcile\<close>, and record what was
  registered.
  The index functions themselves are the operator's: they give the phase of a pod and of a
  claim, and nothing for an object of another type.
\<close>

datatype client_object = OPod Pod | OPVC PersistentVolumeClaim | OOther

definition index_pod_phase :: "client_object \<Rightarrow> string list" where
  "index_pod_phase rawObj = (case rawObj of OPod p \<Rightarrow> [pod_Phase p] | _ \<Rightarrow> [])"

definition index_pvc_phase :: "client_object \<Rightarrow> string list" where
  "index_pvc_phase rawObj = (case rawObj of OPVC p \<Rightarrow> [pvc_Phase p] | _ \<Rightarrow> [])"

record ('m, 'w) manager =
  IndexField :: "kind \<Rightarrow> string \<Rightarrow> (client_object \<Rightarrow> string list) \<Rightarrow> 'm \<Rightarrow> go_error + 'm"
  Complete ::
    "kind \<Rightarrow> string \<Rightarrow> kind \<Rightarrow> (NamespacedName \<Rightarrow> ('w, Result \<times> go_error option) go) \<Rightarrow> 'm \<Rightarrow> go_error + 'm"

definition SetupWithManager ::
  "('w, 'v) NodeRecoveryReconciler \<Rightarrow> ('m, 'w) manager \<Rightarrow> 'm \<Rightarrow> go_error + 'm" where
  "SetupWithManager r mgr m =
     (case IndexField mgr KPod podStatusPhaseFieldSelector index_pod_phase m of
        Inl e \<Rightarrow> Inl e
      | Inr m1 \<Rightarrow>
         (case IndexField mgr KPersistentVolumeClaim pvcStatusPhaseFieldSelector index_pvc_phase m1 of
            Inl e \<Rightarrow> Inl e
          | Inr m2 \<Rightarrow>
              Complete mgr KNodeRecovery ''GenerationChangedPredicate'' KNodeRecovery (controller_Reconcile r) m2))"

end
