(* ===== verification/Recovery_Machine.thy ===== *)
theory Recovery_Machine
  imports Reconciler
begin

text \<open>
  The recovery as an abstract machine, and the well-formedness of a status that refines it.
  \<open>edge\<close> is the graph of the conditions, \<open>rank\<close> orders them, \<open>recovery_step\<close> is a step of the
  machine on a phase and a history of conditions. \<open>wf_status\<close> is the invariant of the
  status, and \<open>handled\<close> is the contract of one step of the reconciler on it.
\<close>

section \<open>The graph of the conditions\<close>

inductive edge :: "RecoveryConditionType \<Rightarrow> RecoveryConditionType \<Rightarrow> bool" where
  "edge EnableCephToolsPod WaitForCephToolsPodRunning"
| "edge WaitForCephToolsPodRunning WaitForOSDPodsStabilize"
| "edge WaitForOSDPodsStabilize LabelNodesWithPendingPods"
| "edge LabelNodesWithPendingPods ManageCrashLoopBackOffPods"
| "edge ManageCrashLoopBackOffPods RestartStorageOperator"
| "edge ManageCrashLoopBackOffPods ForceDeleteRookCephOSDPods"
| "edge ForceDeleteRookCephOSDPods ForceDeleteRookCephOSDPods"
| "edge ForceDeleteRookCephOSDPods ProcessOCSRemovalTemplate"
| "edge ProcessOCSRemovalTemplate CleanupOSDRemovalJob"
| "edge CleanupOSDRemovalJob RetryForceCleanupOSDRemovalJob"
| "edge CleanupOSDRemovalJob WaitForPersistenVolumeBound"
| "edge RetryForceCleanupOSDRemovalJob WaitForPersistenVolumeBound"
| "edge WaitForPersistenVolumeBound RestartStorageOperator"
| "edge RestartStorageOperator DeleteFailedPodsNodeAffinity"
| "edge DeleteFailedPodsNodeAffinity StorageClusterFitnessCheck"
| "edge StorageClusterFitnessCheck DisableCephTools"

declare edge.intros [simp, intro]

inductive_simps edge_from [simp]:
  "edge EnableCephToolsPod t"
  "edge WaitForCephToolsPodRunning t"
  "edge WaitForOSDPodsStabilize t"
  "edge LabelNodesWithPendingPods t"
  "edge ManageCrashLoopBackOffPods t"
  "edge ForceDeleteRookCephOSDPods t"
  "edge ProcessOCSRemovalTemplate t"
  "edge CleanupOSDRemovalJob t"
  "edge RetryForceCleanupOSDRemovalJob t"
  "edge WaitForPersistenVolumeBound t"
  "edge RestartStorageOperator t"
  "edge DeleteFailedPodsNodeAffinity t"
  "edge StorageClusterFitnessCheck t"
  "edge DisableCephTools t"
  "edge (OtherCondition x) t"

fun rank :: "RecoveryConditionType \<Rightarrow> nat" where
  "rank EnableCephToolsPod = 0"
| "rank WaitForCephToolsPodRunning = 1"
| "rank WaitForOSDPodsStabilize = 2"
| "rank LabelNodesWithPendingPods = 3"
| "rank ManageCrashLoopBackOffPods = 4"
| "rank ForceDeleteRookCephOSDPods = 5"
| "rank ProcessOCSRemovalTemplate = 6"
| "rank CleanupOSDRemovalJob = 7"
| "rank RetryForceCleanupOSDRemovalJob = 8"
| "rank WaitForPersistenVolumeBound = 9"
| "rank RestartStorageOperator = 10"
| "rank DeleteFailedPodsNodeAffinity = 11"
| "rank StorageClusterFitnessCheck = 12"
| "rank DisableCephTools = 13"
| "rank (OtherCondition s) = 14"

lemma edge_rank: "edge t u \<Longrightarrow> rank t < rank u \<or> (t = ForceDeleteRookCephOSDPods \<and> u = t)"
  by (cases rule: edge.cases) auto

lemma edge_rank_le: "edge t u \<Longrightarrow> rank t \<le> rank u"
  using edge_rank by fastforce

lemma edge_declared: "edge t u \<Longrightarrow> rank u \<le> 13"
  by (cases rule: edge.cases) auto

section \<open>Histories\<close>

definition legal_history :: "RecoveryConditionType list \<Rightarrow> bool" where
  "legal_history ts \<longleftrightarrow> ts \<noteq> [] \<and> hd ts = EnableCephToolsPod \<and> successively edge ts"

lemma legal_history_start [simp]: "legal_history [EnableCephToolsPod]"
  by (simp add: legal_history_def)

lemma legal_history_snoc [simp]:
  "ts \<noteq> [] \<Longrightarrow> legal_history (ts @ [t]) \<longleftrightarrow> legal_history ts \<and> edge (last ts) t"
  by (auto simp: legal_history_def successively_append_iff)

lemma legal_history_not_Nil [simp]: "\<not> legal_history []"
  by (simp add: legal_history_def)

lemma legal_history_induct [consumes 1, case_names start extend]:
  assumes "legal_history ts"
    and "P [EnableCephToolsPod]"
    and "\<And>ts t. legal_history ts \<Longrightarrow> P ts \<Longrightarrow> edge (last ts) t \<Longrightarrow> P (ts @ [t])"
  shows "P ts"
  using assms(1)
proof (induction ts rule: rev_induct)
  case Nil
  then show ?case by simp
next
  case (snoc t ts)
  show ?case
  proof (cases "ts = []")
    case True
    with snoc.prems assms(2) show ?thesis by (simp add: legal_history_def)
  next
    case False
    with snoc assms(3) show ?thesis by simp
  qed
qed

text \<open>The last condition has the highest rank.\<close>

lemma legal_history_rank: "legal_history ts \<Longrightarrow> t \<in> set ts \<Longrightarrow> rank t \<le> rank (last ts)"
  by (induction arbitrary: t rule: legal_history_induct) (auto dest!: edge_rank_le intro: order_trans)

lemma legal_history_rank_notin: "legal_history ts \<Longrightarrow> rank (last ts) < rank t \<Longrightarrow> t \<notin> set ts"
  using legal_history_rank leD by blast

lemma legal_history_declared: "legal_history ts \<Longrightarrow> rank (last ts) \<le> 13"
  by (induction rule: legal_history_induct) (auto dest: edge_declared)

lemma legal_history_no_other: "legal_history ts \<Longrightarrow> OtherCondition x \<notin> set ts"
  using legal_history_declared legal_history_rank_notin by fastforce

section \<open>The abstract machine\<close>

record machine =
  m_phase :: RecoveryPhase
  m_history :: "RecoveryConditionType list"

definition machine_of :: "NodeRecoveryStatus \<Rightarrow> machine" where
  "machine_of st = \<lparr>m_phase = Phase st, m_history = cond_types st\<rparr>"

inductive recovery_step :: "machine \<Rightarrow> machine \<Rightarrow> bool" where
  wait: "m_phase m = RunningPhase \<Longrightarrow> recovery_step m m"
| advance: "m_phase m = RunningPhase \<Longrightarrow> edge (last (m_history m)) t \<Longrightarrow>
     recovery_step m (m\<lparr>m_history := m_history m @ [t]\<rparr>)"
| fail: "m_phase m = RunningPhase \<Longrightarrow> recovery_step m (m\<lparr>m_phase := FailedPhase\<rparr>)"
| complete: "m_phase m = RunningPhase \<Longrightarrow> last (m_history m) = DisableCephTools \<Longrightarrow>
     recovery_step m (m\<lparr>m_phase := CompletedPhase\<rparr>)"

inductive_cases recovery_stepE: "recovery_step m m'"

section \<open>Well-formed statuses\<close>

definition conditions_wf :: "RecoveryCondition list \<Rightarrow> bool" where
  "conditions_wf cs \<longleftrightarrow>
     cs \<noteq> [] \<and> cond_Status (last cs) = StatusTrue \<and> (\<forall>c\<in>set (butlast cs). cond_Status c = StatusFalse)"

definition devices_wf :: "NodeRecoveryStatus \<Rightarrow> bool" where
  "devices_wf st \<longleftrightarrow>
     None \<notin> set (NodeDevice st) \<and>
     (if ForceDeleteRookCephOSDPods \<in> set (cond_types st)
      then CrashLoopBackOffPods st \<and> NodeDevice st \<noteq> [] else NodeDevice st = [])"

definition wf_status :: "NodeRecoveryStatus \<Rightarrow> bool" where
  "wf_status st \<longleftrightarrow>
     conditions_wf (Conditions st) \<and> legal_history (cond_types st) \<and> devices_wf st \<and>
     (RetryForceCleanupOSDRemovalJob \<in> set (cond_types st) \<longrightarrow> ForcedOSDRemoval st) \<and>
     Phase st \<noteq> PhaseUnset \<and> StartTime st \<noteq> None \<and>
     (Phase st = CompletedPhase \<longleftrightarrow> CompletionTime st \<noteq> None) \<and>
     (Phase st = CompletedPhase \<longrightarrow> current_type st = DisableCephTools)"

text \<open>The current condition is the only one that is \<open>True\<close>.\<close>

lemma conditions_wf_filter:
  "conditions_wf cs \<Longrightarrow> filter (\<lambda>c. cond_Status c = StatusTrue) cs = [last cs]"
  by (cases cs rule: rev_cases) (auto simp: conditions_wf_def filter_empty_conv)

lemma conditions_wf_update_last:
  "conditions_wf cs \<Longrightarrow> (\<And>l. cond_Status (f l) = cond_Status l) \<Longrightarrow> conditions_wf (update_last f cs)"
  by (simp add: conditions_wf_def)

lemma conditions_wf_push:
  "cs \<noteq> [] \<Longrightarrow> conditions_wf cs \<Longrightarrow> cond_Status cd = StatusTrue \<Longrightarrow>
   conditions_wf (update_last (\<lambda>l. l\<lparr>cond_Status := StatusFalse\<rparr>) cs @ [cd])"
  by (cases cs rule: rev_cases) (auto simp: conditions_wf_def butlast_append)

lemma last_cond_types: "Conditions st \<noteq> [] \<Longrightarrow> last (cond_types st) = current_type st"
  by (simp add: last_map)

lemma wf_status_conditions [simp]: "wf_status st \<Longrightarrow> Conditions st \<noteq> []"
  by (simp add: wf_status_def conditions_wf_def)

section \<open>The contract of a step\<close>

text \<open>
  From a well-formed running status, a step that returns (with or without an error) leaves
  a well-formed status. It moves at most one condition forward along \<open>edge\<close>, never on an
  error and never together with a change of phase. It completes only from \<open>DisableCephTools\<close>.
  Without an error, a recovery that goes on is queued again and one that has ended is not.
\<close>

definition moves :: "NodeRecoveryStatus \<Rightarrow> NodeRecoveryStatus \<Rightarrow> bool" where
  "moves st st' \<longleftrightarrow>
     Phase st' = RunningPhase \<and> (\<exists>t. edge (current_type st) t \<and> cond_types st' = cond_types st @ [t])"

definition stays :: "NodeRecoveryStatus \<Rightarrow> NodeRecoveryStatus \<Rightarrow> bool" where
  "stays st st' \<longleftrightarrow>
     cond_types st' = cond_types st \<and>
     map cond_LastTransitionTime (Conditions st') = map cond_LastTransitionTime (Conditions st)"

definition handled ::
  "NodeRecoveryStatus \<Rightarrow> (go_error, Result) result \<Rightarrow> NodeRecoveryStatus \<Rightarrow> bool" where
  "handled st res st' \<longleftrightarrow> (case res of
     Panic _ \<Rightarrow> True
   | Err _ \<Rightarrow> wf_status st' \<and> StartTime st' = StartTime st \<and> stays st st' \<and> Phase st' \<in> {RunningPhase, FailedPhase}
   | Ok out \<Rightarrow>
       wf_status st' \<and> StartTime st' = StartTime st \<and> (stays st st' \<or> moves st st') \<and>
       (if Phase st' = RunningPhase then Requeue out \<or> 0 < RequeueAfter out else out = no_requeue))"

locale step_contract =
  fixes step :: "('w, Result) go" and ty :: RecoveryConditionType
  assumes handles:
    "wf_status (Status (inst s)) \<Longrightarrow> Phase (Status (inst s)) = RunningPhase \<Longrightarrow>
     current_type (Status (inst s)) = ty \<Longrightarrow>
     wp step (\<lambda>res s'. handled (Status (inst s)) res (Status (inst s'))) s"

section \<open>Preservation lemmas\<close>

text \<open>The three updates the steps make: to the last condition, to the flags, and a transition.\<close>

lemma wf_status_set_latest:
  assumes "wf_status st" and "\<And>l. cond_Status (f l) = cond_Status l" and "\<And>l. cond_Type (f l) = cond_Type l"
  shows "wf_status (set_latest f st)"
proof -
  have "conditions_wf (update_last f (Conditions st))"
    using assms by (auto simp: wf_status_def intro: conditions_wf_update_last)
  moreover have "cond_types (set_latest f st) = cond_types st"
    using assms(3) by (rule cond_types_set_latest)
  ultimately show ?thesis
    using assms by (simp add: wf_status_def devices_wf_def)
qed

lemma stays_set_latest:
  assumes "\<And>l. cond_Type (f l) = cond_Type l" and "\<And>l. cond_LastTransitionTime (f l) = cond_LastTransitionTime l"
  shows "stays st (set_latest f st)"
  using assms by (simp add: stays_def map_update_last_same)

lemma wf_status_push:
  assumes "wf_status st" and "Phase st = RunningPhase" and "edge (current_type st) t"
    and "t = ForceDeleteRookCephOSDPods \<Longrightarrow> CrashLoopBackOffPods st \<and> NodeDevice st \<noteq> []"
    and "t = RetryForceCleanupOSDRemovalJob \<Longrightarrow> ForcedOSDRemoval st"
  shows "wf_status (push_condition (new_condition t a b) st)"
proof -
  have "conditions_wf (Conditions (push_condition (new_condition t a b) st))"
    using assms(1) by (auto simp: wf_status_def intro: conditions_wf_push)
  moreover have "legal_history (cond_types (push_condition (new_condition t a b) st))"
    using assms(1,3) wf_status_conditions [OF assms(1)]
    by (simp only: cond_types_push) (simp add: wf_status_def last_cond_types)
  ultimately show ?thesis
    using assms by (auto simp: wf_status_def devices_wf_def map_update_last_same)
qed

end
