(* ===== verification/Step_Contracts.thy ===== *)
theory Step_Contracts
  imports Recovery_Machine
begin

text \<open>
  Every step of \<open>Reconcile\<close> keeps the contract \<open>step_contract\<close> of \<open>Recovery_Machine\<close>, and so
  does \<open>Reconcile\<close> itself. The operations a step calls leave the object in memory alone, so
  a step is a sequence of three kinds of update of the status: flags, the reason and message
  of the last condition, and a transition.
\<close>

section \<open>Rules for the proofs\<close>

abbreviation framed :: "('w, 'a) go \<Rightarrow> bool" where
  "framed \<equiv> footprint (\<lambda>_. True)"

lemma reads_True [simp]: "reads (\<lambda>_. True)"
  by (simp add: reads_def)

lemma wp_framed:
  assumes "framed m" and "\<And>r s'. inst s' = inst s \<Longrightarrow> Q r s'"
  shows "wp m Q s"
  using assms(1) by (rule wp_footprint) (rule assms(2))

lemma wp_fail_with [wp_simps]:
  "wp (fail_with rs e) Q s =
     Q (Err e) (s\<lparr>inst := (inst s)\<lparr>Status :=
       set_latest (\<lambda>l. l\<lparr>cond_Reason := rs, cond_Message := Error e\<rparr>) (Status (inst s))\<rparr>\<rparr>)"
  by (simp add: fail_with_def wp_simps)

lemma wp_fail_message [wp_simps]:
  "wp (fail_message e) Q s =
     Q (Err e) (s\<lparr>inst := (inst s)\<lparr>Status :=
       set_latest (\<lambda>l. l\<lparr>cond_Message := Error e\<rparr>) (Status (inst s))\<rparr>\<rparr>)"
  by (simp add: fail_message_def wp_simps)

lemma wp_set_phase [wp_simps]:
  "wp (set_phase p) Q s = Q (Ok ()) (s\<lparr>inst := (inst s)\<lparr>Status := (Status (inst s))\<lparr>Phase := p\<rparr>\<rparr>\<rparr>)"
  by (simp add: set_phase_def wp_simps)

lemma wp_go_to:
  assumes "Conditions (Status (inst s)) \<noteq> []"
    and "\<And>w t1 t2. Q (Ok out) (s\<lparr>world := w, inst := (inst s)\<lparr>Status :=
            push_condition (new_condition ty t1 t2) (Status (inst s))\<rparr>\<rparr>)"
  shows "wp (go_to r ty out) Q s"
  unfolding go_to_def wp_bind
  by (rule wp_transitionNextCondition [OF assms(1)]) (simp add: wp_ret assms(2))

text \<open>\<open>st1\<close> is \<open>st\<close> with changed flags, reasons or messages: what a step may do before it moves.\<close>

definition flagged :: "NodeRecoveryStatus \<Rightarrow> NodeRecoveryStatus \<Rightarrow> bool" where
  "flagged st st1 \<longleftrightarrow>
     wf_status st1 \<and> StartTime st1 = StartTime st \<and> Phase st1 = RunningPhase \<and> stays st st1"

lemma stays_refl [simp]: "stays st st"
  by (simp add: stays_def)

lemma stays_current: "stays st st1 \<Longrightarrow> Conditions st1 \<noteq> [] \<Longrightarrow> current_type st1 = current_type st"
  by (metis last_cond_types map_is_Nil_conv stays_def)

lemma flagged_conditions: "flagged st st1 \<Longrightarrow> Conditions st1 \<noteq> []"
  by (auto simp: flagged_def dest: wf_status_conditions)

lemma flagged_set_latest:
  assumes "flagged st st1" and "\<And>l. cond_Status (f l) = cond_Status l"
    and "\<And>l. cond_Type (f l) = cond_Type l" and "\<And>l. cond_LastTransitionTime (f l) = cond_LastTransitionTime l"
  shows "flagged st (set_latest f st1)"
  using assms wf_status_set_latest [of st1 f] by (simp add: flagged_def stays_def map_update_last_same)

lemma handled_panic: "handled st (Panic p) st'"
  by (simp add: handled_def)

lemma handled_err: "flagged st st1 \<Longrightarrow> handled st (Err e) st1"
  by (auto simp: flagged_def handled_def)

lemma handled_wait:
  "flagged st st1 \<Longrightarrow> Requeue out \<or> 0 < RequeueAfter out \<Longrightarrow> handled st (Ok out) st1"
  by (auto simp: flagged_def handled_def)

lemma handled_move:
  assumes "flagged st st1" and "Requeue out \<or> 0 < RequeueAfter out" and "edge (current_type st) t"
    and "t = ForceDeleteRookCephOSDPods \<Longrightarrow> CrashLoopBackOffPods st1 \<and> NodeDevice st1 \<noteq> []"
    and "t = RetryForceCleanupOSDRemovalJob \<Longrightarrow> ForcedOSDRemoval st1"
  shows "handled st (Ok out) (push_condition (new_condition t a b) st1)"
proof -
  have "current_type st1 = current_type st"
    using assms(1) flagged_conditions [OF assms(1)] by (auto simp: flagged_def intro: stays_current)
  then have "wf_status (push_condition (new_condition t a b) st1)"
    using assms by (auto simp: flagged_def intro!: wf_status_push)
  moreover have "moves st (push_condition (new_condition t a b) st1)"
    using assms(1,3) by (auto simp: flagged_def moves_def stays_def map_update_last_same)
  ultimately show ?thesis using assms(1,2) by (simp add: handled_def flagged_def)
qed

lemma stays_Phase [simp]: "stays st (st1\<lparr>Phase := p\<rparr>) = stays st st1"
  by (simp add: stays_def)

lemma stays_CompletionTime [simp]: "stays st (st1\<lparr>CompletionTime := t\<rparr>) = stays st st1"
  by (simp add: stays_def)

lemma wf_status_failed:
  "wf_status st1 \<Longrightarrow> Phase st1 = RunningPhase \<Longrightarrow> wf_status (st1\<lparr>Phase := FailedPhase\<rparr>)"
  by (simp add: wf_status_def devices_wf_def)

lemma wf_status_completed:
  "wf_status st1 \<Longrightarrow> current_type st1 = DisableCephTools \<Longrightarrow>
   wf_status (st1\<lparr>Phase := CompletedPhase, CompletionTime := Some t\<rparr>)"
  by (simp add: wf_status_def devices_wf_def)

lemma handled_failed_err: "flagged st st1 \<Longrightarrow> handled st (Err e) (st1\<lparr>Phase := FailedPhase\<rparr>)"
  by (simp add: flagged_def handled_def wf_status_failed)

lemma handled_failed_ok: "flagged st st1 \<Longrightarrow> handled st (Ok no_requeue) (st1\<lparr>Phase := FailedPhase\<rparr>)"
  by (simp add: flagged_def handled_def wf_status_failed)

lemma handled_completed:
  assumes "flagged st st1" and "current_type st = DisableCephTools"
  shows "handled st (Ok no_requeue) (st1\<lparr>Phase := CompletedPhase, CompletionTime := Some t\<rparr>)"
proof -
  have "current_type st1 = DisableCephTools"
    using assms flagged_conditions [OF assms(1)] by (auto simp: flagged_def dest: stays_current)
  then show ?thesis
    using assms(1) by (simp add: flagged_def handled_def wf_status_completed)
qed

lemma requeue_sel [simp]: "Requeue requeue" "RequeueAfter (requeue_after d) = d" "\<not> Requeue (requeue_after d)"
  "RequeueAfter requeue = 0"
  by (simp_all add: requeue_def requeue_after_def)

lemma Second_pos [simp]: "0 < Second"
  by (simp add: Second_def)

lemmas handled_intros =
  handled_panic handled_failed_err handled_failed_ok handled_completed handled_move flagged_set_latest

section \<open>The steps\<close>

lemmas framed_ops =
  footprint_isCephToolsEnabled footprint_setEnableCephToolsValue footprint_getCephToolsPodPhase
  footprint_hasPods footprint_getPodsInPendingPhase footprint_labelNodes
  footprint_getOSDPodsInOperational footprint_handleCrashLoopBackOffPods
  footprint_getOSDIDsFromNodeDevices footprint_getOSDPodsWithID footprint_forceDeleteRookCephOSDPods
  footprint_deleteOldOSDRemovalJob footprint_getOSDPods footprint_processOCSOSDRemovalTemplate
  footprint_getOSDRemovalPod footprint_getPVsForNode footprint_processPVForNode footprint_countPVCs
  footprint_deleteRookCephOperatorPod footprint_deleteFailedPods
  footprint_IncrementFailedNodeCounter footprint_IncrementCompletedOperandCounter
  footprint_time_Now footprint_emit

lemmas wp_ops = framed_ops [THEN wp_framed]

text \<open>The flags a step sets keep the status well-formed.\<close>

lemma flagged_flags:
  assumes "wf_status st" and "Phase st = RunningPhase"
  shows "flagged st st"
    and "flagged st (st\<lparr>KeepCephToolsPod := k\<rparr>)"
    and "flagged st (st\<lparr>PendingPods := k\<rparr>)"
    and "flagged st (st\<lparr>CrashLoopBackOffPods := True\<rparr>)"
    and "flagged st (st\<lparr>OperationalOSDIDs := ids, CrashLoopBackOffPods := True\<rparr>)"
    and "flagged st (st\<lparr>ForcedOSDRemoval := True\<rparr>)"
  using assms by (auto simp: flagged_def wf_status_def devices_wf_def stays_def)

text \<open>Before the removal job is retried, the forced flag may take either value.\<close>

lemma flagged_ForcedOSDRemoval:
  assumes "wf_status st" and "Phase st = RunningPhase" and "current_type st = ProcessOCSRemovalTemplate"
  shows "flagged st (st\<lparr>ForcedOSDRemoval := b\<rparr>)"
proof -
  have "RetryForceCleanupOSDRemovalJob \<notin> set (cond_types st)"
    using assms by (intro legal_history_rank_notin) (auto simp: wf_status_def last_cond_types)
  with assms show ?thesis by (auto simp: flagged_def wf_status_def devices_wf_def stays_def)
qed

interpretation step_EnableCephToolsPod: step_contract "step_EnableCephToolsPod r" EnableCephToolsPod
  for r :: "('w, 'v) Recoverer"
  unfolding step_contract_def step_EnableCephToolsPod_def enableCephTools_def
  by (auto simp: wp_simps intro!: wp_ops wp_go_to handled_intros flagged_flags
      intro: handled_err handled_wait split: result.split)

interpretation step_WaitForCephToolsPodRunning: step_contract "step_WaitForCephToolsPodRunning r" WaitForCephToolsPodRunning
  for r :: "('w, 'v) Recoverer"
  unfolding step_contract_def step_WaitForCephToolsPodRunning_def
  by (auto simp: wp_simps intro!: wp_ops wp_go_to handled_intros flagged_flags
      intro: handled_err handled_wait split: result.split)

interpretation step_WaitForOSDPodsStabilize: step_contract "step_WaitForOSDPodsStabilize r" WaitForOSDPodsStabilize
  for r :: "('w, 'v) Recoverer"
  unfolding step_contract_def step_WaitForOSDPodsStabilize_def
  by (auto simp: wp_simps intro!: wp_ops wp_go_to handled_intros flagged_flags
      intro: handled_err handled_wait split: result.split option.split)

interpretation step_LabelNodesWithPendingPods: step_contract "step_LabelNodesWithPendingPods r" LabelNodesWithPendingPods
  for r :: "('w, 'v) Recoverer"
  unfolding step_contract_def step_LabelNodesWithPendingPods_def
  by (auto simp: wp_simps intro!: wp_ops wp_go_to handled_intros flagged_flags
      intro: handled_err handled_wait split: result.split)

text \<open>A normal return of \<open>handleCrashLoopBackOffPods\<close> has one device per pod, none of them nil.\<close>

lemma handle_crash_pod_Ok:
  "handle_crash_pod r acc p s = (Ok b, s') \<Longrightarrow> \<exists>nd. b = acc @ [Some nd]"
  by (auto simp: handle_crash_pod_def bind_eq_Ok run_simps(1-3) deref_def split: option.splits)

lemma foldM_devices:
  assumes "foldM (handle_crash_pod r) acc pods s = (Ok nds, s')" and "None \<notin> set acc"
  shows "None \<notin> set nds \<and> length nds = length acc + length pods"
  using assms
proof (induction pods arbitrary: acc s)
  case Nil
  then show ?case by (simp add: ret_def)
next
  case (Cons p pods)
  then show ?case
    by (fastforce simp: bind_eq_Ok dest: handle_crash_pod_Ok)
qed

lemma wp_handleCrashLoopBackOffPods:
  assumes "\<And>e s'. inst s' = inst s \<Longrightarrow> Q (Err e) s'" and "\<And>p s'. inst s' = inst s \<Longrightarrow> Q (Panic p) s'"
    and "\<And>nds c s'. inst s' = inst s \<Longrightarrow> None \<notin> set nds \<Longrightarrow> length nds = length pods \<Longrightarrow> Q (Ok (nds, c)) s'"
  shows "wp (handleCrashLoopBackOffPods r pods) Q s"
proof (rule wpI)
  fix res s'
  assume run: "handleCrashLoopBackOffPods r pods s = (res, s')"
  then have "inst s' = inst s"
    using upholdsD [OF footprint_handleCrashLoopBackOffPods [of "\<lambda>_. True"] run] by (simp add: grows_frame_def)
  moreover have "None \<notin> set nds \<and> length nds = length pods" if "res = Ok (nds, c)" for nds c
    using run that foldM_devices [of r "[]" pods s nds]
    by (auto simp: handleCrashLoopBackOffPods_def bind_eq_Ok ret_def)
  ultimately show "Q res s'"
    using assms by (cases res) auto
qed

text \<open>The devices are recorded together with the transition.\<close>

lemma handled_devices:
  assumes "wf_status st" and "Phase st = RunningPhase" and "current_type st = ManageCrashLoopBackOffPods"
    and "Conditions st1 = Conditions st" and "Phase st1 = RunningPhase" and "StartTime st1 = StartTime st"
    and "CompletionTime st1 = CompletionTime st" and "ForcedOSDRemoval st1 = ForcedOSDRemoval st"
    and "CrashLoopBackOffPods st1" and "None \<notin> set (NodeDevice st1)" and "NodeDevice st1 \<noteq> []"
  shows "handled st (Ok (requeue_after (15 * Second)))
           (push_condition (new_condition ForceDeleteRookCephOSDPods a b) st1)"
proof -
  let ?new = "push_condition (new_condition ForceDeleteRookCephOSDPods a b)"
  have "legal_history (cond_types (?new st1))"
    using assms(1,3,4) wf_status_conditions [OF assms(1)]
    by (simp only: cond_types_push) (simp add: wf_status_def last_cond_types)
  moreover have "conditions_wf (Conditions (?new st1))"
    using assms(1,4) by (auto simp: wf_status_def intro!: conditions_wf_push)
  ultimately have "wf_status (?new st1)"
    using assms by (auto simp: wf_status_def devices_wf_def map_update_last_same)
  moreover have "moves st (?new st1)"
    using assms by (auto simp: moves_def map_update_last_same)
  ultimately show ?thesis using assms by (simp add: handled_def)
qed

interpretation step_ManageCrashLoopBackOffPods: step_contract "step_ManageCrashLoopBackOffPods r" ManageCrashLoopBackOffPods
  for r :: "('w, 'v) Recoverer"
  unfolding step_contract_def step_ManageCrashLoopBackOffPods_def
  by (auto simp: wp_simps intro!: footprint_getOSDPodsInOperational [THEN wp_framed]
      wp_handleCrashLoopBackOffPods wp_go_to handled_panic handled_devices flagged_set_latest flagged_flags
      handled_move [where t = RestartStorageOperator] intro: handled_err split: result.split)

lemma framed_count_terminating: "framed (count_terminating r c ids)"
  by (induction ids arbitrary: c)
    (auto intro!: footprint_intros footprint_getOSDPodsWithID)

interpretation step_ForceDeleteRookCephOSDPods: step_contract "step_ForceDeleteRookCephOSDPods r" ForceDeleteRookCephOSDPods
  for r :: "('w, 'v) Recoverer"
proof
  fix s :: "'w st"
  let ?st = "Status (inst s)"
  assume wf: "wf_status ?st" "Phase ?st = RunningPhase" and ty: "current_type ?st = ForceDeleteRookCephOSDPods"
  then have "ForceDeleteRookCephOSDPods \<in> set (cond_types ?st)"
    by (metis last_cond_types last_in_set map_is_Nil_conv wf_status_conditions)
  with wf have "CrashLoopBackOffPods ?st" "NodeDevice ?st \<noteq> []"
    by (auto simp: wf_status_def devices_wf_def)
  with wf ty show "wp (step_ForceDeleteRookCephOSDPods r) (\<lambda>res s'. handled ?st res (Status (inst s'))) s"
    unfolding step_ForceDeleteRookCephOSDPods_def
    by (auto simp: wp_simps intro!: wp_ops framed_count_terminating [THEN wp_framed] wp_go_to
        handled_intros flagged_flags intro: handled_err handled_wait split: result.split option.split)
qed

interpretation step_ProcessOCSRemovalTemplate: step_contract "step_ProcessOCSRemovalTemplate r" ProcessOCSRemovalTemplate
  for r :: "('w, 'v) Recoverer"
  unfolding step_contract_def step_ProcessOCSRemovalTemplate_def
  by (auto simp: wp_simps intro!: wp_ops wp_go_to handled_intros flagged_flags flagged_ForcedOSDRemoval
      intro: handled_err handled_wait split: result.split)

interpretation step_WaitForPersistenVolumeBound: step_contract "step_WaitForPersistenVolumeBound r" WaitForPersistenVolumeBound
  for r :: "('w, 'v) Recoverer"
  unfolding step_contract_def step_WaitForPersistenVolumeBound_def Let_def
  by (auto simp: wp_simps intro!: wp_ops wp_framed [where m = "foldM f a xs" for f a xs]
      fp.upholds_foldM fp.upholds_bind fp.upholds_deref fp.upholds_ret
      footprint_getPVsForNode footprint_processPVForNode wp_go_to handled_intros flagged_flags
      intro: handled_err handled_wait split: result.split option.split sum.split)

interpretation step_RestartStorageOperator: step_contract "step_RestartStorageOperator r" RestartStorageOperator
  for r :: "('w, 'v) Recoverer"
  unfolding step_contract_def step_RestartStorageOperator_def
  by (auto simp: wp_simps intro!: wp_ops wp_go_to handled_intros flagged_flags
      intro: handled_err handled_wait split: result.split)

interpretation step_DeleteFailedPodsNodeAffinity: step_contract "step_DeleteFailedPodsNodeAffinity r" DeleteFailedPodsNodeAffinity
  for r :: "('w, 'v) Recoverer"
  unfolding step_contract_def step_DeleteFailedPodsNodeAffinity_def
  by (auto simp: wp_simps intro!: wp_ops wp_go_to handled_intros flagged_flags
      intro: handled_err handled_wait split: result.split)

lemma wp_complete_recovery:
  assumes "wf_status st" and "Phase st = RunningPhase" and "current_type st = DisableCephTools"
    and "Status (inst s) = st"
  shows "wp (complete_recovery r) (\<lambda>res s'. handled st res (Status (inst s'))) s"
  using assms unfolding complete_recovery_def
  by (auto simp: wp_simps deref_def intro!: wp_ops handled_intros flagged_flags split: option.split prod.split)

interpretation step_DisableCephTools: step_contract
  "bind (step_DisableCephTools r) (\<lambda>_. complete_recovery r)" DisableCephTools
  for r :: "('w, 'v) Recoverer"
  unfolding step_contract_def step_DisableCephTools_def disableCephTools_def
  by (auto simp: wp_simps intro!: wp_ops wp_complete_recovery handled_panic flagged_set_latest flagged_flags
      intro: handled_err split: result.split)

section \<open>The steps that use the collaborators\<close>

context recoverer_env
begin

lemma wp_validateJobLogs: "(\<And>res s'. inst s' = inst s \<Longrightarrow> Q res s') \<Longrightarrow> wp (validateJobLogs r p) Q s"
  by (rule wp_framed [OF footprint_validateJobLogs]) simp_all

lemma wp_finish_removal_job:
  assumes "wf_status st" and "Phase st = RunningPhase" and "edge (current_type st) WaitForPersistenVolumeBound"
    and "Status (inst s) = st"
  shows "wp (finish_removal_job r pod) (\<lambda>res s'. handled st res (Status (inst s'))) s"
  using assms unfolding finish_removal_job_def
  by (auto simp: wp_simps intro!: wp_validateJobLogs wp_ops wp_go_to handled_intros flagged_flags
      intro: handled_err split: result.split)

lemma wp_getCephHealthStatus: "(\<And>res s'. inst s' = inst s \<Longrightarrow> Q res s') \<Longrightarrow> wp (getCephHealthStatus r) Q s"
  by (rule wp_framed [OF footprint_getCephHealthStatus]) simp_all

lemma wp_archive: "(\<And>res s'. inst s' = inst s \<Longrightarrow> Q res s') \<Longrightarrow> wp (archiveCephDaemonCrashMessages r) Q s"
  by (rule wp_framed [OF footprint_archiveCephDaemonCrashMessages]) simp_all

end

sublocale recoverer_env \<subseteq> cleanup: step_contract "step_CleanupOSDRemovalJob r latest" CleanupOSDRemovalJob
  for latest
  unfolding step_contract_def step_CleanupOSDRemovalJob_def
  by (auto simp: wp_simps intro!: wp_ops wp_finish_removal_job wp_go_to handled_intros flagged_flags
      intro: handled_err handled_wait split: result.split prod.split)

sublocale recoverer_env \<subseteq> retry: step_contract
  "step_RetryForceCleanupOSDRemovalJob r latest" RetryForceCleanupOSDRemovalJob
  for latest
  unfolding step_contract_def step_RetryForceCleanupOSDRemovalJob_def
  by (auto simp: wp_simps intro!: wp_ops wp_finish_removal_job wp_go_to handled_intros flagged_flags
      intro: handled_err handled_wait split: result.split prod.split)

sublocale recoverer_env \<subseteq> fitness: step_contract "step_StorageClusterFitnessCheck r" StorageClusterFitnessCheck
  unfolding step_contract_def step_StorageClusterFitnessCheck_def
  by (auto simp: wp_simps intro!: wp_getCephHealthStatus wp_archive wp_go_to handled_err handled_wait [where out = "requeue_after d" for d]
      handled_panic handled_move [where out = requeue] flagged_set_latest flagged_flags split: result.split)

section \<open>Reconcile\<close>

lemma stays_trans: "stays st st1 \<Longrightarrow> stays st1 st2 \<Longrightarrow> stays st st2"
  by (simp add: stays_def)

lemma handled_flagged:
  assumes "flagged st st1" and "handled st1 res st'"
  shows "handled st res st'"
proof -
  have "current_type st1 = current_type st"
    using assms(1) flagged_conditions [OF assms(1)] by (auto simp: flagged_def intro: stays_current)
  then have "moves st1 st' \<Longrightarrow> moves st st'"
    using assms(1) by (auto simp: flagged_def moves_def stays_def)
  with assms show ?thesis
    by (auto simp: handled_def flagged_def split: result.splits intro: stays_trans)
qed

lemma wp_time_out:
  assumes "flagged st (Status (inst s))"
  shows "wp (time_out latest) (\<lambda>res s'. handled st res (Status (inst s'))) s"
  using assms unfolding time_out_def
  by (auto simp: wp_simps intro!: wp_ops handled_panic handled_failed_ok handled_failed_err split: result.split)

context recoverer_env
begin

text \<open>The switch: each case by the contract of its step.\<close>

lemma wp_run_step:
  assumes "wf_status (Status (inst s))" and "Phase (Status (inst s)) = RunningPhase"
    and "cond_Type latest = current_type (Status (inst s))"
  shows "wp (run_step r latest) (\<lambda>res s'. handled (Status (inst s)) res (Status (inst s'))) s"
proof (cases "cond_Type latest")
  case (OtherCondition x)
  with assms have "OtherCondition x \<in> set (cond_types (Status (inst s)))"
    by (metis last_cond_types last_in_set map_is_Nil_conv wf_status_conditions)
  moreover have "legal_history (cond_types (Status (inst s)))"
    using assms(1) by (simp add: wf_status_def)
  ultimately show ?thesis
    using legal_history_no_other by blast
qed (use assms in \<open>simp add: run_step_def step_EnableCephToolsPod.handles
  step_WaitForCephToolsPodRunning.handles step_WaitForOSDPodsStabilize.handles
  step_LabelNodesWithPendingPods.handles step_ManageCrashLoopBackOffPods.handles
  step_ForceDeleteRookCephOSDPods.handles step_ProcessOCSRemovalTemplate.handles cleanup.handles
  retry.handles step_WaitForPersistenVolumeBound.handles step_RestartStorageOperator.handles
  step_DeleteFailedPodsNodeAffinity.handles fitness.handles step_DisableCephTools.handles\<close>)+

theorem wp_Reconcile:
  assumes wf: "wf_status (Status (inst s))" and run: "Phase (Status (inst s)) = RunningPhase"
  shows "wp (Reconcile r) (\<lambda>res s'. handled (Status (inst s)) res (Status (inst s'))) s"
  unfolding Reconcile_def wp_bind
proof (rule wp_getLatestCondition, goal_cases)
  case 1
  show ?case using wf by simp
next
  case (2 t w)
  let ?probe = "\<lambda>l. l\<lparr>cond_LastProbeTime := t\<rparr>"
  let ?s = "s\<lparr>world := w, inst := (inst s)\<lparr>Status := set_latest ?probe (Status (inst s))\<rparr>\<rparr>"
  let ?latest = "?probe (last (Conditions (Status (inst s))))"
  have fl: "flagged (Status (inst s)) (set_latest ?probe (Status (inst s)))"
    using wf run by (intro flagged_set_latest flagged_flags) simp_all
  have "wp (run_step r ?latest) (\<lambda>res s'. handled (Status (inst s)) res (Status (inst s'))) (?s\<lparr>world := v\<rparr>)" for v
    using wp_run_step [of "?s\<lparr>world := v\<rparr>" ?latest] fl wf
    by (auto simp: flagged_def elim!: wp_conseq intro: handled_flagged [OF fl])
  moreover have "wp (time_out ?latest) (\<lambda>res s'. handled (Status (inst s)) res (Status (inst s'))) (?s\<lparr>world := v\<rparr>)" for v
    by (rule wp_time_out) (simp add: fl)
  ultimately show ?case
    by (simp add: wp_simps split: prod.split)
qed

end

end
