(* ===== verification/Step_Effects.thy ===== *)
theory Step_Effects
  imports Step_Contracts
begin

text \<open>
  What each step of the recovery may do to the cluster. \<open>step_write ty\<close> lists the requests
  that change the cluster which the step of condition \<open>ty\<close> may make; every step keeps to its
  list, whatever the API server answers.
\<close>

section \<open>The writes of a step\<close>

definition job_pods :: LabelSelector where
  "job_pods = match_labels [(''job-name'', ''ocs-osd-removal-job'')]"

definition operator_pods :: LabelSelector where
  "operator_pods = \<lparr>MatchLabels = [],
     MatchExpressions = [\<lparr>req_Key = ''app'', req_Operator = OpIn, req_Values = [''rook-ceph-operator'']\<rparr>]\<rparr>"

definition removes_job :: "effect \<Rightarrow> bool" where
  "removes_job e \<longleftrightarrow> (\<exists>j. e = DeleteJob j) \<or> e = DeleteAllOfPods (odf_list job_pods) (Some 0)"

definition runs_job :: "effect \<Rightarrow> bool" where
  "runs_job e \<longleftrightarrow> removes_job e \<or> (\<exists>ob. e = CreateObject ob \<and> obj_Namespace ob = ODF_NAMESPACE)"

definition sets_tools :: "bool \<Rightarrow> effect \<Rightarrow> bool" where
  "sets_tools v e \<longleftrightarrow>
     (\<exists>i. e = UpdateOCSInitialization i \<and> oi_EnableCephTools i = v) \<or>
     (\<exists>sc. e = UpdateStorageCluster sc \<and> sc_EnableCephTools sc = v)"

fun step_write :: "RecoveryConditionType \<Rightarrow> effect \<Rightarrow> bool" where
  "step_write EnableCephToolsPod e = sets_tools True e"
| "step_write LabelNodesWithPendingPods e = (\<exists>n. e = UpdateNode n)"
| "step_write ManageCrashLoopBackOffPods e = (\<exists>d. e = UpdateDeployment d \<and> dep_Replicas d = Some 0)"
| "step_write ForceDeleteRookCephOSDPods e = (\<exists>sel. e = DeleteAllOfPods (odf_list sel) (Some 0))"
| "step_write ProcessOCSRemovalTemplate e = runs_job e"
| "step_write CleanupOSDRemovalJob e = runs_job e"
| "step_write RetryForceCleanupOSDRemovalJob e = removes_job e"
| "step_write WaitForPersistenVolumeBound e = (\<exists>pv. e = DeletePersistentVolume pv)"
| "step_write RestartStorageOperator e = (e = DeleteAllOfPods (odf_list operator_pods) None)"
| "step_write DeleteFailedPodsNodeAffinity e = (\<exists>p. e = DeletePod p)"
| "step_write StorageClusterFitnessCheck e = (\<exists>q. e = ExecCall q \<and> ceph_command q)"
| "step_write DisableCephTools e = sets_tools False e"
| "step_write _ e = False"

definition step_effect :: "RecoveryConditionType \<Rightarrow> effect \<Rightarrow> bool" where
  "step_effect ty e \<longleftrightarrow> (is_write e \<longrightarrow> step_write ty e) \<and> (\<forall>k l. e = ListCall k l \<longrightarrow> list_indexed k l) \<and>
     e \<noteq> CounterInc TotalOperandInstances"

lemma step_effect_simps [simp]:
  "step_effect ty (GetCall k n)" "step_effect ty (ListCall k l) \<longleftrightarrow> list_indexed k l" "step_effect ty (LogsCall ns p)"
  "step_effect ty (Eventf t r m a)"
  "step_effect ty (CounterInc cn) \<longleftrightarrow> cn \<noteq> TotalOperandInstances"
  by (simp_all add: step_effect_def)

lemma step_effect_write: "is_write e \<Longrightarrow> step_effect ty e \<longleftrightarrow> step_write ty e"
  by (auto simp: step_effect_def)

lemma reads_step_effect [simp]: "reads (step_effect ty)"
  by (simp add: reads_def)

section \<open>Every step keeps to its list\<close>

lemma traces_fail: "traces P (fail_with rs e)" "traces P (fail_message e)"
  by (simp_all add: fail_with_def fail_message_def tr.upholds_bind traces_intros cond_traces)

lemma traces_go_to: "traces P (go_to r ty out)"
  by (simp add: go_to_def tr.upholds_bind traces_intros cond_traces)

lemma traces_set_phase: "traces P (set_phase p)"
  by (simp add: set_phase_def traces_intros)

lemmas step_traces = traces_intros cond_traces traces_fail traces_go_to traces_set_phase
  framed_ops [THEN footprint_traces]

lemma traces_step_EnableCephToolsPod: "traces (step_effect EnableCephToolsPod) (step_EnableCephToolsPod r)"
  unfolding step_EnableCephToolsPod_def enableCephTools_def
  by (auto intro!: step_traces simp: step_effect_write sets_tools_def)

lemma traces_step_WaitForCephToolsPodRunning:
  "traces (step_effect WaitForCephToolsPodRunning) (step_WaitForCephToolsPodRunning r)"
  unfolding step_WaitForCephToolsPodRunning_def by (auto intro!: step_traces)

lemma traces_step_WaitForOSDPodsStabilize:
  "traces (step_effect WaitForOSDPodsStabilize) (step_WaitForOSDPodsStabilize r)"
  unfolding step_WaitForOSDPodsStabilize_def by (auto intro!: step_traces)

lemma traces_step_LabelNodesWithPendingPods:
  "traces (step_effect LabelNodesWithPendingPods) (step_LabelNodesWithPendingPods r)"
  unfolding step_LabelNodesWithPendingPods_def by (auto intro!: step_traces simp: step_effect_write)

lemma traces_step_ManageCrashLoopBackOffPods:
  "traces (step_effect ManageCrashLoopBackOffPods) (step_ManageCrashLoopBackOffPods r)"
  unfolding step_ManageCrashLoopBackOffPods_def by (auto intro!: step_traces simp: step_effect_write)

lemma traces_count_terminating: "reads P \<Longrightarrow> traces P (count_terminating r c ids)"
  by (induction ids arbitrary: c) (auto intro!: step_traces)

lemma traces_step_ForceDeleteRookCephOSDPods:
  "traces (step_effect ForceDeleteRookCephOSDPods) (step_ForceDeleteRookCephOSDPods r)"
  unfolding step_ForceDeleteRookCephOSDPods_def
  by (auto intro!: step_traces traces_count_terminating simp: step_effect_write)

lemma traces_step_ProcessOCSRemovalTemplate:
  "traces (step_effect ProcessOCSRemovalTemplate) (step_ProcessOCSRemovalTemplate r)"
  unfolding step_ProcessOCSRemovalTemplate_def
  by (auto intro!: step_traces simp: step_effect_write runs_job_def removes_job_def job_pods_def)

lemma traces_step_WaitForPersistenVolumeBound:
  "traces (step_effect WaitForPersistenVolumeBound) (step_WaitForPersistenVolumeBound r)"
  unfolding step_WaitForPersistenVolumeBound_def Let_def by (auto intro!: step_traces simp: step_effect_write)

lemma traces_step_RestartStorageOperator:
  "traces (step_effect RestartStorageOperator) (step_RestartStorageOperator r)"
  unfolding step_RestartStorageOperator_def by (auto intro!: step_traces simp: step_effect_write operator_pods_def)

lemma traces_step_DeleteFailedPodsNodeAffinity:
  "traces (step_effect DeleteFailedPodsNodeAffinity) (step_DeleteFailedPodsNodeAffinity r)"
  unfolding step_DeleteFailedPodsNodeAffinity_def by (auto intro!: step_traces simp: step_effect_write)

lemma traces_complete_recovery: "traces (step_effect ty) (complete_recovery r)"
  unfolding complete_recovery_def by (auto intro!: step_traces)

lemma traces_step_DisableCephTools: "traces (step_effect DisableCephTools) (step_DisableCephTools r)"
  unfolding step_DisableCephTools_def disableCephTools_def
  by (auto intro!: step_traces simp: step_effect_write sets_tools_def)

lemma traces_time_out: "traces (step_effect ty) (time_out latest)"
  unfolding time_out_def by (auto intro!: step_traces)

context recoverer_env
begin

lemma traces_finish_removal_job:
  "(\<And>n p. P (LogsCall n p)) \<Longrightarrow> reads P \<Longrightarrow> (\<And>e. removes_job e \<Longrightarrow> P e) \<Longrightarrow> traces P (finish_removal_job r pod)"
  unfolding finish_removal_job_def
  by (auto intro!: step_traces footprint_validateJobLogs [THEN footprint_traces]
      simp: removes_job_def job_pods_def)

lemma traces_step_CleanupOSDRemovalJob:
  "traces (step_effect CleanupOSDRemovalJob) (step_CleanupOSDRemovalJob r latest)"
  unfolding step_CleanupOSDRemovalJob_def
  by (auto intro!: step_traces traces_finish_removal_job
      simp: step_effect_def runs_job_def removes_job_def job_pods_def)

lemma traces_step_RetryForceCleanupOSDRemovalJob:
  "traces (step_effect RetryForceCleanupOSDRemovalJob) (step_RetryForceCleanupOSDRemovalJob r latest)"
  unfolding step_RetryForceCleanupOSDRemovalJob_def
  by (auto intro!: step_traces traces_finish_removal_job simp: step_effect_def removes_job_def job_pods_def)

lemma traces_step_StorageClusterFitnessCheck:
  "traces (step_effect StorageClusterFitnessCheck) (step_StorageClusterFitnessCheck r)"
  unfolding step_StorageClusterFitnessCheck_def
  by (auto intro!: step_traces footprint_getCephHealthStatus [THEN footprint_traces]
      footprint_archiveCephDaemonCrashMessages [THEN footprint_traces] simp: step_effect_def)

lemma traces_run_step: "traces (step_effect (cond_Type latest)) (run_step r latest)"
  by (cases "cond_Type latest")
    (simp_all add: run_step_def tr.upholds_bind traces_complete_recovery
      traces_step_EnableCephToolsPod traces_step_WaitForCephToolsPodRunning
      traces_step_WaitForOSDPodsStabilize traces_step_LabelNodesWithPendingPods
      traces_step_ManageCrashLoopBackOffPods traces_step_ForceDeleteRookCephOSDPods
      traces_step_ProcessOCSRemovalTemplate traces_step_CleanupOSDRemovalJob
      traces_step_RetryForceCleanupOSDRemovalJob traces_step_WaitForPersistenVolumeBound
      traces_step_RestartStorageOperator traces_step_DeleteFailedPodsNodeAffinity
      traces_step_StorageClusterFitnessCheck traces_step_DisableCephTools)

text \<open>A pass of \<open>Reconcile\<close> makes only the writes of the step of the current condition.\<close>

lemma wp_Reconcile_effects:
  "wp (Reconcile r) (\<lambda>_ s'. grows (step_effect (current_type (Status (inst s)))) s s') s"
proof (cases "Conditions (Status (inst s)) = []")
  case True
  then show ?thesis
    by (simp add: Reconcile_def getLatestCondition_def wp_simps tr.refl_R)
next
  case False
  let ?ty = "current_type (Status (inst s))"
  show ?thesis
    unfolding Reconcile_def wp_bind
  proof (rule wp_getLatestCondition [OF False], goal_cases)
    case (1 t w)
    let ?latest = "(last (Conditions (Status (inst s))))\<lparr>cond_LastProbeTime := t\<rparr>"
    have "wp m (\<lambda>_ s'. grows (step_effect ?ty) s s') u" if "traces (step_effect ?ty) m" "trace u = trace s"
      for m :: "('w, Result) go" and u
    proof -
      have "wp m (\<lambda>_ s'. grows (step_effect ?ty) u s') u" using that(1) by (simp add: upholds_wp)
      then show ?thesis using that(2) by (simp add: grows_def)
    qed
    then show ?case
      using traces_run_step [of ?latest] by (simp add: wp_simps traces_time_out split: prod.split)
  qed
qed

end

end
