(* ===== verification/Lifecycle.thy ===== *)
theory Lifecycle
  imports Controller Step_Effects
begin

text \<open>
  The life of a \<open>NodeRecovery\<close> object over any number of reconciliations. \<open>stores c i i'\<close>
  says that some run of the controller that loads \<open>i\<close> asks the API server to store \<open>i'\<close>;
  the world, and with it every answer of the API server, is arbitrary. \<open>reachable\<close> closes
  the newly created objects under it. What is stored is read back with its instants passed
  through \<open>f\<close>: \<open>metav1.Time\<close> is serialised with a precision of one second.
\<close>

section \<open>Runs of the controller\<close>

definition stores :: "('w, 'v) external \<Rightarrow> NodeRecovery \<Rightarrow> NodeRecovery \<Rightarrow> bool" where
  "stores c i i' \<longleftrightarrow>
     (\<exists>req s out s' w es. Get_NodeRecovery c req (world s) = (Inr i, w) \<and>
        controller_Reconcile (wired_controller c) req s = (out, s') \<and>
        trace s' = trace s @ es \<and> UpdateStatus i' \<in> set es)"

definition wire_condition :: "(time \<Rightarrow> time) \<Rightarrow> RecoveryCondition \<Rightarrow> RecoveryCondition" where
  "wire_condition f cd =
     cd\<lparr>cond_LastProbeTime := f (cond_LastProbeTime cd),
        cond_LastTransitionTime := f (cond_LastTransitionTime cd)\<rparr>"

definition wire_status :: "(time \<Rightarrow> time) \<Rightarrow> NodeRecoveryStatus \<Rightarrow> NodeRecoveryStatus" where
  "wire_status f st =
     st\<lparr>Conditions := map (wire_condition f) (Conditions st),
        StartTime := map_option f (StartTime st),
        CompletionTime := map_option f (CompletionTime st)\<rparr>"

definition wire :: "(time \<Rightarrow> time) \<Rightarrow> NodeRecovery \<Rightarrow> NodeRecovery" where
  "wire f i = i\<lparr>Status := wire_status f (Status i)\<rparr>"

inductive reachable :: "('w, 'v) external \<Rightarrow> (time \<Rightarrow> time) \<Rightarrow> NodeRecovery \<Rightarrow> bool" for c f where
  created: "Status i = new_status \<Longrightarrow> reachable c f i"
| stored: "reachable c f i \<Longrightarrow> stores c i i' \<Longrightarrow> reachable c f (wire f i')"
| marked: "reachable c f i \<Longrightarrow> reachable c f (i\<lparr>nr_DeletionTimestamp := d\<rparr>)"

text \<open>
  The clock is past the zero instant, also after serialisation, and an instant that has been
  serialised once is not changed by serialising it again.
\<close>

definition sane_clock :: "('w, 'v) external \<Rightarrow> (time \<Rightarrow> time) \<Rightarrow> bool" where
  "sane_clock c f \<longleftrightarrow>
     (\<forall>w. fst (Now c w) \<noteq> 0 \<and> f (fst (Now c w)) \<noteq> 0) \<and> (\<forall>t. f (f t) = f t)"

section \<open>Starting a recovery\<close>

lemma start_recovery_started:
  "\<not> IsZero (StartTime (Status (inst s))) \<Longrightarrow> start_recovery c s = (Ok (), s)"
  by (simp add: start_recovery_def bind_get_status ret_def)

text \<open>The status a pass of the recovery starts from.\<close>

definition begun :: "time \<Rightarrow> time \<Rightarrow> NodeRecoveryStatus \<Rightarrow> NodeRecoveryStatus" where
  "begun t t2 st =
     (if IsZero (StartTime st)
      then st\<lparr>StartTime := Some t, Phase := RunningPhase, Conditions := Conditions st @ [first_condition t2]\<rparr>
      else st)"

lemma start_recovery_begun:
  obtains s1 t2 es where "start_recovery c s = (Ok (), s1)" "trace s1 = trace s @ es"
    and "inst s1 = (inst s)\<lparr>Status := begun (fst (Now c (world s))) t2 (Status (inst s))\<rparr>"
    and "es = (if IsZero (StartTime (Status (inst s))) then [CounterInc TotalOperandInstances] else [])"
proof (cases "IsZero (StartTime (Status (inst s)))")
  case True
  obtain t1 w1 t2 w2 where now: "Now c (world s) = (t1, w1)" "Now c w1 = (t2, w2)" by fastforce
  let ?s1 = "snd (start_recovery c s)"
  show ?thesis
    by (rule that [of ?s1 "[CounterInc TotalOperandInstances]" t2])
      (use True now in \<open>simp_all add: start_recovery_def begun_def bind_get_status run_simps\<close>)
next
  case False
  show ?thesis
    by (rule that [of s "[]" 0]) (use False in \<open>simp_all add: start_recovery_started begun_def\<close>)
qed

section \<open>What a run stores\<close>

lemma step_effect_not_status: "\<not> step_effect ty (UpdateStatus i)"
  by (cases ty) (simp_all add: step_effect_def sets_tools_def runs_job_def removes_job_def)

text \<open>
  The whole of a run on an object that is neither deleted nor ended: the load, the start if
  needed, one pass of \<open>Reconcile\<close>, and the store of its result unless it panicked.
\<close>

definition controller_out ::
  "(go_error, Result) result \<Rightarrow> go_error option \<Rightarrow> (go_error, Result \<times> go_error option) result" where
  "controller_out res stored = (case res of
     Ok out \<Rightarrow> Ok (out, errors_Join [None, stored])
   | Err e \<Rightarrow> Ok (no_requeue, errors_Join [Some e, stored])
   | Panic p \<Rightarrow> Panic p)"

lemma controller_run:
  assumes get: "Get_NodeRecovery c req (world s) = (Inr i, w)"
    and live: "IsZero (nr_DeletionTimestamp i)" "Phase (Status i) \<noteq> FailedPhase" "Phase (Status i) \<noteq> CompletedPhase"
    and run: "controller_Reconcile (wired_controller c) req s = (out, s')"
  obtains s1 s2 res t2 es1 es2 stored where
    "trace s1 = trace s @ GetCall KNodeRecovery req # es1"
    "es1 = (if IsZero (StartTime (Status i)) then [CounterInc TotalOperandInstances] else [])"
    "inst s1 = i\<lparr>Status := begun (fst (Now c w)) t2 (Status i)\<rparr>"
    "Reconcile (wired c) s1 = (res, s2)" "trace s2 = trace s1 @ es2"
    "list_all (step_effect (current_type (Status (inst s1)))) es2"
    "trace s' = trace s2 @ (if \<exists>p. res = Panic p then [] else [UpdateStatus (inst s2)])"
    "out = controller_out res stored"
proof -
  let ?s0 = "s\<lparr>world := w, trace := trace s @ [GetCall KNodeRecovery req], inst := i\<rparr>"
  have c: "nrr_Client (wired_controller c) = c" by (simp add: wired_controller_def)
  have nr: "newNodeRecoveryReconciler c (nrr_CmdRunner (wired_controller c)) (nrr_LogClient (wired_controller c)) = Inr (wired c)"
    using wired_controller_recoverer [of c] by (simp add: c)
  obtain s1 t2 es1 where st: "start_recovery c ?s0 = (Ok (), s1)" "trace s1 = trace ?s0 @ es1"
    "inst s1 = (inst ?s0)\<lparr>Status := begun (fst (Now c (world ?s0))) t2 (Status (inst ?s0))\<rparr>"
    "es1 = (if IsZero (StartTime (Status (inst ?s0))) then [CounterInc TotalOperandInstances] else [])"
    by (rule start_recovery_begun)
  obtain res s2 where rec: "Reconcile (wired c) s1 = (res, s2)" by fastforce
  obtain es2 where es2: "trace s2 = trace s1 @ es2"
    and quiet: "list_all (step_effect (current_type (Status (inst s1)))) es2"
    using wpD [OF wr.wp_Reconcile_effects rec] by (auto simp: grows_def)
  have "trace s' = trace s2 @ (if \<exists>p. res = Panic p then [] else [UpdateStatus (inst s2)])"
    using run get live st(1) rec
    by (cases res) (auto simp: controller_Reconcile_def c nr run_simps
        split: prod.splits sum.splits)
  moreover have "out = controller_out res (sum_err (fst (Update_Status c (inst s2) (world s2))))"
    using run get live st(1) rec
    by (cases res) (auto simp: controller_Reconcile_def c nr run_simps controller_out_def sum_err_def
        split: prod.splits sum.splits)
  ultimately show ?thesis using st rec es2 quiet by (intro that [of s1 es1 t2 res s2 es2]) simp_all
qed

text \<open>A run on a deleted or ended object stores nothing.\<close>

lemma controller_run_ended:
  assumes "Get_NodeRecovery c req (world s) = (Inr i, w)"
    and "\<not> IsZero (nr_DeletionTimestamp i) \<or> Phase (Status i) \<in> {FailedPhase, CompletedPhase}"
  shows "controller_Reconcile (wired_controller c) req s =
     (Ok (no_requeue, None), s\<lparr>world := w, trace := trace s @ [GetCall KNodeRecovery req], inst := i\<rparr>)"
  using assms by (auto simp: controller_Reconcile_def wired_controller_def run_simps)

text \<open>So what \<open>Reconcile\<close> does on any object, the controller does, but for loading, counting and storing.\<close>

lemma controller_traces:
  assumes run: "controller_Reconcile (wired_controller c) req s = (out, s')"
    and own: "P (GetCall KNodeRecovery req)" "P (CounterInc TotalOperandInstances)" "\<And>i. P (UpdateStatus i)"
    and step: "\<And>i s1. fst (Get_NodeRecovery c req (world s)) = Inr i \<Longrightarrow>
      NodeDevice (Status (inst s1)) = NodeDevice (Status i) \<Longrightarrow> grows P s1 (snd (Reconcile (wired c) s1))"
  shows "grows P s s'"
proof -
  obtain got w where get: "Get_NodeRecovery c req (world s) = (got, w)" by fastforce
  consider (missing) e where "got = Inl e"
    | (ended) i where "got = Inr i" "\<not> IsZero (nr_DeletionTimestamp i) \<or> Phase (Status i) \<in> {FailedPhase, CompletedPhase}"
    | (live) i where "got = Inr i" "IsZero (nr_DeletionTimestamp i)" "Phase (Status i) \<noteq> FailedPhase"
        "Phase (Status i) \<noteq> CompletedPhase"
    by (cases got) blast+
  then show ?thesis
  proof cases
    case missing
    with run get own(1) show ?thesis
      by (auto simp: grows_def controller_Reconcile_def wired_controller_def run_simps split: if_splits)
  next
    case ended
    from controller_run_ended [OF get [unfolded ended(1)] ended(2)] run own(1) show ?thesis by (auto simp: grows_def)
  next
    case live
    obtain s1 es1 t2 res s2 es2 stored where *:
      "trace s1 = trace s @ GetCall KNodeRecovery req # es1"
      "es1 = (if IsZero (StartTime (Status i)) then [CounterInc TotalOperandInstances] else [])"
      "inst s1 = i\<lparr>Status := begun (fst (Now c w)) t2 (Status i)\<rparr>"
      "Reconcile (wired c) s1 = (res, s2)" "trace s2 = trace s1 @ es2"
      "list_all (step_effect (current_type (Status (inst s1)))) es2"
      "trace s' = trace s2 @ (if \<exists>p. res = Panic p then [] else [UpdateStatus (inst s2)])"
      "out = controller_out res stored"
      by (rule controller_run [OF get [unfolded live(1)] live(2-4) run])
    have "list_all P es2"
      using step [of i s1] get live(1) *(3,4,5) by (simp add: begun_def grows_def)
    with *(2) own show ?thesis by (auto simp: grows_def *(1,5,7))
  qed
qed

lemma storesE:
  assumes "stores c i i'"
  obtains s1 t t2 res s2 where
    "IsZero (nr_DeletionTimestamp i)" "Phase (Status i) \<noteq> FailedPhase" "Phase (Status i) \<noteq> CompletedPhase"
    "\<exists>w. t = fst (Now c w)" "inst s1 = i\<lparr>Status := begun t t2 (Status i)\<rparr>"
    "Reconcile (wired c) s1 = (res, s2)" "\<forall>p. res \<noteq> Panic p" "i' = inst s2"
proof -
  from assms obtain req s out s' w es where
    get: "Get_NodeRecovery c req (world s) = (Inr i, w)"
    and run: "controller_Reconcile (wired_controller c) req s = (out, s')"
    and tr: "trace s' = trace s @ es" and up: "UpdateStatus i' \<in> set es"
    by (auto simp: stores_def)
  have "\<not> (\<not> IsZero (nr_DeletionTimestamp i) \<or> Phase (Status i) \<in> {FailedPhase, CompletedPhase})"
  proof
    assume "\<not> IsZero (nr_DeletionTimestamp i) \<or> Phase (Status i) \<in> {FailedPhase, CompletedPhase}"
    from controller_run_ended [OF get this] run tr up show False by auto
  qed
  then have live: "IsZero (nr_DeletionTimestamp i)" "Phase (Status i) \<noteq> FailedPhase" "Phase (Status i) \<noteq> CompletedPhase"
    by auto
  obtain s1 es1 t2 res s2 es2 stored where *:
    "trace s1 = trace s @ GetCall KNodeRecovery req # es1"
    "es1 = (if IsZero (StartTime (Status i)) then [CounterInc TotalOperandInstances] else [])"
    "inst s1 = i\<lparr>Status := begun (fst (Now c w)) t2 (Status i)\<rparr>"
    "Reconcile (wired c) s1 = (res, s2)" "trace s2 = trace s1 @ es2"
    "list_all (step_effect (current_type (Status (inst s1)))) es2"
    "trace s' = trace s2 @ (if \<exists>p. res = Panic p then [] else [UpdateStatus (inst s2)])"
    "out = controller_out res stored"
    by (rule controller_run [OF get live run])
  have "UpdateStatus i' \<notin> set es2"
    using *(6) step_effect_not_status by (auto simp: list_all_iff)
  then have "i' = inst s2 \<and> (\<forall>p. res \<noteq> Panic p)"
    using tr up * by (auto split: if_splits)
  with live * show ?thesis by (intro that [of "fst (Now c w)" s1 t2 res s2]) auto
qed

section \<open>Invariants of the stored statuses\<close>

lemma wire_condition_sel [simp]:
  "cond_Type (wire_condition f cd) = cond_Type cd" "cond_Status (wire_condition f cd) = cond_Status cd"
  by (simp_all add: wire_condition_def)

lemma wire_status_sel [simp]:
  "Phase (wire_status f st) = Phase st" "cond_types (wire_status f st) = cond_types st"
  "StartTime (wire_status f st) = map_option f (StartTime st)"
  "CompletionTime (wire_status f st) = map_option f (CompletionTime st)"
  "NodeDevice (wire_status f st) = NodeDevice st"
  "CrashLoopBackOffPods (wire_status f st) = CrashLoopBackOffPods st"
  "ForcedOSDRemoval (wire_status f st) = ForcedOSDRemoval st"
  "PendingPods (wire_status f st) = PendingPods st"
  "KeepCephToolsPod (wire_status f st) = KeepCephToolsPod st"
  "Conditions (wire_status f st) = map (wire_condition f) (Conditions st)"
  by (simp_all add: wire_status_def)

lemma conditions_wf_wire: "conditions_wf cs \<Longrightarrow> conditions_wf (map (wire_condition f) cs)"
  by (auto simp: conditions_wf_def last_map map_butlast [symmetric])

lemma wf_status_wire: "wf_status st \<Longrightarrow> wf_status (wire_status f st)"
  by (auto simp: wf_status_def devices_wf_def conditions_wf_wire last_map image_image comp_def)

lemma wf_status_begun_new:
  "wf_status (begun t t2 new_status)" "Phase (begun t t2 new_status) = RunningPhase"
  "StartTime (begun t t2 new_status) = Some t" "cond_types (begun t t2 new_status) = [EnableCephToolsPod]"
  by (simp_all add: begun_def new_status_def IsZero_def first_condition_def wf_status_def
      conditions_wf_def devices_wf_def)

text \<open>A stored status is new or well-formed, and then its start time is not zero.\<close>

definition life_inv :: "NodeRecoveryStatus \<Rightarrow> bool" where
  "life_inv st \<longleftrightarrow> st = new_status \<or> wf_status st \<and> \<not> IsZero (StartTime st)"

lemma life_inv_begun:
  assumes "life_inv st" and "Phase st \<noteq> FailedPhase" and "Phase st \<noteq> CompletedPhase"
  shows "wf_status (begun t t2 st) \<and> Phase (begun t t2 st) = RunningPhase"
proof (cases "st = new_status")
  case True
  then show ?thesis by (simp add: wf_status_begun_new)
next
  case False
  with assms have "wf_status st" "\<not> IsZero (StartTime st)" by (simp_all add: life_inv_def)
  with assms show ?thesis by (cases "Phase st") (simp_all add: begun_def wf_status_def)
qed

text \<open>What one run does to the status, by the contract of \<open>Reconcile\<close>.\<close>

lemma stores_handled:
  assumes "stores c i i'" and "life_inv (Status i)"
  obtains t t2 res where "\<exists>w. t = fst (Now c w)" "handled (begun t t2 (Status i)) res (Status i')"
    "\<forall>p. res \<noteq> Panic p" "wf_status (begun t t2 (Status i))" "Phase (begun t t2 (Status i)) = RunningPhase"
proof -
  from assms(1) obtain s1 t t2 res s2 where *:
    "Phase (Status i) \<noteq> FailedPhase" "Phase (Status i) \<noteq> CompletedPhase" "\<exists>w. t = fst (Now c w)"
    "inst s1 = i\<lparr>Status := begun t t2 (Status i)\<rparr>"
    "Reconcile (wired c) s1 = (res, s2)" "\<forall>p. res \<noteq> Panic p" "i' = inst s2"
    by (rule storesE) blast
  note wf = life_inv_begun [OF assms(2) *(1,2), of t t2]
  have "wp (Reconcile (wired c)) (\<lambda>res s'. handled (Status (inst s1)) res (Status (inst s'))) s1"
    by (rule wr.wp_Reconcile) (use *(4) wf in simp_all)
  from wpD [OF this *(5)] have "handled (begun t t2 (Status i)) res (Status i')"
    using *(4,7) by simp
  with *(3,6) wf show ?thesis using that by blast
qed

lemma handled_wf: "handled st res st' \<Longrightarrow> \<forall>p. res \<noteq> Panic p \<Longrightarrow> wf_status st' \<and> StartTime st' = StartTime st"
  by (auto simp: handled_def split: result.splits)

lemma begun_StartTime:
  "StartTime (begun t t2 st) = (if IsZero (StartTime st) then Some t else StartTime st)"
  by (simp add: begun_def)

text \<open>Every object the controller can load satisfies the invariant.\<close>

lemma reachable_start:
  assumes "reachable c f i" and "sane_clock c f"
  shows "life_inv (Status i) \<and> (\<forall>t. StartTime (Status i) = Some t \<longrightarrow> f t = t)"
  using assms(1)
proof induction
  case (created i)
  then show ?case by (simp add: life_inv_def new_status_def)
next
  case (stored i i')
  obtain t t2 res where *: "\<exists>w. t = fst (Now c w)"
    "handled (begun t t2 (Status i)) res (Status i')" "\<forall>p. res \<noteq> Panic p"
    by (rule stores_handled [OF stored.hyps(2)]) (use stored.IH in simp_all)
  from handled_wf [OF *(2,3)] have wf: "wf_status (Status i')"
    and st: "StartTime (Status i') = StartTime (begun t t2 (Status i))" by simp_all
  obtain u where u: "StartTime (Status i') = Some u" "f u \<noteq> 0"
    using wf st * stored.IH assms(2)
    by (cases "StartTime (Status i)") (auto simp: begun_StartTime IsZero_def sane_clock_def split: if_splits)
  then show ?case
    using wf assms(2) by (simp add: wire_def life_inv_def wf_status_wire IsZero_def sane_clock_def)
next
  case (marked i d)
  then show ?case by simp
qed

lemma reachable_inv: "reachable c f i \<Longrightarrow> sane_clock c f \<Longrightarrow> life_inv (Status i)"
  using reachable_start by blast

section \<open>Runs as steps of the abstract machine\<close>

text \<open>The first run starts the machine, before its first step.\<close>

definition machine_begin :: "machine \<Rightarrow> machine" where
  "machine_begin m =
     (if m_phase m = PhaseUnset then \<lparr>m_phase = RunningPhase, m_history = [EnableCephToolsPod]\<rparr> else m)"

lemma machine_of_begun:
  assumes "life_inv st" and "Phase st \<noteq> FailedPhase" and "Phase st \<noteq> CompletedPhase"
  shows "machine_of (begun t t2 st) = machine_begin (machine_of st)"
proof (cases "st = new_status")
  case True
  then show ?thesis
    by (simp add: machine_of_def machine_begin_def wf_status_begun_new) (simp add: new_status_def)
next
  case False
  with assms show ?thesis
    by (auto simp: life_inv_def begun_def machine_of_def machine_begin_def wf_status_def)
qed

lemma handled_step:
  assumes "handled st res st'" and "\<forall>p. res \<noteq> Panic p" and "wf_status st" and "Phase st = RunningPhase"
  shows "recovery_step (machine_of st) (machine_of st')"
proof -
  have wf: "wf_status st'" and cases: "stays st st' \<or> moves st st'"
    using assms(1,2) by (auto simp: handled_def split: result.splits)
  note ne = wf_status_conditions [OF assms(3)] wf_status_conditions [OF wf]
  have last: "last (cond_types st) = current_type st" "last (cond_types st') = current_type st'"
    using ne by (simp_all add: last_map)
  from cases show ?thesis
  proof
    assume "stays st st'"
    then have same: "cond_types st' = cond_types st" by (simp add: stays_def)
    have "recovery_step (machine_of st) (machine_of st\<lparr>m_phase := Phase st'\<rparr>)"
      using wf assms(4) last same recovery_step.intros [of "machine_of st"]
      by (cases "Phase st'") (auto simp: machine_of_def wf_status_def)
    then show ?thesis using same by (simp add: machine_of_def)
  next
    assume "moves st st'"
    then obtain t where "Phase st' = RunningPhase" "edge (current_type st) t"
      "cond_types st' = cond_types st @ [t]" by (auto simp: moves_def)
    then show ?thesis
      using recovery_step.advance [of "machine_of st" t] assms(4) last by (simp add: machine_of_def)
  qed
qed

lemma reachable_wf:
  assumes "reachable c f i" and "sane_clock c f" and "Phase (Status i) \<noteq> PhaseUnset"
  shows "wf_status (Status i)"
  using reachable_inv [OF assms(1,2)] assms(3) by (auto simp: life_inv_def new_status_def)

text \<open>A whole run of the controller on a live object that it can load.\<close>

lemma live_run:
  assumes reach: "reachable c f i" "sane_clock c f"
    and get: "Get_NodeRecovery c req (world s) = (Inr i, w)"
    and live: "IsZero (nr_DeletionTimestamp i)" "Phase (Status i) \<noteq> FailedPhase" "Phase (Status i) \<noteq> CompletedPhase"
    and run: "controller_Reconcile (wired_controller c) req s = (out, s')"
  obtains st0 res i' es1 es2 stored where
    "machine_of st0 = machine_begin (machine_of (Status i))"
    "wf_status st0" "Phase st0 = RunningPhase" "handled st0 res (Status i')"
    "es1 = (if IsZero (StartTime (Status i)) then [CounterInc TotalOperandInstances] else [])"
    "list_all (step_effect (current_type st0)) es2"
    "trace s' = trace s @ GetCall KNodeRecovery req # es1 @ es2 @
       (if \<exists>p. res = Panic p then [] else [UpdateStatus i'])"
    "out = controller_out res stored"
proof -
  note inv = reachable_inv [OF reach]
  obtain s1 es1 t2 res s2 es2 stored where *:
    "trace s1 = trace s @ GetCall KNodeRecovery req # es1"
    "es1 = (if IsZero (StartTime (Status i)) then [CounterInc TotalOperandInstances] else [])"
    "inst s1 = i\<lparr>Status := begun (fst (Now c w)) t2 (Status i)\<rparr>"
    "Reconcile (wired c) s1 = (res, s2)" "trace s2 = trace s1 @ es2"
    "list_all (step_effect (current_type (Status (inst s1)))) es2"
    "trace s' = trace s2 @ (if \<exists>p. res = Panic p then [] else [UpdateStatus (inst s2)])"
    "out = controller_out res stored"
    by (rule controller_run [OF get live run])
  let ?st0 = "begun (fst (Now c w)) t2 (Status i)"
  note wf = life_inv_begun [OF inv live(2,3), of "fst (Now c w)" t2]
  have "wp (Reconcile (wired c)) (\<lambda>res s'. handled (Status (inst s1)) res (Status (inst s'))) s1"
    by (rule wr.wp_Reconcile) (use *(3) wf in simp_all)
  from wpD [OF this *(4)] have "handled ?st0 res (Status (inst s2))" using *(3) by simp
  moreover note machine_of_begun [OF inv live(2,3), of "fst (Now c w)" t2]
  ultimately show ?thesis using * wf by (intro that [of ?st0 res "inst s2" es1 es2 stored]) auto
qed

section \<open>Histories have bounded length\<close>

lemma legal_history_sorted:
  "legal_history ts \<Longrightarrow> sorted (map rank ts) \<and> distinct (filter (\<lambda>t. t \<noteq> ForceDeleteRookCephOSDPods) ts)"
proof (induction rule: legal_history_induct)
  case (extend ts t)
  have "rank u \<le> rank t" if "u \<in> set ts" for u
    using legal_history_rank [OF extend.hyps(1) that] edge_rank_le [OF extend.hyps(2)] by simp
  moreover have "t \<notin> set ts" if "t \<noteq> ForceDeleteRookCephOSDPods"
    using edge_rank [OF extend.hyps(2)] legal_history_rank_notin [OF extend.hyps(1)] that by blast
  ultimately show ?case using extend.IH by (auto simp: sorted_append)
qed simp

definition declared_conditions :: "RecoveryConditionType list" where
  "declared_conditions =
     [EnableCephToolsPod, WaitForCephToolsPodRunning, WaitForOSDPodsStabilize, LabelNodesWithPendingPods,
      ManageCrashLoopBackOffPods, ForceDeleteRookCephOSDPods, ProcessOCSRemovalTemplate,
      CleanupOSDRemovalJob, RetryForceCleanupOSDRemovalJob, WaitForPersistenVolumeBound,
      RestartStorageOperator, DeleteFailedPodsNodeAffinity, StorageClusterFitnessCheck, DisableCephTools]"

lemma declared_iff: "t \<in> set declared_conditions \<longleftrightarrow> (\<forall>x. t \<noteq> OtherCondition x)"
  by (cases t) (simp_all add: declared_conditions_def)

lemma legal_history_length:
  assumes "legal_history ts"
  shows "length (filter (\<lambda>t. t \<noteq> ForceDeleteRookCephOSDPods) ts) \<le> 13"
proof -
  let ?us = "filter (\<lambda>t. t \<noteq> ForceDeleteRookCephOSDPods) ts"
  have "set ?us \<subseteq> set (filter (\<lambda>t. t \<noteq> ForceDeleteRookCephOSDPods) declared_conditions)"
    using legal_history_no_other [OF assms] declared_iff by fastforce
  then have "card (set ?us) \<le> card (set (filter (\<lambda>t. t \<noteq> ForceDeleteRookCephOSDPods) declared_conditions))"
    by (rule card_mono [rotated]) simp
  also have "\<dots> = 13" by (simp add: declared_conditions_def)
  finally show ?thesis
    using legal_history_sorted [OF assms] distinct_card [of ?us] by (simp del: set_filter)
qed

text \<open>A condition other than the first follows another one; three of them follow only one.\<close>

lemma legal_history_disable:
  assumes "legal_history ts" and "last ts = DisableCephTools"
  shows "\<exists>us. ts = us @ [StorageClusterFitnessCheck, DisableCephTools]"
proof (cases ts rule: rev_cases)
  case (snoc vs v)
  then have "v = DisableCephTools" "vs \<noteq> []" using assms by (auto simp: legal_history_def)
  then have "legal_history vs" "edge (last vs) DisableCephTools" using assms(1) snoc by simp_all
  then have "last vs = StorageClusterFitnessCheck" by (auto elim: edge.cases)
  then have "vs = butlast vs @ [StorageClusterFitnessCheck]" using \<open>vs \<noteq> []\<close> by (metis append_butlast_last_id)
  with snoc \<open>v = DisableCephTools\<close> show ?thesis by (metis append.assoc append_Cons append_Nil)
qed (use assms in simp)

section \<open>Concrete runs\<close>

fun stored_status :: "effect \<Rightarrow> NodeRecovery list" where
  "stored_status (UpdateStatus i) = [i]"
| "stored_status _ = []"

lemma stored_status_iff: "i \<in> set (stored_status e) \<longleftrightarrow> e = UpdateStatus i"
  by (cases e) auto

lemma storesI:
  assumes "fst (Get_NodeRecovery c req (world s)) = Inr i" and "trace s = []"
    and "concat (map stored_status (trace (snd (controller_Reconcile (wired_controller c) req s)))) = [i']"
  shows "stores c i i'"
proof -
  have "i' \<in> set (concat (map stored_status (trace (snd (controller_Reconcile (wired_controller c) req s)))))"
    by (simp add: assms(3))
  then have "UpdateStatus i' \<in> set (trace (snd (controller_Reconcile (wired_controller c) req s)))"
    by (auto simp: stored_status_iff)
  then show ?thesis
    unfolding stores_def using assms(1,2) by (metis append_Nil prod.collapse)
qed

end
