(* ===== verification/Sample_Runs.thy ===== *)
theory Sample_Runs
  imports Lifecycle Sample_Cluster
begin

text \<open>
  Complete runs of the controller on the in-memory cluster \<open>sample\<close>: a recovery with nothing
  to recover goes through the nine conditions of its shortest path and completes. The runs
  are evaluated in the kernel; they are the concrete inputs of the witnesses.
\<close>

section \<open>The objects of the runs\<close>

definition sample_condition :: "StatusType \<Rightarrow> RecoveryConditionType \<Rightarrow> RecoveryCondition" where
  "sample_condition st ty =
     \<lparr>cond_Type = ty, cond_LastProbeTime = 1000 * Second, cond_LastTransitionTime = 1000 * Second,
      cond_Reason = NoReason, cond_Message = [], cond_Status = st\<rparr>"

text \<open>A recovery that runs in the last of the given conditions.\<close>

definition running_at :: "RecoveryConditionType list \<Rightarrow> NodeRecovery" where
  "running_at ts =
     new_recovery\<lparr>Status := new_status\<lparr>Phase := RunningPhase, StartTime := Some (1000 * Second),
       Conditions := map (sample_condition StatusFalse) (butlast ts) @ [sample_condition StatusTrue (last ts)]\<rparr>\<rparr>"

definition short_path :: "RecoveryConditionType list" where
  "short_path =
     [EnableCephToolsPod, WaitForCephToolsPodRunning, WaitForOSDPodsStabilize, LabelNodesWithPendingPods,
      ManageCrashLoopBackOffPods, RestartStorageOperator, DeleteFailedPodsNodeAffinity,
      StorageClusterFitnessCheck, DisableCephTools]"

definition completed_recovery :: NodeRecovery where
  "completed_recovery =
     (running_at short_path)\<lparr>Status := (Status (running_at short_path))
        \<lparr>Phase := CompletedPhase, CompletionTime := Some (1000 * Second)\<rparr>\<rparr>"

text \<open>Instants are stored with a precision of one second.\<close>

definition whole_seconds :: "time \<Rightarrow> time" where
  "whole_seconds t = t div Second * Second"

definition run_in ::
  "(NodeRecovery \<Rightarrow> cluster) \<Rightarrow> NodeRecovery \<Rightarrow> (go_error, Result \<times> go_error option) result \<times> cluster st" where
  "run_in cl i = controller_Reconcile (wired_controller sample) recovery_key (at_rest (cl i) i)"

definition stored_in :: "(NodeRecovery \<Rightarrow> cluster) \<Rightarrow> NodeRecovery \<Rightarrow> NodeRecovery list" where
  "stored_in cl i = concat (map stored_status (trace (snd (run_in cl i))))"

text \<open>A recovery of the failed disk that has recorded the device.\<close>

definition device_2 :: NodePV where
  "device_2 = \<lparr>nd_NodeName = ''node-2'', nd_PersistentVolumeName = ''local-pv-2'', nd_FailingOSDID = ''2''\<rparr>"

definition with_device :: "RecoveryConditionType list \<Rightarrow> NodeRecovery" where
  "with_device ts =
     (running_at ts)\<lparr>Status := (Status (running_at ts))
        \<lparr>CrashLoopBackOffPods := True, NodeDevice := [Some device_2], OperationalOSDIDs := [''0'', ''1'', ''3'']\<rparr>\<rparr>"

section \<open>The runs\<close>

lemma sample_clock: "sane_clock sample whole_seconds"
proof -
  have "whole_seconds t \<noteq> 0" if "Second \<le> t" for t
    using that pos_imp_zdiv_pos_iff [of Second t] by (simp add: whole_seconds_def Second_def)
  then show ?thesis
    by (auto simp: sane_clock_def sample_def whole_seconds_def Second_def)
qed

lemma sample_get:
  "cl_recoveries (cl i) = [i] \<Longrightarrow> nr_Name i = ''rec'' \<Longrightarrow>
   Get_NodeRecovery sample recovery_key (world (at_rest (cl i) i)) = (Inr i, cl i)"
  by (simp add: sample_def lookup_by_def recovery_key_def at_rest_def)

lemma sample_recoveries [simp]: "cl_recoveries (healthy i) = [i]" "cl_recoveries (disk_failed i) = [i]"
  by (simp_all add: healthy_def disk_failed_def)

lemma at_rest_trace [simp]: "trace (at_rest w i) = []"
  by (simp add: at_rest_def)

lemma sample_stores:
  assumes "cl_recoveries (cl i) = [i]" and "nr_Name i = ''rec''" and "stored_in cl i = [i']"
  shows "stores sample i i'"
  by (rule storesI [of sample recovery_key "at_rest (cl i) i"])
    (use assms in \<open>simp_all add: sample_get stored_in_def run_in_def\<close>)

lemma sample_first: "stored_in healthy new_recovery = [running_at (take 2 short_path)]"
  by code_simp

lemma sample_second: "stored_in healthy (running_at (take 2 short_path)) = [running_at (take 3 short_path)]"
  by code_simp

lemma sample_third: "stored_in healthy (running_at (take 3 short_path)) = [running_at (take 4 short_path)]"
  by code_simp

lemma sample_fourth: "stored_in healthy (running_at (take 4 short_path)) = [running_at (take 5 short_path)]"
  by code_simp

lemma sample_fifth: "stored_in healthy (running_at (take 5 short_path)) = [running_at (take 6 short_path)]"
  by code_simp

lemma sample_sixth: "stored_in healthy (running_at (take 6 short_path)) = [running_at (take 7 short_path)]"
  by code_simp

lemma sample_seventh: "stored_in healthy (running_at (take 7 short_path)) = [running_at (take 8 short_path)]"
  by code_simp

lemma sample_eighth: "stored_in healthy (running_at (take 8 short_path)) = [running_at (take 9 short_path)]"
  by code_simp

lemma sample_ninth: "stored_in healthy (running_at (take 9 short_path)) = [completed_recovery]"
  by code_simp

lemmas sample_steps = sample_second sample_third sample_fourth sample_fifth sample_sixth
  sample_seventh sample_eighth sample_ninth

text \<open>Every object of the path can be loaded by the controller.\<close>

lemma sample_wire: "wire whole_seconds (running_at ts) = running_at ts"
  by (simp add: wire_def running_at_def wire_status_def wire_condition_def sample_condition_def
      new_recovery_def new_status_def whole_seconds_def Second_def)

lemma sample_name [simp]: "nr_Name (running_at ts) = ''rec''"
  by (simp add: running_at_def new_recovery_def)

lemma sample_reach:
  assumes "reachable sample whole_seconds (running_at ts)" and "stored_in cl (running_at ts) = [i']"
    and "cl_recoveries (cl (running_at ts)) = [running_at ts]"
  shows "reachable sample whole_seconds (wire whole_seconds i')"
  using reachable.stored [OF assms(1) sample_stores [OF assms(3) sample_name assms(2)]] .

lemmas sample_next = sample_reach [where i' = "running_at us" for us, unfolded sample_wire]

lemma reach_new: "reachable sample whole_seconds new_recovery"
  by (rule reachable.created) (simp add: new_recovery_def)

lemma stores_new: "stores sample new_recovery (running_at (take 2 short_path))"
  by (rule sample_stores [of healthy]) (simp_all add: sample_first, simp add: new_recovery_def)

lemma reach_first: "reachable sample whole_seconds (running_at (take 2 short_path))"
  using reachable.stored [OF reach_new stores_new] by (simp only: sample_wire)

lemma reach_eighth: "reachable sample whole_seconds (running_at (take 8 short_path))"
  by (intro sample_next [OF _ sample_seventh sample_recoveries(1)]
      sample_next [OF _ sample_sixth sample_recoveries(1)] sample_next [OF _ sample_fifth sample_recoveries(1)] sample_next [OF _ sample_fourth sample_recoveries(1)]
      sample_next [OF _ sample_third sample_recoveries(1)] sample_next [OF _ sample_second sample_recoveries(1)] reach_first)

lemma reach_last: "reachable sample whole_seconds (running_at (take 9 short_path))"
  by (rule sample_next [OF reach_eighth sample_eighth sample_recoveries(1)])

lemma stores_last: "stores sample (running_at (take 9 short_path)) completed_recovery"
  by (rule sample_stores [of healthy]) (simp_all add: sample_ninth)

lemma completed_wire: "wire whole_seconds completed_recovery = completed_recovery"
  by code_simp

lemma reach_completed: "reachable sample whole_seconds completed_recovery"
  using reachable.stored [OF reach_last stores_last] by (simp only: completed_wire)

section \<open>The failed disk\<close>

lemma disk_failed_first:
  "stored_in disk_failed (running_at (take 5 short_path)) =
     [with_device (take 5 short_path @ [ForceDeleteRookCephOSDPods])]"
  by code_simp

lemma with_device_wire: "wire whole_seconds (with_device ts) = with_device ts"
  by (simp add: wire_def with_device_def running_at_def wire_status_def wire_condition_def sample_condition_def
      new_recovery_def new_status_def whole_seconds_def Second_def)

lemma reach_fifth: "reachable sample whole_seconds (running_at (take 5 short_path))"
  by (intro sample_next [OF _ sample_fourth sample_recoveries(1)] sample_next [OF _ sample_third sample_recoveries(1)]
      sample_next [OF _ sample_second sample_recoveries(1)] reach_first)

lemma reach_force_delete:
  "reachable sample whole_seconds (with_device (take 5 short_path @ [ForceDeleteRookCephOSDPods]))"
  using sample_reach [OF reach_fifth disk_failed_first sample_recoveries(2)] by (simp only: with_device_wire)

end
