(* ===== verification/Step_Properties.thy ===== *)
theory Step_Properties
  imports Sample_Runs Recovery_Ops_Properties
begin

text \<open>
  The decisions of the single steps of \<open>Reconcile\<close>: the timeout, the fitness check, the removal
  of OSD pods and of the old job, the wait for the volumes, and the clean-up of the Ceph tools.
\<close>

section \<open>The reconciliation timeout\<close>

definition probed :: "time \<Rightarrow> NodeRecoveryStatus \<Rightarrow> NodeRecoveryStatus" where
  "probed t = set_latest (\<lambda>l. l\<lparr>cond_LastProbeTime := t\<rparr>)"

lemma Reconcile_run:
  assumes "Conditions (Status (inst s)) \<noteq> []"
    and "Now (rc_Client r) (world s) = (t1, w1)" and "Now (rc_Client r) w1 = (t2, w2)"
  defines "latest \<equiv> (last (Conditions (Status (inst s))))\<lparr>cond_LastProbeTime := t1\<rparr>"
  shows "Reconcile r s =
    (if cond_LastTransitionTime latest + reconciliationTimeout < t2 then time_out latest else run_step r latest)
      (s\<lparr>inst := (inst s)\<lparr>Status := probed t1 (Status (inst s))\<rparr>, world := w2\<rparr>)"
  using assms
  by (simp add: Reconcile_def getLatestCondition_def bind_get_status bind_def time_Now_def run_get_status
      run_modify_status run_ret probed_def After_def)

lemma time_out_run:
  assumes "None \<notin> set (NodeDevice (Status (inst s)))"
  shows "time_out l s = (Ok no_requeue, s\<lparr>inst := (inst s)\<lparr>Status := (Status (inst s))\<lparr>Phase := FailedPhase\<rparr>\<rparr>,
    trace := trace s @
      [Eventf ''Error'' ''Reconciliation'' (''failed to reconcile after retrying for 5 minutes: '' @ cond_Message l) []] @
      map (\<lambda>p. CounterInc (FailedRecoveryForNode (nd_NodeName (the p)))) (NodeDevice (Status (inst s))) @
      [CounterInc (FailedOperandInstances (condition_string (cond_Type l)))]\<rparr>)"
proof -
  let ?s2 = "s\<lparr>inst := (inst s)\<lparr>Status := (Status (inst s))\<lparr>Phase := FailedPhase\<rparr>\<rparr>, trace := trace s @
      [Eventf ''Error'' ''Reconciliation'' (''failed to reconcile after retrying for 5 minutes: '' @ cond_Message l) []]\<rparr>"
  have "NodeDevice (Status (inst ?s2)) = NodeDevice (Status (inst s))" by simp
  then have "IncrementFailedNodeCounter ?s2 = (Ok (), ?s2\<lparr>trace := trace ?s2 @
      map (\<lambda>p. CounterInc (FailedRecoveryForNode (nd_NodeName (the p)))) (NodeDevice (Status (inst s)))\<rparr>)"
    using IncrementFailedNodeCounter_run [of ?s2] assms by metis
  then show ?thesis
    by (simp add: time_out_def set_phase_def bind_def run_modify_status run_emit run_ret)
qed

text \<open>
  C25. A pass that finds the current condition older than thirty minutes calls nothing but the
  clock: it marks the recovery failed, records one event and one failure per recorded device and
  one for the condition, and is not queued again. Up to and including thirty minutes the pass
  runs the step of the current condition instead.
\<close>

theorem reconciliation_timeout:
  assumes "Conditions (Status (inst s)) \<noteq> []" and "None \<notin> set (NodeDevice (Status (inst s)))"
    and "Now (rc_Client r) (world s) = (t1, w1)" and "Now (rc_Client r) w1 = (t2, w2)"
  defines "latest \<equiv> last (Conditions (Status (inst s)))"
  defines "s1 \<equiv> s\<lparr>inst := (inst s)\<lparr>Status := probed t1 (Status (inst s))\<rparr>, world := w2\<rparr>"
  shows "Reconcile r s =
    (if cond_LastTransitionTime latest + 30 * Minute < t2
     then (Ok no_requeue, s1\<lparr>inst := (inst s1)\<lparr>Status := (Status (inst s1))\<lparr>Phase := FailedPhase\<rparr>\<rparr>,
        trace := trace s @
          [Eventf ''Error'' ''Reconciliation'' (''failed to reconcile after retrying for 5 minutes: '' @ cond_Message latest) []] @
          map (\<lambda>p. CounterInc (FailedRecoveryForNode (nd_NodeName (the p)))) (NodeDevice (Status (inst s))) @
          [CounterInc (FailedOperandInstances (condition_string (cond_Type latest)))]\<rparr>)
     else run_step r (latest\<lparr>cond_LastProbeTime := t1\<rparr>) s1)"
proof -
  have "NodeDevice (Status (inst s1)) = NodeDevice (Status (inst s))" "trace s1 = trace s"
    by (simp_all add: s1_def probed_def)
  with time_out_run [of s1 "latest\<lparr>cond_LastProbeTime := t1\<rparr>"] assms(2) show ?thesis
    unfolding Reconcile_run [OF assms(1,3,4)] by (simp add: latest_def s1_def reconciliationTimeout_def)
qed

theorem reconciliation_timeout_witness:
  "fst (Reconcile (wired sample) (at_rest ((healthy new_recovery)\<lparr>cl_now := 2801 * Second\<rparr>) (running_at [EnableCephToolsPod]))) = Ok no_requeue \<and>
   Phase (Status (inst (snd (Reconcile (wired sample)
     (at_rest ((healthy new_recovery)\<lparr>cl_now := 2801 * Second\<rparr>) (running_at [EnableCephToolsPod])))))) = FailedPhase"
  using reconciliation_timeout [of "at_rest ((healthy new_recovery)\<lparr>cl_now := 2801 * Second\<rparr>) (running_at [EnableCephToolsPod])"
      "wired sample" "2801 * Second" "(healthy new_recovery)\<lparr>cl_now := 2801 * Second\<rparr>"
      "2801 * Second" "(healthy new_recovery)\<lparr>cl_now := 2801 * Second\<rparr>"]
  by (simp add: at_rest_def running_at_def new_recovery_def new_status_def sample_condition_def wired_def
      sample_def Second_def Minute_def)

section \<open>The fitness check\<close>

lemma transition_run:
  assumes "Conditions (Status (inst s)) \<noteq> []"
  shows "\<exists>w t1 t2. transitionNextCondition c ty s =
    (Ok (), s\<lparr>world := w, inst := (inst s)\<lparr>Status := push_condition (new_condition ty t1 t2) (Status (inst s))\<rparr>\<rparr>)"
proof -
  obtain t1 w1 t2 w2 where "Now c (world s) = (t1, w1)" "Now c w1 = (t2, w2)" by fastforce
  with assms have "transitionNextCondition c ty s = (Ok (), s\<lparr>world := w2,
      inst := (inst s)\<lparr>Status := push_condition (new_condition ty t1 t2) (Status (inst s))\<rparr>\<rparr>)"
    by (simp add: transitionNextCondition_def bind_def time_Now_def run_modify_status run_get_status)
  then show ?thesis by blast
qed

lemma go_to_run:
  assumes "Conditions (Status (inst s)) \<noteq> []"
  shows "\<exists>w t1 t2. go_to r ty out s =
    (Ok out, s\<lparr>world := w, inst := (inst s)\<lparr>Status := push_condition (new_condition ty t1 t2) (Status (inst s))\<rparr>\<rparr>)"
proof -
  obtain w t1 t2 where "transitionNextCondition (rc_Client r) ty s =
      (Ok (), s\<lparr>world := w, inst := (inst s)\<lparr>Status := push_condition (new_condition ty t1 t2) (Status (inst s))\<rparr>\<rparr>)"
    using transition_run [OF assms] by blast
  then have "go_to r ty out s =
      (Ok out, s\<lparr>world := w, inst := (inst s)\<lparr>Status := push_condition (new_condition ty t1 t2) (Status (inst s))\<rparr>\<rparr>)"
    by (simp add: go_to_def bind_def run_ret)
  then show ?thesis by blast
qed

text \<open>
  C26. The recovery moves on from the fitness check exactly when the Ceph cluster reports
  \<open>HEALTH_OK\<close>. With any other status it stays, and if the crash messages could be archived it
  is queued again in fifteen seconds with the status in its message.
\<close>

theorem fitness_check_gate:
  assumes "step_StorageClusterFitnessCheck (wired c) s = (out, s')" and "Conditions (Status (inst s)) \<noteq> []"
  defines "st \<equiv> Status (inst s)" and "st' \<equiv> Status (inst s')"
  shows "(cond_types st' = cond_types st @ [DisableCephTools] \<longleftrightarrow>
           (\<exists>s1. getCephHealthStatus (wired c) s = (Ok HEALTH_OK, s1))) \<and>
    (cond_types st' = cond_types st @ [DisableCephTools] \<or> cond_types st' = cond_types st) \<and>
    (\<forall>h s1 res. getCephHealthStatus (wired c) s = (Ok h, s1) \<longrightarrow> h \<noteq> HEALTH_OK \<longrightarrow> out = Ok res \<longrightarrow>
       res = requeue_after (15 * Second) \<and>
       cond_Message (last (Conditions st')) = ''Waiting for cluster to become healthy: '' @ h)"
proof -
  obtain res s1 where run: "getCephHealthStatus (wired c) s = (res, s1)" by fastforce
  have inst1: "inst s1 = inst s"
    using upholdsD [OF wr.footprint_getCephHealthStatus [of "\<lambda>_. True" c] run] by (simp add: grows_frame_def)
  have ne: "Conditions (Status (inst s1)) \<noteq> []" using inst1 assms(2) by simp
  show ?thesis
  proof (cases "res = Ok HEALTH_OK")
    case True
    obtain w t1 t2 where "go_to (wired c) DisableCephTools requeue s1 = (Ok requeue, s1\<lparr>world := w,
        inst := (inst s1)\<lparr>Status := push_condition (new_condition DisableCephTools t1 t2) (Status (inst s1))\<rparr>\<rparr>)"
      using go_to_run [OF ne] by blast
    with True run assms(1) have "inst s' = (inst s1)\<lparr>Status := push_condition (new_condition DisableCephTools t1 t2) (Status (inst s1))\<rparr>"
      by (auto simp: step_StorageClusterFitnessCheck_def bind_def onErr_def)
    then have "cond_types st' = cond_types st @ [DisableCephTools]"
      unfolding st'_def st_def using inst1 by (simp add: map_update_last_same)
    with True run show ?thesis by auto
  next
    case False
    have keeps: "inst u = inst v" if "archiveCephDaemonCrashMessages (wired c) v = (x, u)" for x u v
      using upholdsD [OF wr.footprint_archiveCephDaemonCrashMessages [of "\<lambda>_. True" c] that] by (simp add: grows_frame_def)
    have "cond_types st' = cond_types st \<and> (\<forall>h r. res = Ok h \<longrightarrow> out = Ok r \<longrightarrow> r = requeue_after (15 * Second) \<and>
        cond_Message (last (Conditions st')) = ''Waiting for cluster to become healthy: '' @ h)"
      using assms(1) run inst1 ne False
      by (auto simp: step_StorageClusterFitnessCheck_def bind_def onErr_def fail_with_def set_reason_def set_message_def
          run_modify_status run_throw run_ret st_def st'_def map_update_last_same dest!: keeps
          split: result.splits prod.splits)
    with False run show ?thesis by auto
  qed
qed

theorem fitness_check_gate_witness:
  "cond_types (Status (inst (snd (step_StorageClusterFitnessCheck (wired sample)
     (at_rest (healthy new_recovery) (running_at [StorageClusterFitnessCheck])))))) =
   [StorageClusterFitnessCheck, DisableCephTools]"
proof -
  let ?s = "at_rest (healthy new_recovery) (running_at [StorageClusterFitnessCheck])"
  have "fst (getCephHealthStatus (wired sample) ?s) = Ok HEALTH_OK" by code_simp
  from run_fst [of "getCephHealthStatus (wired sample)", OF this]
  have "\<exists>s1. getCephHealthStatus (wired sample) ?s = (Ok HEALTH_OK, s1)" by blast
  moreover have "Conditions (Status (inst ?s)) \<noteq> []" by (simp add: at_rest_def running_at_def)
  moreover have "cond_types (Status (inst ?s)) = [StorageClusterFitnessCheck]"
    by (simp add: at_rest_def running_at_def sample_condition_def)
  moreover note fitness_check_gate [where c = sample, OF surjective_pairing calculation(2), THEN conjunct1]
  ultimately show ?thesis by simp
qed

section \<open>The Ceph tools are left as found\<close>

lemma set_tools_one_write:
  assumes "setEnableCephToolsValue r v s = (Ok (), s')"
  shows "\<exists>e. filter is_write (trace s') = filter is_write (trace s) @ [e] \<and> sets_tools v e"
  using setEnableCephToolsValue_Ok [OF assms] by (auto simp: sets_tools_def split: if_splits)

lemma is_tools_no_write:
  assumes "isCephToolsEnabled r s = (out, s')"
  shows "filter is_write (trace s') = filter is_write (trace s) \<and> inst s' = inst s"
  using upholdsD [OF footprint_isCephToolsEnabled [of "\<lambda>e. \<not> is_write e" r] assms]
  by (auto simp: grows_frame_def grows_def list_all_iff filter_empty_conv)

lemma set_tools_frame:
  "setEnableCephToolsValue r v s = (out, s') \<Longrightarrow> inst s' = inst s"
  using upholdsD [OF footprint_setEnableCephToolsValue [of "\<lambda>_. True" v r]] by (simp add: grows_frame_def)

lemma go_to_frame:
  assumes "go_to r ty out s = (x, s')" and "Conditions (Status (inst s)) \<noteq> []"
  shows "x = Ok out \<and> trace s' = trace s \<and> KeepCephToolsPod (Status (inst s')) = KeepCephToolsPod (Status (inst s))"
proof -
  obtain w t1 t2 where "go_to r ty out s =
      (Ok out, s\<lparr>world := w, inst := (inst s)\<lparr>Status := push_condition (new_condition ty t1 t2) (Status (inst s))\<rparr>\<rparr>)"
    using go_to_run [OF assms(2)] by blast
  with assms(1) show ?thesis by auto
qed

lemma enable_step_set:
  assumes "step_EnableCephToolsPod r s = (Ok out, s')" and "isCephToolsEnabled r s = (Ok False, s1)"
  obtains s2 where "setEnableCephToolsValue r True s1 = (Ok (), s2)"
    "go_to r WaitForCephToolsPodRunning (requeue_after (10 * Second)) s2 = (Ok out, s')"
  using assms
  by (auto simp: step_EnableCephToolsPod_def enableCephTools_def bind_def onErr_def fail_with_def set_reason_def
      run_modify_status run_throw split: prod.splits result.splits)

lemma enable_step_writes:
  assumes "step_EnableCephToolsPod r s = (Ok out, s')" and "Conditions (Status (inst s)) \<noteq> []"
    and "isCephToolsEnabled r s = (Ok enabled, s1)"
  shows "KeepCephToolsPod (Status (inst s')) = (enabled \<or> KeepCephToolsPod (Status (inst s))) \<and>
      (if enabled then filter is_write (trace s') = filter is_write (trace s)
       else \<exists>e. filter is_write (trace s') = filter is_write (trace s) @ [e] \<and> sets_tools True e)"
proof (cases enabled)
  note pure = is_tools_no_write [OF assms(3)]
  case True
  let ?s2 = "s1\<lparr>inst := (inst s1)\<lparr>Status := (Status (inst s1))\<lparr>KeepCephToolsPod := True\<rparr>\<rparr>\<rparr>"
  have "go_to r WaitForCephToolsPodRunning (requeue_after (10 * Second)) ?s2 = (Ok out, s')"
    using assms(1,3) True by (simp add: step_EnableCephToolsPod_def bind_def onErr_def run_modify_status)
  from go_to_frame [OF this] True pure assms(2) show ?thesis by simp
next
  note pure = is_tools_no_write [OF assms(3)]
  case False
  with assms(1,3) obtain s2 where set: "setEnableCephToolsValue r True s1 = (Ok (), s2)"
    and move: "go_to r WaitForCephToolsPodRunning (requeue_after (10 * Second)) s2 = (Ok out, s')"
    by (auto elim: enable_step_set)
  from go_to_frame [OF move] set_tools_frame [OF set] set_tools_one_write [OF set] pure assms(2) False
  show ?thesis by auto
qed

lemma disable_step_writes:
  assumes "step_DisableCephTools r u = (Ok (), u')"
  shows "if KeepCephToolsPod (Status (inst u)) then filter is_write (trace u') = filter is_write (trace u)
       else \<exists>e. filter is_write (trace u') = filter is_write (trace u) @ [e] \<and> sets_tools False e"
proof -
  have metrics: "filter is_write (trace b) = filter is_write (trace a)"
    if "IncrementCompletedOperandCounter a = (x, b)" for a b :: "'a st" and x
    using upholdsD [OF footprint_IncrementCompletedOperandCounter [of "\<lambda>e. \<not> is_write e"] that]
    by (auto simp: grows_frame_def grows_def list_all_iff filter_empty_conv)
  show ?thesis
  proof (cases "KeepCephToolsPod (Status (inst u))")
    case True
    with assms metrics [of u "Ok ()" u'] show ?thesis by (simp add: step_DisableCephTools_def bind_get_status)
  next
    case False
    with assms obtain s2 where "setEnableCephToolsValue r False u = (Ok (), s2)"
      "IncrementCompletedOperandCounter s2 = (Ok (), u')"
      by (auto simp: step_DisableCephTools_def disableCephTools_def bind_def run_get_status onErr_def fail_with_def
          set_reason_def run_modify_status run_throw split: prod.splits result.splits)
    with False set_tools_one_write metrics show ?thesis by fastforce
  qed
qed

section \<open>The removal job\<close>

lemma footprint_inst: "footprint (\<lambda>_. True) m \<Longrightarrow> m s = (x, s') \<Longrightarrow> inst s' = inst s"
  using upholdsD by (fastforce simp: grows_frame_def)

lemma job_frames:
  "deleteOldOSDRemovalJob r s = (x, s') \<Longrightarrow> inst s' = inst s"
  "getOSDIDsFromNodeDevices nds s = (y, s') \<Longrightarrow> inst s' = inst s"
  "processOCSOSDRemovalTemplate r ids forced s = (x, s') \<Longrightarrow> inst s' = inst s"
  by (erule footprint_inst [rotated],
      simp add: footprint_deleteOldOSDRemovalJob footprint_getOSDIDsFromNodeDevices footprint_processOCSOSDRemovalTemplate)+






section \<open>Pods that do not terminate\<close>

lemma getOSDIDs_run:
  assumes "None \<notin> set nds"
  shows "getOSDIDsFromNodeDevices nds s = (Ok (map (nd_FailingOSDID \<circ> the) nds), s)"
proof -
  have "foldM (\<lambda>r p. bind (deref p) (\<lambda>nd. ret (r @ [nd_FailingOSDID nd]))) acc nds s =
      (Ok (acc @ map (nd_FailingOSDID \<circ> the) nds), s)" for acc
    using assms
  proof (induction nds arbitrary: acc)
    case (Cons p nds)
    then obtain nd where "p = Some nd" by (cases p) auto
    with Cons show ?case by simp
  qed (simp add: run_ret)
  from this [of "[]"] show ?thesis by (simp add: getOSDIDsFromNodeDevices_def)
qed

text \<open>What was seen of an OSD's pods: none left, or the first one deleted over a minute ago.\<close>

definition osd_pods_seen :: "('w, 'v) Recoverer \<Rightarrow> string \<Rightarrow> Pod list \<Rightarrow> bool" where
  "osd_pods_seen r osdID pods \<longleftrightarrow>
     (\<exists>u u'. getOSDPodsWithID r osdID u = (Ok pods, u')) \<and>
     (pods \<noteq> [] \<longrightarrow> (\<exists>t w. pod_DeletionTimestamp (hd pods) = Some t \<and> t + Minute \<le> fst (Now (rc_Client r) w)))"

lemma count_terminating_Some:
  assumes "count_terminating r c ids s = (Ok (Some n), s')"
  shows "\<exists>podss. list_all2 (osd_pods_seen r) ids podss \<and> n = c + length (filter (\<lambda>pods. pods \<noteq> []) podss)"
  using assms
proof (induction ids arbitrary: c s)
  case (Cons i ids)
  note IH = Cons.IH
  from Cons obtain pods s1 where pods: "getOSDPodsWithID r i s = (Ok pods, s1)"
    and rest: "(case pods of [] \<Rightarrow> count_terminating r c ids
     | p # _ \<Rightarrow> bind (time_Now (rc_Client r)) (\<lambda>now. bind (deref (pod_DeletionTimestamp p)) (\<lambda>deleted.
         if Before now (deleted + Minute) then ret None else count_terminating r (Suc c) ids))) s1 = (Ok (Some n), s')"
    by (auto simp: bind_eq_Ok)
  show ?case
  proof (cases pods)
    case Nil
    with pods have "osd_pods_seen r i pods" by (auto simp: osd_pods_seen_def)
    moreover from Nil rest IH [of c s1] obtain podss where "list_all2 (osd_pods_seen r) ids podss"
      "n = c + length (filter (\<lambda>pods. pods \<noteq> []) podss)" by auto
    ultimately show ?thesis using Nil by (intro exI [of _ "[] # podss"]) auto
  next
    case (Cons p ps)
    with rest obtain t now s2 where t: "pod_DeletionTimestamp p = Some t" "fst (Now (rc_Client r) (world s1)) = now"
      "t + Minute \<le> now" and go_on: "count_terminating r (Suc c) ids s2 = (Ok (Some n), s')"
      by (auto simp: bind_eq_Ok time_Now_Ok deref_Ok run_ret Before_def not_less split: if_splits)
    then have "osd_pods_seen r i pods" using pods Cons by (auto simp: osd_pods_seen_def)
    moreover from IH [OF go_on] obtain podss where "list_all2 (osd_pods_seen r) ids podss"
      "n = Suc c + length (filter (\<lambda>pods. pods \<noteq> []) podss)" by auto
    ultimately show ?thesis using Cons by (intro exI [of _ "pods # podss"]) auto
  qed
qed (simp add: ret_def)

text \<open>
  C29. Of every failing OSD the first pod that is left decides whether the OSD pods are deleted by force: in a pass that returns
  normally, either the first pod of some OSD was deleted less than a minute ago, and the pass changes nothing and
  waits fifteen seconds; or for every failing OSD the first pod that is left was deleted at least
  a minute ago. If any is left all pods of the failing OSDs are deleted without grace and the
  condition is entered again; if none is left the recovery moves on to the removal template. The comments of the code say that the
  pods have been terminating for over a minute; a second pod of an OSD is deleted by force however short it has been
  terminating, as the witness shows.
\<close>

theorem force_delete_only_stuck_pods:
  assumes "step_ForceDeleteRookCephOSDPods r s = (Ok out, s')" and "CrashLoopBackOffPods (Status (inst s))"
    and "None \<notin> set (NodeDevice (Status (inst s)))" and "Conditions (Status (inst s)) \<noteq> []"
  defines "ids \<equiv> map (nd_FailingOSDID \<circ> the) (NodeDevice (Status (inst s)))"
  shows "out = requeue_after (15 * Second) \<and> inst s' = inst s \<and> filter is_write (trace s') = filter is_write (trace s) \<or>
    out = requeue \<and> (\<exists>podss. list_all2 (osd_pods_seen r) ids podss \<and>
      (if \<forall>pods\<in>set podss. pods = []
       then cond_types (Status (inst s')) = cond_types (Status (inst s)) @ [ProcessOCSRemovalTemplate] \<and>
         filter is_write (trace s') = filter is_write (trace s)
       else cond_types (Status (inst s')) = cond_types (Status (inst s)) @ [ForceDeleteRookCephOSDPods] \<and>
         filter is_write (trace s') = filter is_write (trace s) @
           [DeleteAllOfPods (odf_list (osd_id_in (rc_Client r) ids)) (Some 0)]))"
proof -
  have "\<exists>counted s1. count_terminating r 0 ids s = (Ok counted, s1) \<and>
      (case counted of None \<Rightarrow> ret (requeue_after (15 * Second))
       | Some c \<Rightarrow> if 0 < c then bind (forceDeleteRookCephOSDPods r ids) (\<lambda>_. go_to r ForceDeleteRookCephOSDPods requeue)
                   else go_to r ProcessOCSRemovalTemplate requeue) s1 = (Ok out, s')"
    using assms(1,2) getOSDIDs_run [OF assms(3), of s, folded ids_def]
    by (auto simp: step_ForceDeleteRookCephOSDPods_def bind_get_status bind_eq_Ok)
  then obtain counted s1 where count: "count_terminating r 0 ids s = (Ok counted, s1)"
    and rest: "(case counted of None \<Rightarrow> ret (requeue_after (15 * Second))
       | Some c \<Rightarrow> if 0 < c then bind (forceDeleteRookCephOSDPods r ids) (\<lambda>_. go_to r ForceDeleteRookCephOSDPods requeue)
                   else go_to r ProcessOCSRemovalTemplate requeue) s1 = (Ok out, s')" by blast
  have reads: "reads (\<lambda>e. \<not> is_write e)" by (simp add: reads_def)
  have inst1: "inst s1 = inst s"
    using framed_count_terminating [of r 0 ids, THEN upholdsD, OF count] by (simp add: grows_frame_def)
  have quiet: "filter is_write (trace s1) = filter is_write (trace s)"
    using traces_count_terminating [OF reads, THEN upholdsD, OF count]
    by (auto simp: grows_def list_all_iff filter_empty_conv)
  have types: "cond_types (Status (inst b)) = cond_types (Status (inst a)) @ [ty] \<and> trace b = trace a \<and> y = requeue"
    if "go_to r ty requeue a = (Ok y, b)" "inst a = inst s" for ty a b y
  proof -
    have "Conditions (Status (inst a)) \<noteq> []" using that(2) assms(4) by simp
    from go_to_run [OF this, of r ty requeue] that(1) show ?thesis by (auto simp: map_update_last_same)
  qed
  show ?thesis
  proof (cases counted)
    case None
    with rest inst1 quiet show ?thesis by (simp add: run_ret)
  next
    case (Some n)
    from count_terminating_Some [OF count [unfolded Some]] obtain podss where
      seen: "list_all2 (osd_pods_seen r) ids podss" and n: "n = length (filter (\<lambda>pods. pods \<noteq> []) podss)" by auto
    show ?thesis
    proof (cases "n = 0")
      case True
      with n have "\<forall>pods\<in>set podss. pods = []" by (simp add: filter_empty_conv)
      with True Some rest seen quiet inst1 types [of ProcessOCSRemovalTemplate s1 out s'] show ?thesis by auto
    next
      case False
      with Some rest obtain s2 where "forceDeleteRookCephOSDPods r ids s1 = (Ok (), s2)"
        and move: "go_to r ForceDeleteRookCephOSDPods requeue s2 = (Ok out, s')" by (auto simp: bind_eq_Ok)
      then have s2: "inst s2 = inst s1" "trace s2 = trace s1 @ [DeleteAllOfPods (odf_list (osd_id_in (rc_Client r) ids)) (Some 0)]"
        by (auto simp: forceDeleteRookCephOSDPods_def Let_def bind_eq_Ok asSelector_Ok deleteAllOfPods_def call_Ok)
      from False n have "\<not> (\<forall>pods\<in>set podss. pods = [])" by (auto simp: filter_empty_conv)
      with s2 types [OF move] inst1 quiet seen show ?thesis by auto
    qed
  qed
qed

text \<open>Two pods of the failing OSD are left; the second one was deleted a second ago.\<close>

definition two_terminating :: cluster where
  "two_terminating = (healthy new_recovery)\<lparr>cl_pods :=
     [(osd_pod ''2'' [])\<lparr>pod_DeletionTimestamp := Some (900 * Second)\<rparr>,
      (osd_pod ''2'' [])\<lparr>pod_Name := ''rook-ceph-osd-2-new'', pod_DeletionTimestamp := Some (999 * Second)\<rparr>]\<rparr>"

theorem force_delete_only_stuck_pods_witness:
  "filter is_write (trace (snd (step_ForceDeleteRookCephOSDPods (wired sample)
     (at_rest two_terminating (with_device [ForceDeleteRookCephOSDPods]))))) =
   [DeleteAllOfPods (odf_list (osd_id_in sample [''2''])) (Some 0)]"
proof -
  let ?s = "at_rest two_terminating (with_device [ForceDeleteRookCephOSDPods])"
  let ?m = "step_ForceDeleteRookCephOSDPods (wired sample)"
  have out: "fst (?m ?s) = Ok requeue"
    and types: "cond_types (Status (inst (snd (?m ?s)))) = [ForceDeleteRookCephOSDPods, ForceDeleteRookCephOSDPods]"
    by code_simp+
  have s: "CrashLoopBackOffPods (Status (inst ?s))" "NodeDevice (Status (inst ?s)) = [Some device_2]"
    "Conditions (Status (inst ?s)) \<noteq> []" "trace ?s = []" "rc_Client (wired sample) = sample"
    by (simp_all add: at_rest_def with_device_def running_at_def wired_def)
  have "requeue \<noteq> requeue_after (15 * Second)" by (simp add: requeue_def requeue_after_def)
  with force_delete_only_stuck_pods [OF run_fst [of ?m, OF out] s(1) _ s(3)] s types
  show ?thesis by (auto simp: device_2_def split: if_splits)
qed

section \<open>The removal template and the volumes\<close>

text \<open>
  C30. The removal job is created with the forced flag exactly when at most three OSD pods are left,
  and the status records the flag the job was created with; the old job is removed before.
\<close>

theorem removal_forced_iff_few_pods:
  assumes "step_ProcessOCSRemovalTemplate r s = (Ok out, s')" and "None \<notin> set (NodeDevice (Status (inst s)))"
    and "Conditions (Status (inst s)) \<noteq> []"
  defines "ids \<equiv> map (nd_FailingOSDID \<circ> the) (NodeDevice (Status (inst s)))"
  shows "\<exists>s1 pods s2 s3 s4. deleteOldOSDRemovalJob r s = (Ok (), s1) \<and> getOSDPods r s1 = (Ok pods, s2) \<and>
     processOCSOSDRemovalTemplate r ids (length pods \<le> 3) s3 = (Ok (), s4) \<and> trace s3 = trace s2 \<and> trace s' = trace s4 \<and>
     ForcedOSDRemoval (Status (inst s')) = (length pods \<le> 3) \<and> out = requeue_after (10 * Second) \<and>
     cond_types (Status (inst s')) = cond_types (Status (inst s)) @ [CleanupOSDRemovalJob]"
proof -
  from assms(1) obtain s1 pods s2 where del: "deleteOldOSDRemovalJob r s = (Ok (), s1)"
    and pods: "getOSDPods r s1 = (Ok pods, s2)"
    and rest: "bind (getOSDIDsFromNodeDevices (NodeDevice (Status (inst s2)))) (\<lambda>ids.
        bind (processOCSOSDRemovalTemplate r ids (length pods \<le> 3)) (\<lambda>_.
        go_to r CleanupOSDRemovalJob (requeue_after (10 * Second))))
        (s2\<lparr>inst := (inst s2)\<lparr>Status := (Status (inst s2))\<lparr>ForcedOSDRemoval := length pods \<le> 3\<rparr>\<rparr>\<rparr>) = (Ok out, s')"
    (is "bind _ _ ?s3 = _")
    by (auto simp: step_ProcessOCSRemovalTemplate_def bind_eq_Ok [of "deleteOldOSDRemovalJob r"] bind_eq_Ok [of "getOSDPods r"]
        bind_def [of "modify_status _"] run_modify_status bind_get_status)
  have inst2: "inst s2 = inst s"
    using job_frames(1) [OF del] footprint_inst [of "getOSDPods r", OF _ pods] by (simp add: footprint_getOSDPods)
  have "getOSDIDsFromNodeDevices (NodeDevice (Status (inst s2))) ?s3 = (Ok ids, ?s3)"
    using getOSDIDs_run assms(2) inst2 unfolding ids_def by metis
  with rest obtain s4 where tpl: "processOCSOSDRemovalTemplate r ids (length pods \<le> 3) ?s3 = (Ok (), s4)"
    and move: "go_to r CleanupOSDRemovalJob (requeue_after (10 * Second)) s4 = (Ok out, s')" by (auto simp: bind_eq_Ok)
  have inst4: "inst s4 = inst ?s3" by (rule job_frames(3) [OF tpl])
  then have "Conditions (Status (inst s4)) \<noteq> []" using inst2 assms(3) by simp
  from go_to_run [OF this, of r CleanupOSDRemovalJob "requeue_after (10 * Second)"] move inst4 inst2
  have "trace s' = trace s4" "out = requeue_after (10 * Second)" "ForcedOSDRemoval (Status (inst s')) = (length pods \<le> 3)"
    "cond_types (Status (inst s')) = cond_types (Status (inst s)) @ [CleanupOSDRemovalJob]"
    by (auto simp: map_update_last_same)
  moreover have "trace ?s3 = trace s2" by simp
  ultimately show ?thesis using del pods tpl by blast
qed

theorem removal_forced_iff_few_pods_witness:
  "\<not> ForcedOSDRemoval (Status (inst (snd (step_ProcessOCSRemovalTemplate (wired sample)
      (at_rest (disk_failed new_recovery) (with_device [ProcessOCSRemovalTemplate]))))))"
proof -
  let ?s = "at_rest (disk_failed new_recovery) (with_device [ProcessOCSRemovalTemplate])"
  let ?m = "step_ProcessOCSRemovalTemplate (wired sample)"
  have out: "fst (?m ?s) = Ok (requeue_after (10 * Second))" by code_simp
  have s: "NodeDevice (Status (inst ?s)) = [Some device_2]" "Conditions (Status (inst ?s)) \<noteq> []"
    by (simp_all add: at_rest_def with_device_def running_at_def)
  from removal_forced_iff_few_pods [OF run_fst [of ?m, OF out]] s obtain s1 pods s2 where
    *: "deleteOldOSDRemovalJob (wired sample) ?s = (Ok (), s1)" "getOSDPods (wired sample) s1 = (Ok pods, s2)"
    "ForcedOSDRemoval (Status (inst (snd (?m ?s)))) = (length pods \<le> 3)" by auto
  have "map_result id length (fst (getOSDPods (wired sample) (snd (deleteOldOSDRemovalJob (wired sample) ?s)))) = Ok 4"
    by code_simp
  with * show ?thesis by simp
qed

definition volume_loop :: "('w, 'v) Recoverer \<Rightarrow> NodePV option list \<Rightarrow> ('w, go_error option) go" where
  "volume_loop r nds =
     foldM (\<lambda>errs p.
             bind (deref p) (\<lambda>nd.
             bind (getPVsForNode r (nd_NodeName nd)) (\<lambda>pvs.
             bind (processPVForNode r nd pvs) (\<lambda>err.
             ret (errors_Join [errs, err]))))) None nds"

lemma volume_loop_frame: "volume_loop r nds s = (x, s') \<Longrightarrow> inst s' = inst s"
  by (erule footprint_inst [rotated])
    (auto simp: volume_loop_def intro!: ceph_base footprint_getPVsForNode footprint_processPVForNode)

lemma volume_loop_clean:
  assumes "volume_loop r nds s = (Ok None, s')"
  shows "\<forall>p\<in>set nds. \<exists>nd u u' pvs. p = Some nd \<and> getPVsForNode r (nd_NodeName nd) u = (Ok pvs, u') \<and>
    pvs \<noteq> [] \<and> filter (released nd) pvs = []"
proof -
  let ?f = "\<lambda>errs p. bind (deref p) (\<lambda>nd. bind (getPVsForNode r (nd_NodeName nd)) (\<lambda>pvs.
             bind (processPVForNode r nd pvs) (\<lambda>err. ret (errors_Join [errs, err]))))"
  have "errs = None \<and> (\<forall>p\<in>set nds. \<exists>nd u u' pvs. p = Some nd \<and> getPVsForNode r (nd_NodeName nd) u = (Ok pvs, u') \<and>
      pvs \<noteq> [] \<and> filter (released nd) pvs = [])" if "foldM ?f errs nds s = (Ok None, s')" for errs s
    using that
  proof (induction nds arbitrary: errs s)
    case (Cons p nds)
    then obtain nd pvs err s1 s2 s3 where p: "p = Some nd" and pvs: "getPVsForNode r (nd_NodeName nd) s = (Ok pvs, s1)"
      and pv: "processPVForNode r nd pvs s1 = (Ok err, s2)"
      and rest: "foldM ?f (errors_Join [errs, err]) nds s3 = (Ok None, s')"
      by (auto simp: bind_eq_Ok ret_Ok deref_Ok)
    from Cons.IH [OF rest] have errs: "errors_Join [errs, err] = None"
      and others: "\<forall>p\<in>set nds. \<exists>nd u u' pvs. p = Some nd \<and> getPVsForNode r (nd_NodeName nd) u = (Ok pvs, u') \<and>
        pvs \<noteq> [] \<and> filter (released nd) pvs = []" by blast+
    from errs have none: "errs = None" "err = None" by simp_all
    from processPV_outcome [OF pv] none have "pvs \<noteq> []" "filter (released nd) pvs = []" by blast+
    with p pvs have "\<exists>nd u u' pvs. p = Some nd \<and> getPVsForNode r (nd_NodeName nd) u = (Ok pvs, u') \<and>
        pvs \<noteq> [] \<and> filter (released nd) pvs = []" by blast
    with none others show ?case by simp
  qed (simp add: run_ret)
  with assms show ?thesis unfolding volume_loop_def by blast
qed

text \<open>
  C31. The recovery leaves \<open>WaitForPersistenVolumeBound\<close> only when the node of every recorded device
  has a volume and none of its volumes is the released one of the device, and when the pods
  that run on bound claims are at least as many as the operational OSDs and the recorded
  devices together; in every other case without error it is queued again in fifteen seconds.
\<close>

theorem volumes_bound_gate:
  assumes "step_WaitForPersistenVolumeBound r s = (Ok out, s')" and "Conditions (Status (inst s)) \<noteq> []"
  defines "st \<equiv> Status (inst s)" and "st' \<equiv> Status (inst s')"
  shows "cond_types st' = cond_types st \<and> out = requeue_after (15 * Second) \<or>
    cond_types st' = cond_types st @ [RestartStorageOperator] \<and> out = requeue \<and>
      (\<exists>n u u'. countPVCsBoundToODSPods r u = (Ok n, u') \<and> length (OperationalOSDIDs st) + length (NodeDevice st) \<le> n) \<and>
      (\<forall>p\<in>set (NodeDevice st). \<exists>nd u u' pvs. p = Some nd \<and> getPVsForNode r (nd_NodeName nd) u = (Ok pvs, u') \<and>
         pvs \<noteq> [] \<and> filter (released nd) pvs = [])"
proof -
  let ?late = "\<lambda>m. bind (set_message m) (\<lambda>_. ret (requeue_after (15 * Second)))"
  have wait: "cond_types st' = cond_types st \<and> out = requeue_after (15 * Second)"
    if "?late m u = (Ok out, s')" "inst u = inst s" for m u
    using that by (auto simp: bind_def set_message_def run_modify_status run_ret st_def st'_def map_update_last_same)
  from assms(1) obtain errs s1 where loop: "volume_loop r (NodeDevice st) s = (Ok errs, s1)"
    and rest: "(case errs of Some e \<Rightarrow> ?late (Error e)
     | None \<Rightarrow> bind (attempt (countPVCsBoundToODSPods r)) (\<lambda>counted. case counted of
          Inl e \<Rightarrow> ?late (Error e)
        | Inr pvcs \<Rightarrow> if pvcs < length (OperationalOSDIDs st) + length (NodeDevice st)
            then ?late (''expected to find '' @ digits (length (OperationalOSDIDs st) + length (NodeDevice st)) @
                         '' PVCs bound to OSD pods but found '' @ digits pvcs)
            else go_to r RestartStorageOperator requeue)) s1 = (Ok out, s')"
    unfolding step_WaitForPersistenVolumeBound_def volume_loop_def st_def Let_def
    by (simp only: bind_get_status bind_eq_Ok [where m = "foldM _ _ _"]) blast
  note inst1 = volume_loop_frame [OF loop]
  show ?thesis
  proof (cases errs)
    case (Some e)
    with rest wait [of "Error e" s1] inst1 show ?thesis by simp
  next
    case None
    with rest obtain counted s2 where count: "attempt (countPVCsBoundToODSPods r) s1 = (Ok counted, s2)"
      and go: "(case counted of
          Inl e \<Rightarrow> ?late (Error e)
        | Inr pvcs \<Rightarrow> if pvcs < length (OperationalOSDIDs st) + length (NodeDevice st)
            then ?late (''expected to find '' @ digits (length (OperationalOSDIDs st) + length (NodeDevice st)) @
                         '' PVCs bound to OSD pods but found '' @ digits pvcs)
            else go_to r RestartStorageOperator requeue) s2 = (Ok out, s')"
      by (auto simp: bind_eq_Ok [where m = "attempt _"])
    have inst2: "inst s2 = inst s"
      using count footprint_inst [of "countPVCsBoundToODSPods r" s1] inst1
      by (auto simp: attempt_Ok footprint_countPVCs)
    show ?thesis
    proof (cases "\<exists>n. counted = Inr n \<and> length (OperationalOSDIDs st) + length (NodeDevice st) \<le> n")
      case True
      then obtain n where n: "counted = Inr n" "length (OperationalOSDIDs st) + length (NodeDevice st) \<le> n" by blast
      with go have "go_to r RestartStorageOperator requeue s2 = (Ok out, s')" by simp
      moreover have "Conditions (Status (inst s2)) \<noteq> []" using inst2 assms(2) by simp
      note go_to_run [OF this, of r RestartStorageOperator requeue]
      ultimately have "cond_types st' = cond_types st @ [RestartStorageOperator] \<and> out = requeue"
        using inst2 by (auto simp: st_def st'_def map_update_last_same)
      moreover have "\<exists>u u'. countPVCsBoundToODSPods r u = (Ok n, u')" using count n(1) by (auto simp: attempt_Ok)
      moreover note volume_loop_clean [OF loop [unfolded None]]
      ultimately show ?thesis using n(2) by blast
    next
      case False
      with go wait [OF _ inst2] show ?thesis by (cases counted) auto
    qed
  qed
qed

definition osd_claim :: "string \<Rightarrow> PersistentVolumeClaim" where
  "osd_claim k = \<lparr>pvc_Name = ''claim-'' @ k, pvc_Namespace = ''openshift-storage'',
     pvc_Labels = [''ceph.rook.io/cephImageAtCreation'' \<mapsto> []], pvc_VolumeName = ''local-pv-'' @ k, pvc_Phase = ''Bound''\<rparr>"

theorem volumes_bound_gate_witness:
  "cond_types (Status (inst (snd (step_WaitForPersistenVolumeBound (wired sample)
     (at_rest ((disk_failed new_recovery)\<lparr>cl_pvcs := map osd_claim [''0'', ''1'', ''2'', ''3'']\<rparr>)
       (with_device [WaitForPersistenVolumeBound])))))) = [WaitForPersistenVolumeBound, RestartStorageOperator]"
proof -
  let ?s = "at_rest ((disk_failed new_recovery)\<lparr>cl_pvcs := map osd_claim [''0'', ''1'', ''2'', ''3'']\<rparr>)
       (with_device [WaitForPersistenVolumeBound])"
  let ?m = "step_WaitForPersistenVolumeBound (wired sample)"
  have out: "fst (?m ?s) = Ok requeue" by code_simp
  have s: "cond_types (Status (inst ?s)) = [WaitForPersistenVolumeBound]" "Conditions (Status (inst ?s)) \<noteq> []"
    by (simp_all add: at_rest_def with_device_def running_at_def sample_condition_def)
  have "requeue \<noteq> requeue_after (15 * Second)" by (simp add: requeue_def requeue_after_def)
  with volumes_bound_gate [OF run_fst [of ?m, OF out] s(2)] s(1) show ?thesis by simp
qed

end
