(* ===== verification/Recovery_Ends.thy ===== *)
theory Recovery_Ends
  imports Step_Properties
begin

text \<open>
  Termination of a recovery over any number of passes: the rank of the current condition grows with
  every move but the repeated force deletion, and a condition that is waited for longer than the
  reconciliation timeout fails the recovery.
\<close>

section \<open>Passes at a time\<close>

text \<open>A run of the controller from the state \<open>s\<close> that loads \<open>i\<close> and stores \<open>i'\<close>.\<close>

definition pass :: "('w, 'v) external \<Rightarrow> 'w st \<Rightarrow> NodeRecovery \<Rightarrow> NodeRecovery \<Rightarrow> bool" where
  "pass c s i i' \<longleftrightarrow>
     (\<exists>req out s' w es. Get_NodeRecovery c req (world s) = (Inr i, w) \<and>
        controller_Reconcile (wired_controller c) req s = (out, s') \<and>
        trace s' = trace s @ es \<and> UpdateStatus i' \<in> set es)"

lemma stores_pass: "stores c i i' \<longleftrightarrow> (\<exists>s. pass c s i i')"
  unfolding stores_def pass_def by blast

text \<open>\<open>clock w\<close> is a lower bound of the time in \<open>w\<close>, which reading the clock and the object do not turn back.\<close>

definition advancing :: "('w, 'v) external \<Rightarrow> ('w \<Rightarrow> time) \<Rightarrow> bool" where
  "advancing c clock \<longleftrightarrow>
     (\<forall>w. clock w \<le> fst (Now c w) \<and> clock w \<le> clock (snd (Now c w))) \<and>
     (\<forall>req w. clock w \<le> clock (snd (Get_NodeRecovery c req w)))"

definition ended :: "NodeRecovery \<Rightarrow> bool" where
  "ended i \<longleftrightarrow> Phase (Status i) \<in> {FailedPhase, CompletedPhase}"

definition entered_at :: "NodeRecovery \<Rightarrow> time" where
  "entered_at i = cond_LastTransitionTime (last (Conditions (Status i)))"

text \<open>A pass on a recovery that has started: the object is loaded and \<open>Reconcile\<close> runs on it.\<close>

lemma pass_started:
  assumes "pass c s i i'" and "\<not> IsZero (StartTime (Status i))"
  obtains req w es res s2 where "Get_NodeRecovery c req (world s) = (Inr i, w)"
    "Reconcile (wired c) (s\<lparr>world := w, trace := trace s @ es, inst := i\<rparr>) = (res, s2)" "i' = inst s2"
proof -
  from assms(1) obtain req out s' w es where
    get: "Get_NodeRecovery c req (world s) = (Inr i, w)"
    and run: "controller_Reconcile (wired_controller c) req s = (out, s')"
    and tr: "trace s' = trace s @ es" "UpdateStatus i' \<in> set es"
    by (auto simp: pass_def)
  have stores: "stores c i i'" using assms(1) stores_pass by blast
  have live: "IsZero (nr_DeletionTimestamp i)" "Phase (Status i) \<noteq> FailedPhase" "Phase (Status i) \<noteq> CompletedPhase"
    by (rule storesE [OF stores], assumption)+
  let ?s0 = "s\<lparr>world := w, trace := trace s @ [GetCall KNodeRecovery req], inst := i\<rparr>"
  obtain res s2 where rec: "Reconcile (wired c) ?s0 = (res, s2)" by fastforce
  have c: "nrr_Client (wired_controller c) = c" by (simp add: wired_controller_def)
  have nr: "newNodeRecoveryReconciler c (nrr_CmdRunner (wired_controller c)) (nrr_LogClient (wired_controller c)) = Inr (wired c)"
    using wired_controller_recoverer [of c] by (simp add: c)
  obtain es2 where es2: "trace s2 = trace ?s0 @ es2"
    and quiet: "list_all (step_effect (current_type (Status (inst ?s0)))) es2"
    using wpD [OF wr.wp_Reconcile_effects rec] by (auto simp: grows_def)
  have "trace s' = trace s2 @ (if \<exists>p. res = Panic p then [] else [UpdateStatus (inst s2)])"
    using run get live rec start_recovery_started [of ?s0 c] assms(2)
    by (cases res) (auto simp: controller_Reconcile_def c nr run_simps
        split: prod.splits sum.splits)
  moreover have "UpdateStatus i' \<notin> set es2"
    using quiet step_effect_not_status by (auto simp: list_all_iff)
  ultimately have "i' = inst s2" using tr es2 by (auto split: if_splits)
  with get rec show ?thesis using that by blast
qed

text \<open>A pass on a condition that is too old stores a failed recovery with the conditions it has.\<close>

lemma stalled_pass_fails:
  assumes "pass c s i i'" and "\<not> IsZero (StartTime (Status i))" and "wf_status (Status i)"
    and "advancing c clock" and "entered_at i + reconciliationTimeout < clock (world s)"
  shows "Phase (Status i') = FailedPhase \<and> cond_types (Status i') = cond_types (Status i)"
proof -
  obtain req w es res s2 where get: "Get_NodeRecovery c req (world s) = (Inr i, w)"
    and rec: "Reconcile (wired c) (s\<lparr>world := w, trace := trace s @ es, inst := i\<rparr>) = (res, s2)" and i': "i' = inst s2"
    by (rule pass_started [OF assms(1,2)])
  let ?s0 = "s\<lparr>world := w, trace := trace s @ es, inst := i\<rparr>"
  obtain t1 w1 t2 w2 where now: "Now c w = (t1, w1)" "Now c w1 = (t2, w2)" by fastforce
  have "clock (world s) \<le> clock w" "clock w \<le> clock w1" "clock w1 \<le> t2"
    using assms(4) get now unfolding advancing_def by (metis fst_conv snd_conv)+
  then have late: "entered_at i + reconciliationTimeout < t2" using assms(5) by linarith
  have ne: "Conditions (Status (inst ?s0)) \<noteq> []" and dev: "None \<notin> set (NodeDevice (Status i))"
    using assms(3) by (simp_all add: wf_status_def conditions_wf_def devices_wf_def)
  let ?s1 = "?s0\<lparr>inst := (inst ?s0)\<lparr>Status := probed t1 (Status (inst ?s0))\<rparr>, world := w2\<rparr>"
  have "Reconcile (wired c) ?s0 = time_out ((last (Conditions (Status i)))\<lparr>cond_LastProbeTime := t1\<rparr>) ?s1"
    using Reconcile_run [OF ne, of "wired c" t1 w1 t2 w2] now late by (simp add: wired_def entered_at_def)
  also have "\<dots> = (Ok no_requeue, snd (time_out ((last (Conditions (Status i)))\<lparr>cond_LastProbeTime := t1\<rparr>) ?s1))"
    using time_out_run [of ?s1] dev by (simp add: probed_def)
  finally have "s2 = snd (time_out ((last (Conditions (Status i)))\<lparr>cond_LastProbeTime := t1\<rparr>) ?s1)"
    using rec by simp
  then show ?thesis using time_out_run [of ?s1] dev by (simp add: probed_def i' map_update_last_same)
qed

section \<open>Runs\<close>

text \<open>
  A run of a recovery on an API server. \<open>run n\<close> is the stored object and \<open>ss n\<close> the state of the controller when its
  \<open>n\<close>-th pass may begin. An object that has ended stays as it is, and so does one whose pass does not get through:
  \<open>ok n\<close> is false when the operator is down, the object cannot be loaded, the pass panics or the request to store the
  status is lost. A pass that gets through changes the object to what it stores, provided the server accepts it.
\<close>

definition recovery_run ::
  "('w, 'v) external \<Rightarrow> (time \<Rightarrow> time) \<Rightarrow> (NodeRecovery \<Rightarrow> bool) \<Rightarrow> (nat \<Rightarrow> bool) \<Rightarrow>
   (nat \<Rightarrow> 'w st) \<Rightarrow> (nat \<Rightarrow> NodeRecovery) \<Rightarrow> bool" where
  "recovery_run c f accepts ok ss run \<longleftrightarrow>
     reachable c f (run 0) \<and> accepts (run 0) \<and>
     (\<forall>n. if ended (run n) \<or> \<not> ok n then run (Suc n) = run n
          else \<exists>i'. pass c (ss n) (run n) i' \<and> run (Suc n) = (if accepts i' then wire f i' else run n))"

text \<open>
  The schema of the resource declares the conditions as a list map with key \<open>type\<close>
  (\<open>src/api/v1alpha1/noderecovery_types.go\<close>, lines 100 and 101): the API server refuses an object with two conditions of the
  same type.
\<close>

definition schema_accepts :: "NodeRecovery \<Rightarrow> bool" where
  "schema_accepts i \<longleftrightarrow> distinct (cond_types (Status i))"

definition force_deletes_again :: "NodeRecovery \<Rightarrow> NodeRecovery \<Rightarrow> bool" where
  "force_deletes_again i i' \<longleftrightarrow>
     current_type (Status i) = ForceDeleteRookCephOSDPods \<and>
     cond_types (Status i') = cond_types (Status i) @ [ForceDeleteRookCephOSDPods]"

lemma Status_wire [simp]: "Status (wire f i) = wire_status f (Status i)"
  by (simp add: wire_def)

lemma cond_types_wire [simp]: "map (cond_Type \<circ> wire_condition f) cs = map cond_Type cs"
  by (simp add: comp_def)

lemma recovery_run_step:
  assumes "recovery_run c f accepts ok ss run"
  obtains "run (Suc n) = run n" | i' where "pass c (ss n) (run n) i'" "accepts i'" "run (Suc n) = wire f i'"
proof -
  have "if ended (run n) \<or> \<not> ok n then run (Suc n) = run n
      else \<exists>i'. pass c (ss n) (run n) i' \<and> run (Suc n) = (if accepts i' then wire f i' else run n)"
    using assms by (simp add: recovery_run_def)
  then show thesis using that by (auto split: if_splits)
qed

lemma recovery_run_reachable: "recovery_run c f accepts ok ss run \<Longrightarrow> reachable c f (run n)"
proof (induction n)
  case (Suc n)
  then show ?case
    by (cases rule: recovery_run_step [OF Suc.prems, of n]) (auto intro: reachable.stored dest: stores_pass [THEN iffD2, OF exI])
qed (simp add: recovery_run_def)

lemma entered_at_wire: "Conditions (Status i) \<noteq> [] \<Longrightarrow> entered_at (wire f i) = f (entered_at i)"
  by (simp add: entered_at_def wire_status_def wire_condition_def last_map)

lemma reachable_entered_at:
  assumes "reachable c f i" and "sane_clock c f" and "Conditions (Status i) \<noteq> []"
  shows "f (entered_at i) = entered_at i"
  using assms
proof induction
  case (stored i i')
  then have "Conditions (Status i') \<noteq> []" by simp
  with stored.prems(1) show ?case by (simp add: entered_at_wire sane_clock_def)
qed (simp_all add: new_status_def entered_at_def)

lemma stays_entered_at:
  assumes "stays (Status i) (Status i')" and "Conditions (Status i) \<noteq> []"
  shows "entered_at i' = entered_at i" and "current_type (Status i') = current_type (Status i)"
proof -
  have "Conditions (Status i') \<noteq> []" using assms by (auto simp: stays_def)
  then show "entered_at i' = entered_at i" "current_type (Status i') = current_type (Status i)"
    using assms by (metis entered_at_def last_map stays_def)+
qed

text \<open>What a pass stores is well-formed; a started recovery waits or moves.\<close>

lemma pass_handled:
  assumes "pass c s i i'" and "life_inv (Status i)"
  shows "wf_status (Status i')"
    and "\<not> IsZero (StartTime (Status i)) \<Longrightarrow> stays (Status i) (Status i') \<or> moves (Status i) (Status i')"
proof -
  have "stores c i i'" using assms(1) stores_pass by blast
  then obtain t t2 res where *: "handled (begun t t2 (Status i)) res (Status i')" "\<forall>p. res \<noteq> Panic p"
    using assms(2) by (rule stores_handled) blast
  then show "wf_status (Status i')" by (blast dest: handled_wf)
  show "stays (Status i) (Status i') \<or> moves (Status i) (Status i')" if "\<not> IsZero (StartTime (Status i))"
    using * that by (auto simp: handled_def begun_def split: result.splits)
qed

lemma current_type_wire: "Conditions st \<noteq> [] \<Longrightarrow> current_type (wire_status f st) = current_type st"
  by (simp add: wire_status_def last_map)

text \<open>
  How far a recovery has come: a pass goes up, or enters the force deletion again, or keeps the condition with its time.
\<close>

definition progress :: "NodeRecovery \<Rightarrow> nat" where
  "progress i = (if Status i = new_status then 0 else Suc (rank (current_type (Status i))))"

lemma progress_bound:
  assumes "life_inv (Status i)"
  shows "progress i \<le> 14"
proof (cases "Status i = new_status")
  case False
  then have wf: "wf_status (Status i)" using assms by (simp add: life_inv_def)
  then have "rank (current_type (Status i)) \<le> 13"
    using legal_history_declared [of "cond_types (Status i)"] last_cond_types [OF wf_status_conditions [OF wf]]
    by (simp add: wf_status_def)
  then show ?thesis by (simp add: progress_def)
qed (simp add: progress_def)

lemma wf_not_new: "wf_status st \<Longrightarrow> st \<noteq> new_status"
  by (auto simp: new_status_def wf_status_def conditions_wf_def)

lemma pass_progress:
  assumes pass: "pass c s i i'" and reach: "reachable c f i" "sane_clock c f"
    and once: "\<not> force_deletes_again i i'"
  shows "progress i < progress (wire f i') \<or>
    progress i = progress (wire f i') \<and> entered_at (wire f i') = entered_at i \<and> Status i \<noteq> new_status"
proof -
  note inv = reachable_inv [OF reach]
  note wf' = pass_handled(1) [OF pass inv]
  note ne' = wf_status_conditions [OF wf']
  have new': "Status (wire f i') \<noteq> new_status" using wf_status_wire [OF wf', of f] wf_not_new by simp
  have ty': "current_type (Status (wire f i')) = current_type (Status i')" by (simp only: Status_wire current_type_wire [OF ne'])
  show ?thesis
  proof (cases "Status i = new_status")
    case True
    then show ?thesis using new' by (simp add: progress_def)
  next
    case False
    then have wf: "wf_status (Status i)" and started: "\<not> IsZero (StartTime (Status i))"
      using inv by (simp_all add: life_inv_def)
    note ne = wf_status_conditions [OF wf]
    from pass_handled(2) [OF pass inv started] show ?thesis
    proof
      assume "stays (Status i) (Status i')"
      note stays_entered_at [OF this ne]
      then show ?thesis
        using False new' ty' entered_at_wire [OF ne', of f] reachable_entered_at [OF reach ne] by (simp add: progress_def)
    next
      assume "moves (Status i) (Status i')"
      then obtain t where t: "edge (current_type (Status i)) t" "cond_types (Status i') = cond_types (Status i) @ [t]"
        by (auto simp: moves_def)
      then have "t = current_type (Status i')" using last_cond_types [OF ne'] by (metis last_snoc)
      moreover have "rank (current_type (Status i)) < rank t"
        using edge_rank [OF t(1)] t(2) once by (auto simp: force_deletes_again_def)
      ultimately show ?thesis using False new' ty' by (simp add: progress_def)
    qed
  qed
qed

lemma bounded_sequence_settles:
  fixes r :: "nat \<Rightarrow> nat"
  assumes "\<And>n. r n \<le> r (Suc n)" and "\<And>n. r n \<le> b"
  shows "\<exists>k. \<forall>n\<ge>k. r n = r k"
proof -
  obtain k where "\<forall>n. r n \<le> r k"
    using ex_has_greatest_nat [of "\<lambda>_. True" 0 r "Suc b"] assms(2) by (auto simp: less_Suc_eq_le)
  then show ?thesis using lift_Suc_mono_le [of r, OF assms(1)] by (metis order_antisym)
qed

text \<open>Without a repeated force deletion, the object settles: from some pass on it is in the same condition since the same time.\<close>

lemma run_settles:
  assumes run: "recovery_run c f accepts ok ss run" and clock: "sane_clock c f"
    and once: "\<And>n. N \<le> n \<Longrightarrow> \<not> force_deletes_again (run n) (run (Suc n))"
  shows "\<exists>k. \<forall>n\<ge>k. progress (run n) = progress (run k) \<and> entered_at (run n) = entered_at (run k)"
proof -
  note reach = recovery_run_reachable [OF run]
  have step: "progress (run n) < progress (run (Suc n)) \<or>
      progress (run n) = progress (run (Suc n)) \<and> entered_at (run (Suc n)) = entered_at (run n)" if "N \<le> n" for n
  proof (cases rule: recovery_run_step [OF run, of n])
    case (2 i')
    then have "\<not> force_deletes_again (run n) i'" using once [OF that] by (simp add: force_deletes_again_def)
    from pass_progress [OF 2(1) reach clock this] 2(3) show ?thesis by auto
  qed simp
  have "progress (run (N + n)) \<le> progress (run (N + Suc n))" for n
    using step [of "N + n"] by auto
  moreover have "progress (run (N + n)) \<le> 14" for n
    by (rule progress_bound [OF reachable_inv [OF reach clock]])
  ultimately have "\<exists>k. \<forall>n\<ge>k. progress (run (N + n)) = progress (run (N + k))"
    by (rule bounded_sequence_settles [of "\<lambda>n. progress (run (N + n))"])
  then obtain k where k: "\<And>n. k \<le> n \<Longrightarrow> progress (run (N + n)) = progress (run (N + k))" by blast
  have same: "progress (run n) = progress (run (N + k))" if "N + k \<le> n" for n
    using k [of "n - N"] that by simp
  have "entered_at (run (N + k + m)) = entered_at (run (N + k))" for m
  proof (induction m)
    case (Suc m)
    then show ?case using step [of "N + k + m"] same [of "N + k + m"] same [of "N + k + Suc m"] by simp
  qed simp
  then have "entered_at (run n) = entered_at (run (N + k))" if "N + k \<le> n" for n
    using that by (metis le_Suc_ex)
  with same show ?thesis by blast
qed

text \<open>
  A run whose server refuses nothing but a repeated force deletion ends, or enters the force deletion again and again without
  end. The passes that get through need only be infinitely many.
\<close>

lemma run_ends:
  assumes run: "recovery_run c f accepts ok ss run" and clock: "sane_clock c f" "advancing c clock"
    and time: "\<And>T. \<exists>N. \<forall>n\<ge>N. T < clock (world (ss n))" and fair: "\<And>N. \<exists>n\<ge>N. ok n"
    and refuses: "\<And>n i'. pass c (ss n) (run n) i' \<Longrightarrow> \<not> accepts i' \<Longrightarrow> force_deletes_again (run n) i'"
  shows "(\<exists>n. ended (run n)) \<or> (\<forall>N. \<exists>n\<ge>N. force_deletes_again (run n) (run (Suc n)))"
proof (rule ccontr)
  assume "\<not> ?thesis"
  then obtain N where live: "\<And>n. \<not> ended (run n)"
    and once: "\<And>n. N \<le> n \<Longrightarrow> \<not> force_deletes_again (run n) (run (Suc n))" by blast
  obtain k where k: "\<And>n. k \<le> n \<Longrightarrow> progress (run n) = progress (run k)"
    "\<And>n. k \<le> n \<Longrightarrow> entered_at (run n) = entered_at (run k)"
    using run_settles [OF run clock(1) once] by blast
  obtain m where m: "\<And>n. m \<le> n \<Longrightarrow> entered_at (run k) + reconciliationTimeout < clock (world (ss n))"
    using time by blast
  obtain n where n: "max k m \<le> n" "ok n" using fair by blast
  note reach = recovery_run_reachable [OF run, of n]
  have "\<exists>i'. pass c (ss n) (run n) i' \<and> run (Suc n) = (if accepts i' then wire f i' else run n)"
    using run live [of n] n(2) by (simp add: recovery_run_def)
  then obtain i' where i': "pass c (ss n) (run n) i'" "accepts i' \<Longrightarrow> run (Suc n) = wire f i'" by auto
  note inv = reachable_inv [OF reach clock(1)]
  show False
  proof (cases "Status (run n) = new_status")
    case True
    have wf': "wf_status (Status i')" by (rule pass_handled(1) [OF i'(1) inv])
    then have "\<not> force_deletes_again (run n) i'"
      using True by (auto simp: force_deletes_again_def new_status_def wf_status_def legal_history_def)
    then have "run (Suc n) = wire f i'" using refuses [OF i'(1)] i'(2) by blast
    moreover have "Status (wire f i') \<noteq> new_status" using wf_status_wire [OF wf', of f] wf_not_new by simp
    ultimately have "progress (run n) \<noteq> progress (run (Suc n))" using True by (simp add: progress_def)
    then show False using k(1) [of n] k(1) [of "Suc n"] n(1) by simp
  next
    case False
    then have wf: "wf_status (Status (run n))" "\<not> IsZero (StartTime (Status (run n)))"
      using inv by (simp_all add: life_inv_def)
    have "entered_at (run n) + reconciliationTimeout < clock (world (ss n))"
      using k(2) [of n] m [of n] n(1) by simp
    note failed = stalled_pass_fails [OF i'(1) wf(2,1) clock(2) this]
    then have "\<not> force_deletes_again (run n) i'" by (simp add: force_deletes_again_def)
    then have "run (Suc n) = wire f i'" using refuses [OF i'(1)] i'(2) by blast
    then show False using failed live [of "Suc n"] by (simp add: ended_def)
  qed
qed

text \<open>The schema refuses a pass of a recovery that it has accepted only for a repeated force deletion.\<close>

lemma schema_refuses:
  assumes "pass c s i i'" and "life_inv (Status i)" and "schema_accepts i" and "\<not> schema_accepts i'"
  shows "force_deletes_again i i'"
proof -
  have "stores c i i'" using assms(1) stores_pass by blast
  then obtain t t2 res where *: "handled (begun t t2 (Status i)) res (Status i')" "\<forall>p. res \<noteq> Panic p"
    "wf_status (begun t t2 (Status i))"
    using assms(2) by (rule stores_handled) blast
  let ?st = "begun t t2 (Status i)"
  have types: "distinct (cond_types ?st)"
  proof (cases "Status i = new_status")
    case True
    then show ?thesis by (simp only: wf_status_begun_new) simp
  next
    case False
    then show ?thesis using assms(2,3) by (simp add: life_inv_def begun_def schema_accepts_def)
  qed
  from *(1,2) have "stays ?st (Status i') \<or> moves ?st (Status i')" by (auto simp: handled_def split: result.splits)
  then obtain u where u: "edge (current_type ?st) u" "cond_types (Status i') = cond_types ?st @ [u]"
    using assms(4) types by (auto simp: stays_def moves_def schema_accepts_def)
  have legal: "legal_history (cond_types ?st)" "last (cond_types ?st) = current_type ?st"
    using *(3) last_cond_types by (auto simp: wf_status_def conditions_wf_def)
  have "u \<in> set (cond_types ?st)" using assms(4) types u(2) by (simp add: schema_accepts_def)
  then have again: "current_type ?st = ForceDeleteRookCephOSDPods" "u = ForceDeleteRookCephOSDPods"
    using edge_rank [OF u(1)] legal_history_rank_notin [OF legal(1)] legal(2) by auto
  have "Status i \<noteq> new_status"
  proof
    assume "Status i = new_status"
    then have "cond_types ?st = [EnableCephToolsPod]" by (simp only: wf_status_begun_new)
    then show False using legal(2) again(1) by simp
  qed
  then have "?st = Status i" using assms(2) by (simp add: life_inv_def begun_def)
  then show ?thesis using u(2) again by (simp add: force_deletes_again_def)
qed

lemma schema_run_accepted: "recovery_run c f schema_accepts ok ss run \<Longrightarrow> schema_accepts (run n)"
proof (induction n)
  case (Suc n)
  then show ?case
    by (cases rule: recovery_run_step [OF Suc.prems, of n]) (simp_all add: schema_accepts_def)
qed (simp add: recovery_run_def)

text \<open>
  C2. Every recovery ends: on an API server that enforces the schema of the resource, and on a clock that goes on, it fails or
  completes after finitely many passes. Any number of passes may be lost or fail, as long as infinitely many get through.
\<close>

theorem recovery_ends:
  assumes run: "recovery_run c f schema_accepts ok ss run" and clock: "sane_clock c f" "advancing c clock"
    and time: "\<And>T. \<exists>N. \<forall>n\<ge>N. T < clock (world (ss n))" and fair: "\<And>N. \<exists>n\<ge>N. ok n"
  shows "\<exists>n. ended (run n)"
proof (rule ccontr)
  assume live: "\<nexists>n. ended (run n)"
  note accepted = schema_run_accepted [OF run]
  note inv = reachable_inv [OF recovery_run_reachable [OF run] clock(1)]
  have "force_deletes_again (run n) i'" if "pass c (ss n) (run n) i'" "\<not> schema_accepts i'" for n i'
    by (rule schema_refuses [OF that(1) inv accepted that(2)])
  then obtain n where again: "force_deletes_again (run n) (run (Suc n))"
    using run_ends [OF run clock time fair] live by blast
  show False
  proof (cases "Status (run n) = new_status")
    case True
    then have "cond_types (Status (run (Suc n))) = [ForceDeleteRookCephOSDPods]"
      using again by (simp add: force_deletes_again_def new_status_def)
    then show False using inv [of "Suc n"] by (auto simp: life_inv_def new_status_def wf_status_def legal_history_def)
  next
    case False
    then have "current_type (Status (run n)) \<in> set (cond_types (Status (run n)))"
      using inv [of n] by (simp add: life_inv_def)
    then show False using again accepted [of "Suc n"] by (simp add: force_deletes_again_def schema_accepts_def)
  qed
qed

text \<open>The run of the recovery with nothing to recover, with one pass per hour from the tenth on.\<close>

definition sample_run :: "nat \<Rightarrow> NodeRecovery" where
  "sample_run n =
     (if n = 0 then new_recovery else if n < 9 then running_at (take (Suc n) short_path) else completed_recovery)"

definition sample_passes :: "nat \<Rightarrow> cluster st" where
  "sample_passes n =
     at_rest (if n < 9 then healthy (sample_run n)
              else (healthy (sample_run n))\<lparr>cl_now := 3600 * Second * int n\<rparr>) (sample_run n)"

lemma sample_pass:
  assumes "cl_recoveries (cl i) = [i]" and "nr_Name i = ''rec''" and "stored_in cl i = [i']"
  shows "pass sample (at_rest (cl i) i) i i'"
proof -
  have "i' \<in> set (stored_in cl i)" using assms(3) by simp
  then have "UpdateStatus i' \<in> set (trace (snd (run_in cl i)))"
    by (auto simp: stored_in_def stored_status_iff)
  then show ?thesis
    unfolding pass_def using sample_get [of cl i, OF assms(1,2)]
    by (intro exI [of _ recovery_key] exI) (auto simp: run_in_def prod_eq_iff)
qed

lemma sample_advancing: "advancing sample cl_now"
  by (simp add: advancing_def sample_def lookup_by_def split: option.splits)

lemma less_9: "n < 9 \<longleftrightarrow> n = 0 \<or> n = 1 \<or> n = 2 \<or> n = 3 \<or> n = 4 \<or> n = 5 \<or> n = 6 \<or> n = 7 \<or> n = (8::nat)"
  by arith

lemma sample_run_stored:
  "n < 9 \<Longrightarrow> stored_in healthy (sample_run n) = [sample_run (Suc n)]"
  unfolding less_9 by (elim disjE) (simp_all add: sample_run_def sample_first sample_steps numeral_2_eq_2 [symmetric])

lemma sample_run_name: "nr_Name (sample_run n) = ''rec''"
  by (simp add: sample_run_def completed_recovery_def) (simp add: new_recovery_def)

lemma sample_run_ended: "9 \<le> n \<Longrightarrow> sample_run n = completed_recovery \<and> ended (sample_run n)"
  by (simp add: sample_run_def ended_def completed_recovery_def)

lemma sample_run_wire: "wire whole_seconds (sample_run (Suc n)) = sample_run (Suc n)"
  by (simp add: sample_run_def sample_wire completed_wire)

lemma sample_run_accepted: "schema_accepts (sample_run n)"
proof -
  have "distinct (cond_types (Status (running_at ts)))" if "ts \<noteq> []" "distinct ts" for ts
    using that by (cases ts rule: rev_cases) (simp_all add: running_at_def sample_condition_def comp_def)
  moreover have "take k short_path \<noteq> [] \<and> distinct (take k short_path)" if "0 < k" for k
    using that by (auto simp: short_path_def intro: distinct_take)
  moreover from this [of 9] have "short_path \<noteq> [] \<and> distinct short_path" by (simp add: short_path_def)
  ultimately show ?thesis
    by (simp add: sample_run_def schema_accepts_def completed_recovery_def) (simp add: new_recovery_def new_status_def)
qed

lemma sample_recovery_run: "recovery_run sample whole_seconds schema_accepts (\<lambda>_. True) sample_passes sample_run"
  unfolding recovery_run_def
proof (intro conjI allI)
  show "reachable sample whole_seconds (sample_run 0)" by (simp add: sample_run_def reach_new)
  show "schema_accepts (sample_run 0)" by (rule sample_run_accepted)
  fix n
  show "if ended (sample_run n) \<or> \<not> True then sample_run (Suc n) = sample_run n
      else \<exists>i'. pass sample (sample_passes n) (sample_run n) i' \<and>
        sample_run (Suc n) = (if schema_accepts i' then wire whole_seconds i' else sample_run n)"
  proof (cases "n < 9")
    case True
    then have "pass sample (sample_passes n) (sample_run n) (sample_run (Suc n))"
      using sample_pass [of healthy, OF sample_recoveries(1) sample_run_name sample_run_stored]
      by (simp add: sample_passes_def)
    moreover have "\<not> ended (sample_run n)"
      using True by (simp add: sample_run_def ended_def running_at_def new_recovery_def new_status_def)
    ultimately show ?thesis using sample_run_wire [of n] sample_run_accepted [of "Suc n"] by auto
  next
    case False
    then show ?thesis using sample_run_ended [of n] sample_run_ended [of "Suc n"] by auto
  qed
qed

theorem recovery_ends_witness: "\<exists>n. ended (sample_run n)"
proof -
  have "\<exists>N. \<forall>n\<ge>N. T < cl_now (world (sample_passes n))" for T
  proof (intro exI allI impI)
    fix n assume "max 9 (Suc (nat T)) \<le> n"
    then have "9 \<le> n" "T < int n" by linarith+
    then show "T < cl_now (world (sample_passes n))" by (simp add: sample_passes_def at_rest_def Second_def)
  qed
  then show ?thesis by (rule recovery_ends [OF sample_recovery_run sample_clock sample_advancing]) auto
qed

section \<open>A repeated force deletion\<close>

text \<open>
  On a server that does not look at the types of the conditions, the only other way is that the recovery enters
  \<open>ForceDeleteRookCephOSDPods\<close> again and again without end, since each entry restarts the timeout.
\<close>

corollary unchecked_recovery_ends:
  assumes "recovery_run c f (\<lambda>_. True) ok ss run" and "sane_clock c f" "advancing c clock"
    and "\<And>T. \<exists>N. \<forall>n\<ge>N. T < clock (world (ss n))" and "\<And>N. \<exists>n\<ge>N. ok n"
  shows "(\<exists>n. ended (run n)) \<or> (\<forall>N. \<exists>n\<ge>N. force_deletes_again (run n) (run (Suc n)))"
  by (rule run_ends [OF assms]) simp

text \<open>
  On a server that does, the pass that deletes a stuck pod by force cannot store its status: the controller returns an error,
  the pod is gone and the recovery is still in its first \<open>ForceDeleteRookCephOSDPods\<close>.
\<close>

definition stuck_osd :: "NodeRecovery \<Rightarrow> cluster" where
  "stuck_osd i = (disk_failed i)\<lparr>cl_pods :=
     [tools_pod, (osd_pod ''2'' [crashing])\<lparr>pod_DeletionTimestamp := Some (900 * Second)\<rparr>]\<rparr>"

definition force_deleting :: NodeRecovery where
  "force_deleting = with_device (take 5 short_path @ [ForceDeleteRookCephOSDPods])"

lemma repeated_force_deletion_refused:
  "fst (run_in stuck_osd force_deleting) =
     Ok (requeue, Some (JoinError [StatusError ''Invalid'' ''duplicate entries for key type'']))"
  "map (cond_types \<circ> Status) (stored_in stuck_osd force_deleting) =
     [cond_types (Status force_deleting) @ [ForceDeleteRookCephOSDPods]]"
  "cl_recoveries (world (snd (run_in stuck_osd force_deleting))) = [force_deleting]"
  "map pod_Name (cl_pods (world (snd (run_in stuck_osd force_deleting)))) = [pod_Name tools_pod]"
  by code_simp+

end
