(* ===== verification/Tools_Flag.thy ===== *)
theory Tools_Flag
  imports Step_Properties
begin

text \<open>
  The Ceph tools over the life of a recovery. The theory follows the flag \<open>KeepCephToolsPod\<close>: the first step sets it when it finds the
  tools enabled, no other step changes it, a recovery that has it never disables the tools, and one that does not have it disables
  them when it completes. The locale \<open>tools_store\<close> says what is assumed of the API server.
\<close>

section \<open>Only the first step changes the flag\<close>

definition same_keep :: "'w st \<Rightarrow> 'w st \<Rightarrow> bool" where
  "same_keep s s' \<longleftrightarrow> KeepCephToolsPod (Status (inst s')) = KeepCephToolsPod (Status (inst s))"

definition keeps_tools :: "'w st \<Rightarrow> 'w st \<Rightarrow> bool" where
  "keeps_tools s s' \<longleftrightarrow> (KeepCephToolsPod (Status (inst s)) \<longrightarrow> KeepCephToolsPod (Status (inst s')))"

interpretation sk: preorder_contract same_keep
  by unfold_locales (simp_all add: same_keep_def)

interpretation kt: preorder_contract keeps_tools
  by unfold_locales (simp_all add: keeps_tools_def)

lemma framed_same: "framed m \<Longrightarrow> upholds same_keep m"
  by (simp add: upholds_def grows_frame_def same_keep_def)

lemma same_keeps: "upholds same_keep m \<Longrightarrow> upholds keeps_tools m"
  by (simp add: upholds_def same_keep_def keeps_tools_def)

lemma modify_status_same:
  "(\<And>st. KeepCephToolsPod (f st) = KeepCephToolsPod st) \<Longrightarrow> upholds same_keep (modify_status f)"
  by (simp add: upholds_def same_keep_def run_modify_status)

lemma modify_status_keeps:
  "(\<And>st. KeepCephToolsPod st \<Longrightarrow> KeepCephToolsPod (f st)) \<Longrightarrow> upholds keeps_tools (modify_status f)"
  by (simp add: upholds_def keeps_tools_def run_modify_status)

lemma status_same:
  "upholds same_keep (set_reason rs m)" "upholds same_keep (set_message m)"
  "upholds same_keep (transitionNextCondition c ty)" "upholds same_keep (getLatestCondition c)"
  "upholds same_keep (set_phase p)" "upholds same_keep (fail_with rs e)" "upholds same_keep (fail_message e)"
  "upholds same_keep (go_to r ty out)"
  unfolding set_reason_def set_message_def transitionNextCondition_def getLatestCondition_def set_phase_def
    fail_with_def fail_message_def go_to_def
  by (intro sk.upholds_intros modify_status_same footprint_base [THEN framed_same]; simp)+

lemmas same_intros = sk.upholds_intros modify_status_same status_same footprint_base [THEN framed_same]
  framed_ops [THEN framed_same]

lemma steps_same:
  "upholds same_keep (step_WaitForCephToolsPodRunning r)"
  "upholds same_keep (step_WaitForOSDPodsStabilize r)" "upholds same_keep (step_LabelNodesWithPendingPods r)"
  "upholds same_keep (step_ManageCrashLoopBackOffPods r)"
  "upholds same_keep (step_ForceDeleteRookCephOSDPods r)"
  "upholds same_keep (step_ProcessOCSRemovalTemplate r)"
  "upholds same_keep (step_WaitForPersistenVolumeBound r)" "upholds same_keep (step_RestartStorageOperator r)"
  "upholds same_keep (step_DeleteFailedPodsNodeAffinity r)" "upholds same_keep (step_DisableCephTools r)"
  "upholds same_keep (complete_recovery r)" "upholds same_keep (time_out latest)"
  unfolding step_WaitForCephToolsPodRunning_def step_WaitForOSDPodsStabilize_def
    step_LabelNodesWithPendingPods_def step_ManageCrashLoopBackOffPods_def step_ForceDeleteRookCephOSDPods_def
    step_ProcessOCSRemovalTemplate_def step_WaitForPersistenVolumeBound_def step_RestartStorageOperator_def
    step_DeleteFailedPodsNodeAffinity_def step_DisableCephTools_def complete_recovery_def time_out_def
    disableCephTools_def Let_def
  by (auto intro!: same_intros framed_count_terminating [THEN framed_same])

lemma enable_step_keeps: "upholds keeps_tools (step_EnableCephToolsPod r)"
  unfolding step_EnableCephToolsPod_def enableCephTools_def
  by (auto intro!: kt.upholds_intros modify_status_keeps status_same [THEN same_keeps] framed_ops [THEN framed_same, THEN same_keeps])

context recoverer_env
begin

lemma calls_same:
  "upholds same_keep (getCephHealthStatus r)" "upholds same_keep (archiveCephDaemonCrashMessages r)"
  "upholds same_keep (validateJobLogs r pod)"
  by (intro framed_same footprint_getCephHealthStatus footprint_archiveCephDaemonCrashMessages footprint_validateJobLogs; simp)+

lemma job_steps_same:
  "upholds same_keep (step_CleanupOSDRemovalJob r latest)" "upholds same_keep (step_RetryForceCleanupOSDRemovalJob r latest)"
  "upholds same_keep (step_StorageClusterFitnessCheck r)"
  unfolding step_CleanupOSDRemovalJob_def step_RetryForceCleanupOSDRemovalJob_def finish_removal_job_def
    step_StorageClusterFitnessCheck_def
  by (auto intro!: same_intros calls_same)

lemma run_step_same: "cond_Type latest \<noteq> EnableCephToolsPod \<Longrightarrow> upholds same_keep (run_step r latest)"
  by (cases "cond_Type latest") (simp_all add: run_step_def steps_same job_steps_same sk.upholds_bind)

lemma run_step_keeps: "upholds keeps_tools (run_step r latest)"
  using run_step_same [THEN same_keeps, of latest]
  by (cases "cond_Type latest = EnableCephToolsPod") (simp_all add: run_step_def enable_step_keeps)

lemma Reconcile_same:
  assumes "Conditions (Status (inst s)) \<noteq> []" and "current_type (Status (inst s)) \<noteq> EnableCephToolsPod"
  shows "same_keep s (snd (Reconcile r s))"
proof -
  obtain t1 w1 t2 w2 where now: "Now (rc_Client r) (world s) = (t1, w1)" "Now (rc_Client r) w1 = (t2, w2)" by fastforce
  let ?latest = "(last (Conditions (Status (inst s))))\<lparr>cond_LastProbeTime := t1\<rparr>"
  have "upholds same_keep (if b then time_out ?latest else run_step r ?latest)" for b
    using run_step_same [of ?latest] assms(2) by (simp add: steps_same(12))
  then show ?thesis
    unfolding Reconcile_run [OF assms(1) now] by (simp add: upholds_def same_keep_def probed_def)
qed

end

section \<open>A recovery that keeps the tools never disables them\<close>

definition never_disables :: "'w st \<Rightarrow> 'w st \<Rightarrow> bool" where
  "never_disables s s' \<longleftrightarrow>
     (KeepCephToolsPod (Status (inst s)) \<longrightarrow>
        KeepCephToolsPod (Status (inst s')) \<and> grows (\<lambda>e. \<not> sets_tools False e) s s')"

interpretation nd: preorder_contract never_disables
  by unfold_locales (auto simp: never_disables_def intro: tr.refl_R tr.trans_R)

lemma never_disablesI:
  "upholds keeps_tools m \<Longrightarrow> traces (\<lambda>e. \<not> sets_tools False e) m \<Longrightarrow> upholds never_disables m"
  by (simp add: upholds_def keeps_tools_def never_disables_def)

lemma step_effect_disables: "step_effect ty e \<Longrightarrow> sets_tools False e \<Longrightarrow> ty = DisableCephTools"
  by (cases ty) (auto simp: step_effect_def sets_tools_def runs_job_def removes_job_def)

lemma disable_step_never_disables: "upholds never_disables (step_DisableCephTools r)"
proof -
  have "grows (\<lambda>e. \<not> sets_tools False e) s (snd (step_DisableCephTools r s))"
    if "KeepCephToolsPod (Status (inst s))" for s :: "'a st"
  proof -
    have "step_DisableCephTools r s = IncrementCompletedOperandCounter s"
      using that by (simp add: step_DisableCephTools_def bind_get_status)
    moreover have "footprint (\<lambda>e. \<not> sets_tools False e) (IncrementCompletedOperandCounter :: ('a, unit) go)"
      by (rule footprint_IncrementCompletedOperandCounter) (simp add: sets_tools_def)
    ultimately show ?thesis by (simp add: upholds_def grows_frame_def)
  qed
  moreover have "upholds keeps_tools (step_DisableCephTools r)" by (rule same_keeps [OF steps_same(10)])
  ultimately show ?thesis by (simp add: upholds_def keeps_tools_def never_disables_def)
qed

lemma ends_never_disable: "upholds never_disables (complete_recovery r)" "upholds never_disables (time_out latest)"
  using traces_complete_recovery [of EnableCephToolsPod r] traces_time_out [of EnableCephToolsPod latest]
  by (auto intro!: never_disablesI steps_same [THEN same_keeps] elim!: traces_mono dest: step_effect_disables)

context recoverer_env
begin

lemma run_step_never_disables: "upholds never_disables (run_step r latest)"
proof (cases "cond_Type latest = DisableCephTools")
  case True
  then show ?thesis
    by (simp add: run_step_def nd.upholds_bind disable_step_never_disables ends_never_disable)
next
  case False
  then show ?thesis
    using traces_run_step [of latest]
    by (auto intro!: never_disablesI run_step_keeps elim!: traces_mono dest: step_effect_disables)
qed

lemma Reconcile_never_disables: "upholds never_disables (Reconcile r)"
  unfolding Reconcile_def
  by (intro nd.upholds_intros run_step_never_disables ends_never_disable
      never_disablesI [OF status_same(4) [THEN same_keeps] traces_getLatestCondition]
      never_disablesI [OF footprint_time_Now [THEN framed_same, THEN same_keeps] footprint_time_Now [THEN footprint_traces]])

end

text \<open>So for a whole run of the controller.\<close>

lemma controller_never_disables:
  assumes "Get_NodeRecovery c req (world s) = (Inr i, w)" and "KeepCephToolsPod (Status i)"
    and "controller_Reconcile (wired_controller c) req s = (out, s')"
  shows "\<exists>es. trace s' = trace s @ es \<and>
    (\<forall>e\<in>set es. \<not> sets_tools False e \<and> (\<forall>i'. e = UpdateStatus i' \<longrightarrow> KeepCephToolsPod (Status i')))"
proof (cases "\<not> IsZero (nr_DeletionTimestamp i) \<or> Phase (Status i) \<in> {FailedPhase, CompletedPhase}")
  case True
  from controller_run_ended [OF assms(1) this] assms(3) show ?thesis by (auto simp: sets_tools_def)
next
  case False
  then have live: "IsZero (nr_DeletionTimestamp i)" "Phase (Status i) \<noteq> FailedPhase" "Phase (Status i) \<noteq> CompletedPhase"
    by auto
  obtain s1 es1 t2 res s2 es2 stored where *:
    "trace s1 = trace s @ GetCall KNodeRecovery req # es1"
    "es1 = (if IsZero (StartTime (Status i)) then [CounterInc TotalOperandInstances] else [])"
    "inst s1 = i\<lparr>Status := begun (fst (Now c w)) t2 (Status i)\<rparr>"
    "Reconcile (wired c) s1 = (res, s2)" "trace s2 = trace s1 @ es2"
    "list_all (step_effect (current_type (Status (inst s1)))) es2"
    "trace s' = trace s2 @ (if \<exists>p. res = Panic p then [] else [UpdateStatus (inst s2)])"
    "out = controller_out res stored"
    by (rule controller_run [OF assms(1) live assms(3)])
  have "never_disables s1 s2" by (rule upholdsD [OF wr.Reconcile_never_disables *(4)])
  moreover have "KeepCephToolsPod (Status (inst s1))" using *(3) assms(2) by (simp add: begun_def)
  ultimately have keep: "KeepCephToolsPod (Status (inst s2))" "\<forall>e\<in>set es2. \<not> sets_tools False e"
    using *(5) by (auto simp: never_disables_def grows_def list_all_iff)
  have "UpdateStatus i' \<notin> set es2" for i' using *(6) step_effect_not_status by (auto simp: list_all_iff)
  with keep *(2) show ?thesis
    by (intro exI [of _ "GetCall KNodeRecovery req # es1 @ es2 @ (if \<exists>p. res = Panic p then [] else [UpdateStatus (inst s2)])"])
      (auto simp: *(1,5,7) sets_tools_def)
qed

section \<open>A repeated first pass\<close>

text \<open>Two worlds in which the flag of the Ceph tools, and the version that says where it is, read the same.\<close>

definition same_tools :: "('w, 'v) external \<Rightarrow> 'w \<Rightarrow> 'w \<Rightarrow> bool" where
  "same_tools c w w' \<longleftrightarrow>
     (\<forall>k. fst (Get_ClusterVersion c k w') = fst (Get_ClusterVersion c k w) \<and>
          fst (Get_OCSInitialization c k w') = fst (Get_OCSInitialization c k w) \<and>
          fst (Get_StorageCluster c k w') = fst (Get_StorageCluster c k w))"

lemma same_tools_trans: "same_tools c w w' \<Longrightarrow> same_tools c w' w'' \<Longrightarrow> same_tools c w w''"
  by (simp add: same_tools_def)

lemma IncrementCompletedOperandCounter_world:
  assumes "IncrementCompletedOperandCounter s = (res, s')"
  shows "world s' = world s"
proof -
  have "world (snd (forM (\<lambda>p. bind (deref p) (\<lambda>x. emit (g x))) ps t)) = world t" for ps t and g :: "NodePV \<Rightarrow> effect"
  proof (induction ps arbitrary: t)
    case (Cons p ps)
    then show ?case by (cases p) (simp_all add: run_gopanic bind_emit)
  qed (simp add: run_ret)
  from this [of "\<lambda>nd. CounterInc (SuccessRecoveryForNode (nd_NodeName nd))" "NodeDevice (Status (inst s))" s] assms
  show ?thesis by (simp add: IncrementCompletedOperandCounter_def bind_get_status)
qed

text \<open>
  An API server that leaves the flag alone but for the updates of it: neither the clock nor reading or storing a recovery
  changes it.
\<close>

locale tools_store = tools_server c for c :: "('w, 'v) external" +
  assumes now_same: "same_tools c w (snd (Now c w))"
    and load_same: "same_tools c w (snd (Get_NodeRecovery c req w))"
    and store_same: "same_tools c w (snd (Update_Status c i w))"
begin

lemma flag_cong:
  assumes "same_tools c (world s) (world u)" and "rc_Client r = c" and "fst (isCephToolsEnabled r s) = Ok v"
  shows "fst (isCephToolsEnabled r u) = Ok v"
proof -
  let ?vk = "cluster_name ''version''"
  obtain s1 where read: "isCephToolsEnabled r s = (Ok v, s1)" using assms(3) by (metis prod.collapse)
  obtain cv w1 where cv: "Get_ClusterVersion c ?vk (world s) = (cv, w1)" by fastforce
  obtain cv' w1' where cv': "Get_ClusterVersion c ?vk (world u) = (cv', w1')" by fastforce
  have reads: "fst (Get_OCSInitialization c k w1') = fst (Get_OCSInitialization c k w1)"
    "fst (Get_StorageCluster c k w1') = fst (Get_StorageCluster c k w1)" for k
    using assms(1) version_read [where vk = ?vk and w = "world s"] version_read [where vk = ?vk and w = "world u"] cv cv'
    by (simp_all add: same_tools_def)
  have old: "before_4_15 c (world u) = before_4_15 c (world s)"
    using assms(1) by (intro before_4_15_cong) (simp add: same_tools_def)
  from read obtain old where "before_4_15 c (world s) = Some old"
    and "if old then \<exists>i. fst (Get_OCSInitialization c (odf_name ''ocsinit'') w1) = Inr i \<and> oi_EnableCephTools i = v
      else \<exists>sc. fst (Get_StorageCluster c (odf_name ''ocs-storagecluster'') w1) = Inr sc \<and> sc_EnableCephTools sc = v"
    using cv assms(2)
    by (auto simp: isCephToolsEnabled_def bind_eq_Ok ocp4_15_Ok getOCPVersion_Ok before_4_15_def getOSCInitialization_def
        getStorageCluster_def Let_def call_Ok ret_Ok split: if_splits)
  with isCephToolsEnabled_eval [of r u old cv' w1' v] old cv' reads assms(2) show ?thesis by simp
qed

lemma tick: "Now c w = (t, w') \<Longrightarrow> same_tools c w w'"
  using now_same [of w] by simp

lemma go_to_same:
  assumes "go_to r ty out s = (res, s')" and "rc_Client r = c" and "Conditions (Status (inst s)) \<noteq> []"
  shows "same_tools c (world s) (world s')"
proof -
  obtain t1 w1 t2 w2 where now: "Now c (world s) = (t1, w1)" "Now c w1 = (t2, w2)" by fastforce
  then have "world s' = w2"
    using assms by (auto simp: go_to_def transitionNextCondition_def bind_def run_get_status time_Now_def run_modify_status run_ret)
  then show ?thesis using same_tools_trans [OF tick [OF now(1)] tick [OF now(2)]] by simp
qed

lemma enable_step_enables:
  assumes "step_EnableCephToolsPod (wired c) u = (Ok out, u')" and "Conditions (Status (inst u)) \<noteq> []"
    and "fst (isCephToolsEnabled (wired c) u) = Ok False"
  shows "fst (isCephToolsEnabled (wired c) u') = Ok True"
proof -
  obtain s1 where read: "isCephToolsEnabled (wired c) u = (Ok False, s1)" using assms(3) by (metis prod.collapse)
  obtain s2 where set: "setEnableCephToolsValue (wired c) True s1 = (Ok (), s2)"
    and move: "go_to (wired c) WaitForCephToolsPodRunning (requeue_after (10 * Second)) s2 = (Ok out, u')"
    by (rule enable_step_set [OF assms(1) read])
  have "inst s2 = inst u" using set_tools_frame [OF set] is_tools_no_write [OF read] by simp
  then have "same_tools c (world s2) (world u')" using go_to_same [OF move] assms(2) by simp
  from flag_cong [OF this _ set_is_round_trip [OF _ set]] show ?thesis by simp
qed

text \<open>The first pass of a recovery that reaches its end is the enabling step, between loading and storing.\<close>

lemma enable_pass:
  assumes get: "Get_NodeRecovery c req (world s) = (Inr i, w)" and new: "Status i = new_status" "IsZero (nr_DeletionTimestamp i)"
    and run: "controller_Reconcile (wired_controller c) req s = (Ok (requeue_after (10 * Second), err), s')"
  obtains u u' where "step_EnableCephToolsPod (wired c) u = (Ok (requeue_after (10 * Second)), u')"
    "same_tools c (world s) (world u)" "Conditions (Status (inst u)) \<noteq> []" "\<not> KeepCephToolsPod (Status (inst u))"
    "trace u = trace s @ [GetCall KNodeRecovery req, CounterInc TotalOperandInstances]"
    "trace s' = trace u' @ [UpdateStatus (inst u')]" "same_tools c (world u') (world s')"
proof -
  obtain t1 w1 t2 w2 t3 w3 t4 w4 where now: "Now c w = (t1, w1)" "Now c w1 = (t2, w2)" "Now c w2 = (t3, w3)" "Now c w3 = (t4, w4)"
    by fastforce
  let ?s0 = "s\<lparr>world := w, trace := trace s @ [GetCall KNodeRecovery req], inst := i\<rparr>"
  let ?s1 = "?s0\<lparr>world := w2, trace := trace ?s0 @ [CounterInc TotalOperandInstances],
      inst := i\<lparr>Status := begun t1 t2 (Status i)\<rparr>\<rparr>"
  let ?u = "?s1\<lparr>inst := (inst ?s1)\<lparr>Status := probed t3 (Status (inst ?s1))\<rparr>, world := w4\<rparr>"
  have c: "nrr_Client (wired_controller c) = c" by (simp add: wired_controller_def)
  have nr: "newNodeRecoveryReconciler c (nrr_CmdRunner (wired_controller c)) (nrr_LogClient (wired_controller c)) = Inr (wired c)"
    using wired_controller_recoverer [of c] by (simp add: c)
  have start: "start_recovery c ?s0 = (Ok (), ?s1)"
    using now new by (simp add: start_recovery_def begun_def bind_get_status run_simps new_status_def IsZero_def)
  have begun: "Status (inst ?s1) = begun t1 t2 new_status" using new by simp
  obtain res u' where rec: "Reconcile (wired c) ?s1 = (res, u')" by fastforce
  have live: "Phase (Status i) \<noteq> FailedPhase" "Phase (Status i) \<noteq> CompletedPhase" using new by (simp_all add: new_status_def)
  have ends: "res = Ok (requeue_after (10 * Second))" "trace s' = trace u' @ [UpdateStatus (inst u')]"
    "world s' = snd (Update_Status c (inst u') (world u'))"
    using run get live new(2) start rec
    by (cases res; auto simp: controller_Reconcile_def c nr run_simps no_requeue_def requeue_after_def Second_def
        split: prod.splits sum.splits)+
  have last: "Conditions (Status (inst ?s1)) = [first_condition t2]" "NodeDevice (Status (inst ?s1)) = []"
    using begun by (simp_all add: begun_def new_status_def IsZero_def)
  note pass = Reconcile_run [of ?s1 "wired c" t3 w3 t4 w4, unfolded last(1)]
  have "step_EnableCephToolsPod (wired c) ?u = (Ok (requeue_after (10 * Second)), u')"
    using pass now rec ends(1) time_out_run [of ?u] last(2)
    by (auto simp: run_step_def first_condition_def probed_def no_requeue_def requeue_after_def Second_def split: if_splits)
  moreover have "same_tools c (world s) w4"
    using load_same [of "world s" req] get tick [OF now(1)] tick [OF now(2)] tick [OF now(3)] tick [OF now(4)]
    by (simp add: same_tools_def)
  moreover have "same_tools c (world u') (world s')" using store_same ends(3) by simp
  moreover have "\<not> KeepCephToolsPod (Status (inst ?u))" using begun by (simp add: begun_def new_status_def probed_def)
  ultimately show thesis using ends(2) last(1) by (intro that [of ?u u']) (simp_all add: probed_def)
qed

text \<open>A first pass that finds the tools disabled leaves them enabled.\<close>

lemma first_pass_enables:
  assumes new: "Status i = new_status" "IsZero (nr_DeletionTimestamp i)"
    and first: "Get_NodeRecovery c req (world s) = (Inr i, w)" "fst (isCephToolsEnabled (wired c) s) = Ok False"
      "controller_Reconcile (wired_controller c) req s = (Ok (requeue_after (10 * Second), err), s')"
    and "same_tools c (world s') (world u)"
  shows "fst (isCephToolsEnabled (wired c) u) = Ok True"
proof -
  obtain a a' where a: "step_EnableCephToolsPod (wired c) a = (Ok (requeue_after (10 * Second)), a')"
    "same_tools c (world s) (world a)" "Conditions (Status (inst a)) \<noteq> []" "same_tools c (world a') (world s')"
    by (rule enable_pass [OF first(1) new first(3)])
  have off: "fst (isCephToolsEnabled (wired c) a) = Ok False" by (rule flag_cong [OF a(2) _ first(2)]) simp
  show ?thesis
    by (rule flag_cong [OF same_tools_trans [OF a(4) assms(6)] _ enable_step_enables [OF a(1,3) off]]) simp
qed

lemma disable_step_disables:
  assumes "step_DisableCephTools (wired c) s = (Ok (), s')" and "\<not> KeepCephToolsPod (Status (inst s))"
  shows "fst (isCephToolsEnabled (wired c) s') = Ok False"
proof -
  obtain s2 where set: "setEnableCephToolsValue (wired c) False s = (Ok (), s2)"
    and count: "IncrementCompletedOperandCounter s2 = (Ok (), s')"
    using assms by (auto simp: step_DisableCephTools_def disableCephTools_def bind_get_status bind_eq_Ok onErr_def fail_with_def
        set_reason_def bind_def [of "modify_status _"] run_modify_status run_throw split: prod.splits result.splits)
  have "world s' = world s2" using IncrementCompletedOperandCounter_world [OF count] .
  then have "same_tools c (world s2) (world s')" by (simp add: same_tools_def)
  from flag_cong [OF this _ set_is_round_trip [OF _ set]] show ?thesis by simp
qed

end

section \<open>The rest of the recovery\<close>

text \<open>The objects that can be loaded after \<open>i\<close>, in the sense of \<open>reachable\<close>.\<close>

inductive later :: "('w, 'v) external \<Rightarrow> (time \<Rightarrow> time) \<Rightarrow> NodeRecovery \<Rightarrow> NodeRecovery \<Rightarrow> bool" for c f i where
  here: "later c f i i"
| stored: "later c f i j \<Longrightarrow> stores c j k \<Longrightarrow> later c f i (wire f k)"

lemma later_keeps: "later c f i j \<Longrightarrow> KeepCephToolsPod (Status i) \<Longrightarrow> KeepCephToolsPod (Status j)"
proof (induction rule: later.induct)
  case (stored j k)
  then obtain req s out s' w es where "Get_NodeRecovery c req (world s) = (Inr j, w)"
    "controller_Reconcile (wired_controller c) req s = (out, s')" "trace s' = trace s @ es" "UpdateStatus k \<in> set es"
    by (auto simp: stores_def)
  with controller_never_disables [of c req s j w out s'] stored show ?case by (auto simp: wire_def)
qed

text \<open>Once the first condition is left, no run comes back to it, and the flag stays as it is.\<close>

definition past_enabling :: "NodeRecoveryStatus \<Rightarrow> bool" where
  "past_enabling st \<longleftrightarrow> Conditions st \<noteq> [] \<and> current_type st \<noteq> EnableCephToolsPod"

lemma past_enabling_begun:
  assumes "life_inv st" and "past_enabling st"
  shows "begun t t2 st = st"
  using assms by (auto simp: life_inv_def past_enabling_def begun_def new_status_def)

lemma edge_not_enabling: "\<not> edge t EnableCephToolsPod"
  by (auto elim: edge.cases)

lemma stores_past_enabling:
  assumes "stores c i i'" and "life_inv (Status i)" and "past_enabling (Status i)"
  shows "past_enabling (Status i')" and "KeepCephToolsPod (Status i') = KeepCephToolsPod (Status i)"
proof -
  obtain t t2 res where h: "handled (begun t t2 (Status i)) res (Status i')" "\<forall>p. res \<noteq> Panic p"
    by (rule stores_handled [OF assms(1,2)])
  then have wf: "wf_status (Status i')" and st: "stays (Status i) (Status i') \<or> moves (Status i) (Status i')"
    unfolding past_enabling_begun [OF assms(2,3)] by (auto simp: handled_def split: result.splits)
  have ne: "Conditions (Status i) \<noteq> []" using assms(3) by (simp add: past_enabling_def)
  have "current_type (Status i') \<noteq> EnableCephToolsPod"
    using st assms(3) edge_not_enabling last_cond_types [OF ne] last_cond_types [OF wf_status_conditions [OF wf]]
    by (auto simp: stays_def moves_def past_enabling_def)
  with wf show "past_enabling (Status i')" by (simp add: past_enabling_def)
  obtain s1 t' t2' res' s2 where *: "inst s1 = i\<lparr>Status := begun t' t2' (Status i)\<rparr>"
    "Reconcile (wired c) s1 = (res', s2)" "i' = inst s2"
    by (rule storesE [OF assms(1)]) blast
  then have "Status (inst s1) = Status i" by (simp add: past_enabling_begun [OF assms(2,3)])
  with wr.Reconcile_same [of s1 c] assms(3) * show "KeepCephToolsPod (Status i') = KeepCephToolsPod (Status i)"
    by (simp add: past_enabling_def same_keep_def)
qed

lemma later_past_enabling:
  assumes "later c f i j" and "reachable c f i" and "sane_clock c f" and "past_enabling (Status i)"
  shows "reachable c f j \<and> past_enabling (Status j) \<and> KeepCephToolsPod (Status j) = KeepCephToolsPod (Status i)"
  using assms(1)
proof induction
  case here
  then show ?case using assms by simp
next
  case (stored j k)
  then have "life_inv (Status j)" using reachable_inv assms(3) by blast
  with stores_past_enabling [OF stored.hyps(2)] stored.IH have "past_enabling (Status k)"
    "KeepCephToolsPod (Status k) = KeepCephToolsPod (Status i)" by simp_all
  moreover have "current_type (wire_status f st) = current_type st" if "Conditions st \<noteq> []" for st
    using that by (simp add: last_map)
  ultimately show ?case
    using reachable.stored [OF _ stored.hyps(2)] stored.IH by (simp add: wire_def past_enabling_def)
qed

lemma later_stored:
  assumes "later c f (wire f i) j" and "sane_clock c f" and "past_enabling (Status i)" and "\<And>f. reachable c f (wire f i)"
  shows "life_inv (Status j)" and "past_enabling (Status j)" and "KeepCephToolsPod (Status j) = KeepCephToolsPod (Status i)"
proof -
  have "past_enabling (Status (wire f i))" using assms(3) by (simp add: wire_def past_enabling_def last_map)
  note later_past_enabling [OF assms(1,4,2) this]
  then show "life_inv (Status j)" "past_enabling (Status j)" "KeepCephToolsPod (Status j) = KeepCephToolsPod (Status i)"
    using reachable_inv assms(2) by (auto simp: wire_def)
qed

lemma later_never_disables:
  assumes "later c f (wire f i) j" and "KeepCephToolsPod (Status i)" and "Get_NodeRecovery c req (world v) = (Inr j, x)"
    and "controller_Reconcile (wired_controller c) req v = (out, v')"
  shows "\<exists>es. trace v' = trace v @ es \<and> (\<forall>e\<in>set es. \<not> sets_tools False e)"
proof -
  have "KeepCephToolsPod (Status j)" using later_keeps [OF assms(1)] assms(2) by (simp add: wire_def)
  from controller_never_disables [OF assms(3) this assms(4)] show ?thesis by blast
qed

text \<open>What a run of such a recovery does to the flag of the tools.\<close>

lemma step_effect_tools: "step_effect ty e \<Longrightarrow> sets_tools b e \<Longrightarrow> ty = (if b then EnableCephToolsPod else DisableCephTools)"
  by (cases ty) (auto simp: step_effect_def sets_tools_def runs_job_def removes_job_def)

lemma kept_run:
  assumes "Get_NodeRecovery c req (world s) = (Inr i, w)" and "KeepCephToolsPod (Status i)"
    and "life_inv (Status i)" and "past_enabling (Status i)"
    and "controller_Reconcile (wired_controller c) req s = (out, s')"
  shows "\<exists>es. trace s' = trace s @ es \<and> (\<forall>e\<in>set es. \<forall>b. \<not> sets_tools b e)"
proof (cases "\<not> IsZero (nr_DeletionTimestamp i) \<or> Phase (Status i) \<in> {FailedPhase, CompletedPhase}")
  case True
  from controller_run_ended [OF assms(1) this] assms(5) show ?thesis by (auto simp: sets_tools_def)
next
  case False
  then have live: "IsZero (nr_DeletionTimestamp i)" "Phase (Status i) \<noteq> FailedPhase" "Phase (Status i) \<noteq> CompletedPhase"
    by auto
  obtain s1 es1 t2 res s2 es2 stored where *:
    "trace s1 = trace s @ GetCall KNodeRecovery req # es1"
    "es1 = (if IsZero (StartTime (Status i)) then [CounterInc TotalOperandInstances] else [])"
    "inst s1 = i\<lparr>Status := begun (fst (Now c w)) t2 (Status i)\<rparr>"
    "Reconcile (wired c) s1 = (res, s2)" "trace s2 = trace s1 @ es2"
    "list_all (step_effect (current_type (Status (inst s1)))) es2"
    "trace s' = trace s2 @ (if \<exists>p. res = Panic p then [] else [UpdateStatus (inst s2)])"
    "out = controller_out res stored"
    by (rule controller_run [OF assms(1) live assms(5)])
  have "Status (inst s1) = Status i" using *(3) by (simp add: past_enabling_begun [OF assms(3,4)])
  then have "\<not> sets_tools True e" if "e \<in> set es2" for e
    using *(6) step_effect_tools [of _ e True] that assms(4) by (fastforce simp: list_all_iff past_enabling_def)
  moreover have "\<not> sets_tools False e" if "e \<in> set es2" for e
    using controller_never_disables [OF assms(1,2,5)] *(1,5,7) that by auto
  ultimately have "\<not> sets_tools b e" if "e \<in> set es2" for b e
    using that by (cases b) auto
  then show ?thesis
    using *(2) by (intro exI [of _ "GetCall KNodeRecovery req # es1 @ es2 @ (if \<exists>p. res = Panic p then [] else [UpdateStatus (inst s2)])"])
      (auto simp: *(1,5,7) sets_tools_def)
qed

text \<open>A run that completes the recovery asks to store a completed status.\<close>

definition completes :: "'w st \<Rightarrow> 'w st \<Rightarrow> bool" where
  "completes s s' \<longleftrightarrow> (\<exists>es k. trace s' = trace s @ es \<and> UpdateStatus k \<in> set es \<and> Phase (Status k) = CompletedPhase)"

lemma enable_step_past:
  assumes "step_EnableCephToolsPod r s = (Ok out, s')" and "Conditions (Status (inst s)) \<noteq> []"
  shows "past_enabling (Status (inst s'))"
proof -
  have go: "past_enabling (Status (inst b))"
    if "go_to r WaitForCephToolsPodRunning x a = (Ok y, b)" "Conditions (Status (inst a)) \<noteq> []" for a b x y
    using that go_to_run [OF that(2), of r WaitForCephToolsPodRunning x] by (auto simp: past_enabling_def)
  show ?thesis
    using assms
    by (auto simp: step_EnableCephToolsPod_def enableCephTools_def bind_def onErr_def fail_with_def set_reason_def
        run_modify_status run_throw split: prod.splits result.splits if_splits
        dest!: go set_tools_frame is_tools_no_write)
qed

lemma controller_run_end:
  assumes get: "Get_NodeRecovery c req (world s) = (Inr i, w)" and begun: "life_inv (Status i)" "past_enabling (Status i)"
    and run: "controller_Reconcile (wired_controller c) req s = (out, s')" and completed: "completes s s'"
  obtains s1 s2 res where "Status (inst s1) = Status i" "Reconcile (wired c) s1 = (res, s2)"
    "Phase (Status i) = RunningPhase" "\<forall>p. res \<noteq> Panic p"
    "Phase (Status (inst s2)) = CompletedPhase" "world s' = snd (Update_Status c (inst s2) (world s2))"
proof -
  obtain k es where "trace s' = trace s @ es" "UpdateStatus k \<in> set es"
    using completed by (auto simp: completes_def)
  with get run have "stores c i k" unfolding stores_def by blast
  then have live: "IsZero (nr_DeletionTimestamp i)" "Phase (Status i) \<noteq> FailedPhase" "Phase (Status i) \<noteq> CompletedPhase"
    by (auto elim: storesE)
  let ?s0 = "s\<lparr>world := w, trace := trace s @ [GetCall KNodeRecovery req], inst := i\<rparr>"
  have c: "nrr_Client (wired_controller c) = c" by (simp add: wired_controller_def)
  have nr: "newNodeRecoveryReconciler c (nrr_CmdRunner (wired_controller c)) (nrr_LogClient (wired_controller c)) = Inr (wired c)"
    using wired_controller_recoverer [of c] by (simp add: c)
  have wf: "wf_status (Status i)" "\<not> IsZero (StartTime (Status i))"
    using begun by (auto simp: life_inv_def past_enabling_def new_status_def)
  then have start: "start_recovery c ?s0 = (Ok (), ?s0)" by (simp add: start_recovery_started)
  obtain res s2 where rec: "Reconcile (wired c) ?s0 = (res, s2)" by fastforce
  obtain es2 where es2: "trace s2 = trace ?s0 @ es2" "list_all (step_effect (current_type (Status i))) es2"
    using wpD [OF wr.wp_Reconcile_effects rec] by (auto simp: grows_def)
  then have none: "UpdateStatus k \<notin> set es2" for k using step_effect_not_status by (auto simp: list_all_iff)
  have ends: "trace s' = trace s2 @ (if \<exists>p. res = Panic p then [] else [UpdateStatus (inst s2)])"
    "\<forall>p. res \<noteq> Panic p \<Longrightarrow> world s' = snd (Update_Status c (inst s2) (world s2))"
    using run get live start rec
    by (cases res; auto simp: controller_Reconcile_def c nr run_simps split: prod.splits sum.splits)+
  with ends completed es2 none have "\<forall>p. res \<noteq> Panic p" "Phase (Status (inst s2)) = CompletedPhase"
    by (auto simp: completes_def split: if_splits)
  moreover have "Phase (Status i) = RunningPhase" using wf live by (cases "Phase (Status i)") (simp_all add: wf_status_def)
  ultimately show ?thesis using rec ends(2) by (intro that [of ?s0 res s2]) simp_all
qed

lemma disable_step_phase:
  assumes "step_DisableCephTools r s = (out, s')" and "out \<noteq> Ok ()"
  shows "Phase (Status (inst s')) = Phase (Status (inst s))"
proof -
  have inc: "inst b = inst a" if "IncrementCompletedOperandCounter a = (x, b)" for a b :: "'a st" and x
    using upholdsD [OF footprint_IncrementCompletedOperandCounter [of "\<lambda>_. True"] that] by (simp add: grows_frame_def)
  show ?thesis
    using assms
    by (auto simp: step_DisableCephTools_def disableCephTools_def bind_get_status bind_def [of "onErr _ _"] onErr_def fail_with_def
        set_reason_def bind_def [of "modify_status _"] run_modify_status run_throw
        dest!: inc set_tools_frame split: if_splits prod.splits result.splits)
qed

context tools_store
begin

text \<open>The pass that completes a recovery without the flag leaves the tools disabled.\<close>

lemma completing_pass:
  assumes rec: "Reconcile (wired c) s = (res, s')" "\<forall>p. res \<noteq> Panic p"
    and st: "wf_status (Status (inst s))" "Phase (Status (inst s)) = RunningPhase" "Phase (Status (inst s')) = CompletedPhase"
    and keep: "\<not> KeepCephToolsPod (Status (inst s))"
  shows "fst (isCephToolsEnabled (wired c) s') = Ok False"
proof -
  have "wp (Reconcile (wired c)) (\<lambda>res s'. handled (Status (inst s)) res (Status (inst s'))) s"
    by (rule wr.wp_Reconcile) (use st in simp_all)
  from wpD [OF this rec(1)] rec(2) have h: "wf_status (Status (inst s'))" "stays (Status (inst s)) (Status (inst s'))"
    using st(3) by (auto simp: handled_def moves_def split: result.splits)
  have ne: "Conditions (Status (inst s)) \<noteq> []" "Conditions (Status (inst s')) \<noteq> []" using st(1) h(1) by simp_all
  then have ty: "current_type (Status (inst s)) = DisableCephTools"
    using h st(3) last_cond_types [OF ne(1)] last_cond_types [OF ne(2)] by (simp add: stays_def wf_status_def)
  obtain t1 w1 t2 w2 where now: "Now c (world s) = (t1, w1)" "Now c w1 = (t2, w2)" by fastforce
  let ?latest = "(last (Conditions (Status (inst s))))\<lparr>cond_LastProbeTime := t1\<rparr>"
  let ?u = "s\<lparr>inst := (inst s)\<lparr>Status := probed t1 (Status (inst s))\<rparr>, world := w2\<rparr>"
  have u: "Phase (Status (inst ?u)) = RunningPhase" "\<not> KeepCephToolsPod (Status (inst ?u))" "None \<notin> set (NodeDevice (Status (inst ?u)))"
    using st keep by (auto simp: probed_def wf_status_def devices_wf_def)
  have "(if cond_LastTransitionTime ?latest + reconciliationTimeout < t2 then time_out ?latest
      else bind (step_DisableCephTools (wired c)) (\<lambda>_. complete_recovery (wired c))) ?u = (res, s')"
    using rec(1) Reconcile_run [OF ne(1), of "wired c" t1 w1 t2 w2] now ty by (auto simp: run_step_def split: if_splits)
  with time_out_run [OF u(3), of ?latest] st(3) have run: "bind (step_DisableCephTools (wired c)) (\<lambda>_. complete_recovery (wired c)) ?u = (res, s')"
    by (auto split: if_splits)
  obtain r1 v where dis: "step_DisableCephTools (wired c) ?u = (r1, v)" by fastforce
  have "r1 = Ok ()"
  proof (rule ccontr)
    assume "r1 \<noteq> Ok ()"
    with disable_step_phase [OF dis this] dis run u(1) st(3) show False
      by (cases r1) (auto simp: bind_def)
  qed
  with dis run have ok: "step_DisableCephTools (wired c) ?u = (Ok (), v)" and comp: "complete_recovery (wired c) v = (res, s')"
    by (simp_all add: bind_def)
  obtain t w where "Now c (world v) = (t, w)" by fastforce
  with comp have "world s' = w" "Now c (world v) = (t, w)"
    by (auto simp: complete_recovery_def set_phase_def bind_def run_modify_status time_Now_def run_get_status run_emit run_ret deref_def
        run_gopanic split: option.splits)
  then have "same_tools c (world v) (world s')" using tick by simp
  from flag_cong [OF this _ disable_step_disables [OF ok u(2)]] show ?thesis by simp
qed

lemma completing_run:
  assumes get: "Get_NodeRecovery c req (world s) = (Inr i, w)" and st: "life_inv (Status i)" "past_enabling (Status i)"
    and keep: "\<not> KeepCephToolsPod (Status i)"
    and run: "controller_Reconcile (wired_controller c) req s = (out, s')" "completes s s'"
  shows "fst (isCephToolsEnabled (wired c) s') = Ok False"
proof -
  obtain s1 s2 res where *: "Status (inst s1) = Status i" "Reconcile (wired c) s1 = (res, s2)"
    "Phase (Status i) = RunningPhase" "\<forall>p. res \<noteq> Panic p"
    "Phase (Status (inst s2)) = CompletedPhase" "world s' = snd (Update_Status c (inst s2) (world s2))"
    by (rule controller_run_end [OF get st run])
  have "wf_status (Status i)" using st by (auto simp: life_inv_def past_enabling_def new_status_def)
  with completing_pass [OF *(2,4)] * keep have "fst (isCephToolsEnabled (wired c) s2) = Ok False" by simp
  then show ?thesis using flag_cong [of s2 s' "wired c" False] store_same [of "world s2" "inst s2"] *(6) by simp
qed

text \<open>The first pass stores a status past the first condition that says how the tools were found.\<close>

lemma first_pass:
  assumes get: "Get_NodeRecovery c req (world s) = (Inr i, w)" and new: "Status i = new_status" "IsZero (nr_DeletionTimestamp i)"
    and flag: "fst (isCephToolsEnabled (wired c) s) = Ok found"
    and run: "controller_Reconcile (wired_controller c) req s = (Ok (requeue_after (10 * Second), err), s')"
  obtains es i' where "trace s' = trace s @ es @ [UpdateStatus i']"
    "if found then list_all (\<lambda>e. \<not> is_write e) es else (\<exists>e. filter is_write es = [e] \<and> sets_tools True e)"
    "KeepCephToolsPod (Status i') = found" "past_enabling (Status i')" "stores c i i'"
    "\<And>f. reachable c f (wire f i')"
proof -
  obtain u u' where u: "step_EnableCephToolsPod (wired c) u = (Ok (requeue_after (10 * Second)), u')"
    "same_tools c (world s) (world u)" "Conditions (Status (inst u)) \<noteq> []" "\<not> KeepCephToolsPod (Status (inst u))"
    "trace u = trace s @ [GetCall KNodeRecovery req, CounterInc TotalOperandInstances]"
    "trace s' = trace u' @ [UpdateStatus (inst u')]" "same_tools c (world u') (world s')"
    by (rule enable_pass [OF get new run])
  have "fst (isCephToolsEnabled (wired c) u) = Ok found" by (rule flag_cong [OF u(2) _ flag]) simp
  then obtain u1 where read: "isCephToolsEnabled (wired c) u = (Ok found, u1)" by (metis prod.collapse)
  note writes = enable_step_writes [OF u(1,3) read]
  obtain es where es: "trace u' = trace u @ es"
    using upholdsD [OF traces_step_EnableCephToolsPod u(1)] by (auto simp: grows_def)
  let ?es = "[GetCall KNodeRecovery req, CounterInc TotalOperandInstances] @ es"
  have tr: "trace s' = trace s @ ?es @ [UpdateStatus (inst u')]" using u(5,6) es by simp
  then have st: "stores c i (inst u')" using get run unfolding stores_def by (intro exI) (auto intro: exI)
  have "past_enabling (Status (inst u'))" by (rule enable_step_past [OF u(1,3)])
  moreover have "if found then list_all (\<lambda>e. \<not> is_write e) ?es else (\<exists>e. filter is_write ?es = [e] \<and> sets_tools True e)"
    using writes es by (auto simp: list_all_iff filter_empty_conv split: if_splits)
  ultimately show ?thesis
    using that [OF tr] writes u(4) st reachable.stored [OF reachable.created [OF new(1)] st] by simp
qed

end

end
