(* ===== verification/Lost_Updates.thy ===== *)
theory Lost_Updates
  imports Tools_Flag
begin

text \<open>
  The Ceph tools, which the recoveries share. A recovery whose statuses are all stored leaves the tools as it found them. The
  controller changes the cluster first and stores its status afterwards; when the store fails the pass is repeated on the
  old status, and then finds the tools that it has enabled itself. The same flag decides what two recoveries that run at a time do
  to the tools.
\<close>

section \<open>Recoveries and the tools\<close>

text \<open>
  C27. A recovery whose statuses are stored leaves the Ceph tools as it found them. If its first pass finds them enabled, neither that pass
  nor any later run of the recovery writes the flag. If it finds them disabled, it enables them by one write, and after the run
  that completes the recovery they read as disabled again.
\<close>

theorem tools_left_as_found:
  assumes server: "tools_store c" and clock: "sane_clock c f" and new: "Status i = new_status" "IsZero (nr_DeletionTimestamp i)"
    and first: "Get_NodeRecovery c req (world s) = (Inr i, w)" "fst (isCephToolsEnabled (wired c) s) = Ok found"
      "controller_Reconcile (wired_controller c) req s = (Ok (requeue_after (10 * Second), err), s')"
  shows "\<exists>es i'. trace s' = trace s @ es @ [UpdateStatus i'] \<and>
    (if found then list_all (\<lambda>e. \<not> is_write e) es else \<exists>e. filter is_write es = [e] \<and> sets_tools True e) \<and>
    (\<forall>j req' v x out v'. later c f (wire f i') j \<longrightarrow> Get_NodeRecovery c req' (world v) = (Inr j, x) \<longrightarrow>
       controller_Reconcile (wired_controller c) req' v = (out, v') \<longrightarrow>
       (if found then \<exists>es'. trace v' = trace v @ es' \<and> (\<forall>e\<in>set es'. \<forall>b. \<not> sets_tools b e)
        else completes v v' \<longrightarrow> fst (isCephToolsEnabled (wired c) v') = Ok False))"
proof -
  obtain es i' where i': "trace s' = trace s @ es @ [UpdateStatus i']"
    "if found then list_all (\<lambda>e. \<not> is_write e) es else (\<exists>e. filter is_write es = [e] \<and> sets_tools True e)"
    "KeepCephToolsPod (Status i') = found" "past_enabling (Status i')" "\<And>f. reachable c f (wire f i')"
    by (rule tools_store.first_pass [OF server first(1) new first(2,3)]) blast
  have "if found then \<exists>es'. trace v' = trace v @ es' \<and> (\<forall>e\<in>set es'. \<forall>b. \<not> sets_tools b e)
        else completes v v' \<longrightarrow> fst (isCephToolsEnabled (wired c) v') = Ok False"
    if l: "later c f (wire f i') j" and run: "Get_NodeRecovery c req' (world v) = (Inr j, x)"
      "controller_Reconcile (wired_controller c) req' v = (out, v')" for j req' v x out v'
  proof -
    have j: "life_inv (Status j)" "past_enabling (Status j)" "KeepCephToolsPod (Status j) = found"
      using later_stored [OF l clock i'(4,5)] i'(3) by simp_all
    show ?thesis
      using kept_run [OF run(1) _ j(1,2) run(2)] tools_store.completing_run [OF server run(1) j(1,2) _ run(2)] j(3) by simp
  qed
  with i'(1,2) show ?thesis by blast
qed

text \<open>
  C12. A lost status leaves the Ceph tools enabled. The first pass finds the tools disabled, enables them and fails to store its
  status; the next pass finds them enabled, makes no change and stores that they are to be kept. From then on no run
  of this recovery disables them.
\<close>

theorem lost_status_leaves_tools_enabled:
  assumes server: "tools_store c" and new: "Status i = new_status" "IsZero (nr_DeletionTimestamp i)"
    and first: "Get_NodeRecovery c req (world s) = (Inr i, w)" "fst (isCephToolsEnabled (wired c) s) = Ok False"
      "controller_Reconcile (wired_controller c) req s = (Ok (requeue_after (10 * Second), err), s')"
    and again: "same_tools c (world s') (world u)" "Get_NodeRecovery c req (world u) = (Inr i, w')"
      "controller_Reconcile (wired_controller c) req u = (Ok (requeue_after (10 * Second), err'), u')"
  shows "\<exists>es i'. trace u' = trace u @ es @ [UpdateStatus i'] \<and> list_all (\<lambda>e. \<not> is_write e) es \<and>
    (\<forall>j req' v x out v'. later c f (wire f i') j \<longrightarrow> Get_NodeRecovery c req' (world v) = (Inr j, x) \<longrightarrow>
       controller_Reconcile (wired_controller c) req' v = (out, v') \<longrightarrow>
       (\<exists>es'. trace v' = trace v @ es' \<and> (\<forall>e\<in>set es'. \<not> sets_tools False e)))"
proof -
  obtain es i' where i': "trace u' = trace u @ es @ [UpdateStatus i']" "KeepCephToolsPod (Status i')"
    "list_all (\<lambda>e. \<not> is_write e) es"
    by (rule tools_store.first_pass [OF server again(2) new tools_store.first_pass_enables [OF server new first again(1)] again(3)])
      simp
  show ?thesis
    by (rule exI [of _ es], rule exI [of _ i'], intro conjI allI impI i'(1,3)) (rule later_never_disables [OF _ i'(2)])
qed

text \<open>
  C13. Two recoveries at a time take the Ceph tools from each other. When the first pass of a second recovery follows that of a
  first one that has enabled the tools, the run that completes the first recovery leaves them disabled, whether the second one has ended or
  not and although the second one found them enabled; and no run of the second recovery disables them.
\<close>

theorem overlapping_recoveries_lose_tools:
  assumes server: "tools_store c" and clock: "sane_clock c f"
    and new: "Status i = new_status" "IsZero (nr_DeletionTimestamp i)" "Status j = new_status" "IsZero (nr_DeletionTimestamp j)"
    and first: "Get_NodeRecovery c req (world s) = (Inr i, w)" "fst (isCephToolsEnabled (wired c) s) = Ok False"
      "controller_Reconcile (wired_controller c) req s = (Ok (requeue_after (10 * Second), err), s')"
    and second: "same_tools c (world s') (world u)" "Get_NodeRecovery c req' (world u) = (Inr j, w')"
      "controller_Reconcile (wired_controller c) req' u = (Ok (requeue_after (10 * Second), err'), u')"
  shows "\<exists>es i' es' j'. trace s' = trace s @ es @ [UpdateStatus i'] \<and> trace u' = trace u @ es' @ [UpdateStatus j'] \<and>
    fst (isCephToolsEnabled (wired c) u) = Ok True \<and>
    (\<forall>k key v x out v'. later c f (wire f i') k \<longrightarrow> Get_NodeRecovery c key (world v) = (Inr k, x) \<longrightarrow>
       controller_Reconcile (wired_controller c) key v = (out, v') \<longrightarrow> completes v v' \<longrightarrow>
       fst (isCephToolsEnabled (wired c) v') = Ok False) \<and>
    (\<forall>k key v x out v'. later c f (wire f j') k \<longrightarrow> Get_NodeRecovery c key (world v) = (Inr k, x) \<longrightarrow>
       controller_Reconcile (wired_controller c) key v = (out, v') \<longrightarrow>
       (\<exists>es. trace v' = trace v @ es \<and> (\<forall>e\<in>set es. \<not> sets_tools False e)))"
proof -
  obtain es i' where i': "trace s' = trace s @ es @ [UpdateStatus i']" "\<not> KeepCephToolsPod (Status i')"
    "past_enabling (Status i')" "\<And>f. reachable c f (wire f i')"
    by (rule tools_store.first_pass [OF server first(1) new(1,2) first(2,3)]) simp
  have on: "fst (isCephToolsEnabled (wired c) u) = Ok True"
    by (rule tools_store.first_pass_enables [OF server new(1,2) first second(1)])
  obtain es' j' where j': "trace u' = trace u @ es' @ [UpdateStatus j']" "KeepCephToolsPod (Status j')"
    by (rule tools_store.first_pass [OF server second(2) new(3,4) on second(3)]) simp
  have off: "fst (isCephToolsEnabled (wired c) v') = Ok False"
    if "later c f (wire f i') k" "Get_NodeRecovery c key (world v) = (Inr k, x)"
      "controller_Reconcile (wired_controller c) key v = (out, v')" "completes v v'" for k key v x out v'
    using tools_store.completing_run [OF server that(2) _ _ _ that(3,4)] later_stored [OF that(1) clock i'(3,4)] i'(2) by simp
  note keep = later_never_disables [OF _ j'(2)]
  show ?thesis
    by (rule exI [of _ es], rule exI [of _ i'], rule exI [of _ es'], rule exI [of _ j'],
        intro conjI allI impI i'(1) j'(1) on)
      (rule off keep; assumption)+
qed

section \<open>Witnesses\<close>

text \<open>The short path of the healthy cluster, from the status of the first pass to the last condition.\<close>

lemma sample_later:
  assumes "later sample whole_seconds i (running_at ts)" and "stored_in healthy (running_at ts) = [running_at us]"
  shows "later sample whole_seconds i (running_at us)"
  using later.stored [OF assms(1) sample_stores [OF sample_recoveries(1) sample_name assms(2)]] by (simp only: sample_wire)

lemma later_last: "later sample whole_seconds (running_at (take 2 short_path)) (running_at (take 9 short_path))"
  by (intro sample_later [OF _ sample_eighth] sample_later [OF _ sample_seventh] sample_later [OF _ sample_sixth]
      sample_later [OF _ sample_fifth] sample_later [OF _ sample_fourth] sample_later [OF _ sample_third]
      sample_later [OF _ sample_second] later.here)

lemma completes_last:
  assumes "concat (map stored_status (trace s')) = [completed_recovery]" and "trace s = []"
  shows "completes s s'"
proof -
  have "completed_recovery \<in> set (concat (map stored_status (trace s')))" by (simp only: assms(1) list.set_intros)
  then have "UpdateStatus completed_recovery \<in> set (trace s')" by (auto simp only: set_concat set_map stored_status_iff UN_iff)
  moreover have "Phase (Status completed_recovery) = CompletedPhase" by (simp add: completed_recovery_def)
  ultimately show ?thesis using assms(2) by (auto simp: completes_def)
qed

interpretation sample_store: tools_store sample
proof -
  have "tools_store_axioms sample"
    by (unfold_locales)
      (auto simp: same_tools_def sample_def lookup_by_def update_by_def split: option.splits sum.splits)
  with sample_tools.tools_server_axioms show "tools_store sample" by (rule tools_store.intro)
qed

theorem tools_left_as_found_witness:
  "fst (isCephToolsEnabled (wired sample) (snd (run_in healthy (running_at (take 9 short_path))))) = Ok False"
proof -
  let ?s = "at_rest (healthy new_recovery) new_recovery"
  have first: "fst (run_in healthy new_recovery) = Ok (requeue_after (10 * Second), None)"
    "fst (isCephToolsEnabled (wired sample) ?s) = Ok False" and name: "nr_Name new_recovery = ''rec''"
    by code_simp+
  have new: "Status new_recovery = new_status" "IsZero (nr_DeletionTimestamp new_recovery)"
    by (simp_all add: new_recovery_def IsZero_def)
  from tools_left_as_found [OF sample_store.tools_store_axioms sample_clock new
      sample_get [of healthy, OF sample_recoveries(1) name] first(2)
      run_fst [of "controller_Reconcile (wired_controller sample) recovery_key", OF first(1) [unfolded run_in_def]]]
  obtain es i' where i': "trace (snd (run_in healthy new_recovery)) = es @ [UpdateStatus i']"
    and rest: "\<forall>j req' v x out v'. later sample whole_seconds (wire whole_seconds i') j \<longrightarrow> Get_NodeRecovery sample req' (world v) = (Inr j, x) \<longrightarrow>
       controller_Reconcile (wired_controller sample) req' v = (out, v') \<longrightarrow> completes v v' \<longrightarrow>
       fst (isCephToolsEnabled (wired sample) v') = Ok False"
    by (auto simp: run_in_def)
  have "i' = running_at (take 2 short_path)" using sample_first i' by (simp add: stored_in_def append_eq_Cons_conv)
  then have "later sample whole_seconds (wire whole_seconds i') (running_at (take 9 short_path))"
    using later_last by (simp only: sample_wire)
  from rest [rule_format, OF this sample_get [of healthy, OF sample_recoveries(1) sample_name] surjective_pairing
      completes_last [OF sample_ninth [unfolded stored_in_def run_in_def] at_rest_trace]]
  show ?thesis by (simp add: run_in_def)
qed

text \<open>The in-memory cluster with an API server that refuses to store a status before a given time.\<close>

definition flaky :: "(cluster, nat list) external" where
  "flaky = sample\<lparr>Update_Status := (\<lambda>x w. if cl_now w < 1005 * Second
     then (Inl (StatusError ''Conflict'' ''the object has been modified''), w) else Update_Status sample x w)\<rparr>"

interpretation flaky_tools: tools_store flaky
proof -
  have "tools_server flaky"
    using sample_tools.tools_server_axioms by (simp add: tools_server_def flaky_def)
  moreover have "tools_store_axioms flaky"
    by (unfold_locales)
      (auto simp: same_tools_def flaky_def sample_def lookup_by_def update_by_def split: option.splits sum.splits)
  ultimately show "tools_store flaky" by (rule tools_store.intro)
qed

definition lost_pass :: "cluster st" where
  "lost_pass = snd (controller_Reconcile (wired_controller flaky) recovery_key (at_rest (healthy new_recovery) new_recovery))"

definition before_retry :: "cluster st" where
  "before_retry = at_rest ((world lost_pass)\<lparr>cl_now := 1010 * Second\<rparr>) new_recovery"

definition kept_condition :: "StatusType \<Rightarrow> RecoveryConditionType \<Rightarrow> RecoveryCondition" where
  "kept_condition st ty =
     (sample_condition st ty)\<lparr>cond_LastProbeTime := 1010 * Second, cond_LastTransitionTime := 1010 * Second\<rparr>"

definition kept_recovery :: NodeRecovery where
  "kept_recovery = new_recovery\<lparr>Status := new_status\<lparr>Phase := RunningPhase, StartTime := Some (1010 * Second),
     KeepCephToolsPod := True,
     Conditions := [kept_condition StatusFalse EnableCephToolsPod, kept_condition StatusTrue WaitForCephToolsPodRunning]\<rparr>\<rparr>"

theorem lost_status_leaves_tools_enabled_witness:
  "list_all (\<lambda>e. \<not> sets_tools False e) (trace (snd (controller_Reconcile (wired_controller flaky) recovery_key
     (at_rest (healthy kept_recovery) kept_recovery))))"
proof -
  let ?s = "at_rest (healthy new_recovery) new_recovery"
  let ?run = "controller_Reconcile (wired_controller flaky) recovery_key"
  have first: "fst (?run ?s) = Ok (requeue_after (10 * Second), Some (JoinError [StatusError ''Conflict'' ''the object has been modified'']))"
    "fst (isCephToolsEnabled (wired flaky) ?s) = Ok False"
    and again: "fst (?run before_retry) = Ok (requeue_after (10 * Second), None)"
    and kept: "concat (map stored_status (trace (snd (?run before_retry)))) = [wire whole_seconds kept_recovery]"
      "wire whole_seconds kept_recovery = kept_recovery"
    and names: "cl_recoveries (world lost_pass) = [new_recovery]" "nr_Name new_recovery = ''rec''" "nr_Name kept_recovery = ''rec''"
    by code_simp+
  have new: "Status new_recovery = new_status" "IsZero (nr_DeletionTimestamp new_recovery)"
    by (simp_all add: new_recovery_def IsZero_def)
  have get: "Get_NodeRecovery flaky recovery_key (world (at_rest cl x)) = (Inr i, cl)" if "cl_recoveries cl = [i]" "nr_Name i = ''rec''" for cl i x
    using that by (simp add: flaky_def sample_def lookup_by_def recovery_key_def at_rest_def)
  have same: "same_tools flaky (world (snd (?run ?s))) (world before_retry)"
    by (simp add: same_tools_def before_retry_def lost_pass_def at_rest_def flaky_def sample_def lookup_by_def split: option.splits)
  have load: "Get_NodeRecovery flaky recovery_key (world before_retry) = (Inr new_recovery, (world lost_pass)\<lparr>cl_now := 1010 * Second\<rparr>)"
    unfolding before_retry_def by (rule get) (simp_all add: names)
  from lost_status_leaves_tools_enabled [where f = whole_seconds, OF flaky_tools.tools_store_axioms new get [of "healthy new_recovery"]
      first(2) run_fst [of ?run, OF first(1)] same load run_fst [of ?run, OF again]]
  obtain es i' where i': "trace (snd (?run before_retry)) = trace before_retry @ es @ [UpdateStatus i']"
    and rest: "\<forall>j req' v x out v'. later flaky whole_seconds (wire whole_seconds i') j \<longrightarrow> Get_NodeRecovery flaky req' (world v) = (Inr j, x) \<longrightarrow>
       controller_Reconcile (wired_controller flaky) req' v = (out, v') \<longrightarrow>
       (\<exists>es'. trace v' = trace v @ es' \<and> (\<forall>e\<in>set es'. \<not> sets_tools False e))"
    by (auto simp: names)
  have "i' = kept_recovery" using kept i' by (auto simp: before_retry_def append_eq_Cons_conv)
  then have "later flaky whole_seconds (wire whole_seconds i') kept_recovery" using later.here kept(2) by metis
  from rest [rule_format, OF this get [of "healthy kept_recovery"] surjective_pairing] show ?thesis by (simp add: names list_all_iff)
qed

text \<open>A second recovery that starts after the first one has stored its status.\<close>

definition second_recovery :: NodeRecovery where
  "second_recovery = new_recovery\<lparr>nr_Name := ''second''\<rparr>"

definition first_done :: "cluster st" where
  "first_done = snd (run_in healthy new_recovery)"

definition both :: "cluster st" where
  "both = at_rest ((world first_done)\<lparr>cl_recoveries := cl_recoveries (world first_done) @ [second_recovery]\<rparr>) second_recovery"

theorem overlapping_recoveries_lose_tools_witness:
  "fst (isCephToolsEnabled (wired sample) (snd (run_in (\<lambda>i. (world both)\<lparr>cl_recoveries := [i]\<rparr>) (running_at (take 9 short_path))))) = Ok False"
proof -
  let ?s = "at_rest (healthy new_recovery) new_recovery"
  let ?k = "\<lparr>nn_Namespace = [], nn_Name = ''second''\<rparr>"
  let ?run = "controller_Reconcile (wired_controller sample)"
  let ?cl = "\<lambda>i. (world both)\<lparr>cl_recoveries := [i]\<rparr>"
  have first: "fst (?run recovery_key ?s) = Ok (requeue_after (10 * Second), None)"
    "fst (isCephToolsEnabled (wired sample) ?s) = Ok False"
    and second: "fst (?run ?k both) = Ok (requeue_after (10 * Second), None)"
    and last: "stored_in ?cl (running_at (take 9 short_path)) = [completed_recovery]"
    and names: "nr_Name new_recovery = ''rec''" "map nr_Name (cl_recoveries (world first_done)) = [''rec'']"
    by code_simp+
  have new: "Status new_recovery = new_status" "IsZero (nr_DeletionTimestamp new_recovery)"
    "Status second_recovery = new_status" "IsZero (nr_DeletionTimestamp second_recovery)"
    by (simp_all add: new_recovery_def second_recovery_def IsZero_def)
  have same: "same_tools sample (world (snd (?run recovery_key ?s))) (world both)"
    by (simp add: same_tools_def both_def first_done_def run_in_def at_rest_def sample_def lookup_by_def split: option.splits)
  have load: "Get_NodeRecovery sample ?k (world both) = (Inr second_recovery, world both)"
    using names(2) by (auto simp: both_def at_rest_def second_recovery_def sample_def lookup_by_def)
  from overlapping_recoveries_lose_tools [OF sample_store.tools_store_axioms sample_clock new
      sample_get [of healthy, OF sample_recoveries(1) names(1)] first(2) run_fst [of "?run recovery_key", OF first(1)] same load
      run_fst [of "?run ?k", OF second]]
  obtain es i' where i': "trace (snd (run_in healthy new_recovery)) = es @ [UpdateStatus i']"
    and rest: "\<forall>k key v x out v'. later sample whole_seconds (wire whole_seconds i') k \<longrightarrow> Get_NodeRecovery sample key (world v) = (Inr k, x) \<longrightarrow>
       ?run key v = (out, v') \<longrightarrow> completes v v' \<longrightarrow> fst (isCephToolsEnabled (wired sample) v') = Ok False"
    by (auto simp: run_in_def)
  have "i' = running_at (take 2 short_path)" using sample_first i' by (simp add: stored_in_def append_eq_Cons_conv)
  then have "later sample whole_seconds (wire whole_seconds i') (running_at (take 9 short_path))"
    using later_last by (simp only: sample_wire)
  from rest [rule_format, OF this sample_get [of ?cl, OF _ sample_name] surjective_pairing
      completes_last [OF last [unfolded stored_in_def run_in_def] at_rest_trace]]
  show ?thesis by (simp add: run_in_def)
qed

end
