(* ===== verification/Panics.thy ===== *)
theory Panics
  imports Sample_Runs Recovery_Ops_Properties
begin

text \<open>
  Which run-time panics a pass of \<open>Reconcile\<close> can end in. \<open>safe S m\<close>: from an object that has a
  condition, a start time and no nil device, \<open>m\<close> keeps it so and panics only with a message and in a world that \<open>S\<close> has. The rules
  decompose a computation along its combinators, and each step of the recovery is classified.
\<close>

section \<open>The calculus\<close>

definition intact :: "'w st \<Rightarrow> bool" where
  "intact s \<longleftrightarrow> Conditions (Status (inst s)) \<noteq> [] \<and> None \<notin> set (NodeDevice (Status (inst s))) \<and>
     StartTime (Status (inst s)) \<noteq> None"

definition safe_end :: "(string \<times> 'w) set \<Rightarrow> (go_error, 'a) result \<Rightarrow> 'w st \<Rightarrow> bool" where
  "safe_end S x s = (case x of Panic p \<Rightarrow> (p, world s) \<in> S | _ \<Rightarrow> intact s)"

text \<open>Panics by a nil dereference, in any world.\<close>

definition nil_panics :: "(string \<times> 'w) set" where
  "nil_panics = {nilDeref} \<times> UNIV"

text \<open>Panics because the client set cannot be built.\<close>

definition client_panics :: "('w, 'v) external \<Rightarrow> (string \<times> 'w) set" where
  "client_panics c = {(Error e, w) |e w. NewForConfig c w = Inl e}"

lemma safe_end_simps [simp]:
  "safe_end S (Ok y) s = intact s" "safe_end S (Err e) s = intact s" "safe_end S (Panic p) s = ((p, world s) \<in> S)"
  by (simp_all add: safe_end_def)

definition safe :: "(string \<times> 'w) set \<Rightarrow> ('w, 'a) go \<Rightarrow> bool" where
  "safe S m \<longleftrightarrow> (\<forall>s. intact s \<longrightarrow> wp m (safe_end S) s)"

lemma safeD: "safe S m \<Longrightarrow> intact s \<Longrightarrow> m s = (x, s') \<Longrightarrow> safe_end S x s'"
  by (auto simp: safe_def dest: wpD)

text \<open>A computation that leaves the object alone and does not panic.\<close>

lemma safe_framed:
  assumes "footprint P m" and "\<And>s p. fst (m s) \<noteq> Panic p"
  shows "safe S m"
  unfolding safe_def
proof (intro allI impI wpI)
  fix s x s' assume "intact s" and run: "m s = (x, s')"
  moreover have "inst s' = inst s" using upholdsD [OF assms(1) run] by (simp add: grows_frame_def)
  ultimately show "safe_end S x s'" using assms(2) [of s] by (cases x) (auto simp: intact_def)
qed

lemma safe_ret: "safe S (ret x)" and safe_throw: "safe S (throw e)" and safe_gets: "safe S (gets f)"
  by (simp_all add: safe_def wp_simps)

lemma safe_call: "safe S (call e f)"
  by (rule safe_framed [OF footprint_call [of "\<lambda>_. True"]])
    (auto simp: call_def split: prod.splits sum.splits)

lemma safe_emit: "safe S (emit e)"
  by (simp add: safe_def wp_simps intact_def)

lemma safe_time_Now: "safe S (time_Now c)"
  by (simp add: safe_def wp_simps intact_def split: prod.splits)

lemma safe_map_range: "safe S (map_range c ks)"
  by (simp add: map_range_def safe_gets)

lemma safe_liftSum: "safe S (liftSum x)"
  by (cases x) (simp_all add: safe_ret safe_throw)

lemma safe_liftErr: "safe S (liftErr y)"
  by (cases y) (simp_all add: safe_ret safe_throw)

lemma safe_deref: "nil_panics \<subseteq> S \<Longrightarrow> safe S (deref p)"
  by (cases p) (auto simp: safe_def wp_simps nil_panics_def)

lemma safe_modify_status:
  "(\<And>st. Conditions st \<noteq> [] \<Longrightarrow> Conditions (f st) \<noteq> []) \<Longrightarrow>
   (\<And>st. None \<notin> set (NodeDevice st) \<Longrightarrow> None \<notin> set (NodeDevice (f st))) \<Longrightarrow>
   (\<And>st. StartTime (f st) = StartTime st) \<Longrightarrow> safe S (modify_status f)"
  by (simp add: safe_def wp_simps intact_def)

lemma safe_bind:
  assumes "safe S m" and "\<And>x. safe S (k x)"
  shows "safe S (bind m k)"
  unfolding safe_def wp_bind
proof (intro allI impI)
  fix s :: "'a st" assume "intact s"
  then have "wp m (safe_end S) s" using assms(1) by (simp add: safe_def)
  then show "wp m (\<lambda>r s'. case r of Ok x \<Rightarrow> wp (k x) (safe_end S) s' | Err e \<Rightarrow> safe_end S (Err e) s'
      | Panic p \<Rightarrow> safe_end S (Panic p) s') s"
    by (rule wp_conseq) (use assms(2) in \<open>auto simp: safe_def split: result.split\<close>)
qed

lemma safe_bind_post:
  assumes "safe S m" and "\<And>s x s'. m s = (Ok x, s') \<Longrightarrow> P x" and "\<And>x. P x \<Longrightarrow> safe S (k x)"
  shows "safe S (bind m k)"
proof -
  have "safe S (bind m (\<lambda>x. if P x then k x else ret undefined))"
    using assms(1,3) by (intro safe_bind) (simp_all add: safe_ret)
  moreover have "bind m (\<lambda>x. if P x then k x else ret undefined) = bind m k"
    using assms(2) by (auto simp: bind_def fun_eq_iff split: prod.splits result.splits)
  ultimately show ?thesis by simp
qed

text \<open>What is read from an intact object has no nil device.\<close>

lemma safe_bind_status:
  "(\<And>st. None \<notin> set (NodeDevice st) \<Longrightarrow> StartTime st \<noteq> None \<Longrightarrow> safe S (k st)) \<Longrightarrow> safe S (bind get_status k)"
  by (simp add: safe_def wp_simps intact_def)

lemma safe_bind_devices:
  assumes "None \<notin> set nds" and "\<And>ids. safe S (k ids)"
  shows "safe S (bind (getOSDIDsFromNodeDevices nds) k)"
proof -
  have "safe S (foldM (\<lambda>r p. bind (deref p) (\<lambda>nd. ret (r @ [nd_FailingOSDID nd]))) acc nds)" for acc
    using assms(1)
  proof (induction nds arbitrary: acc)
    case (Cons p nds)
    then obtain nd where "p = Some nd" by (cases p) auto
    with Cons show ?case by simp
  qed (simp add: safe_ret)
  then show ?thesis unfolding getOSDIDsFromNodeDevices_def using assms(2) by (rule safe_bind)
qed

lemma safe_onErr:
  assumes "safe S m" and "\<And>e. safe S (h e)"
  shows "safe S (onErr m h)"
  unfolding safe_def wp_onErr
proof (intro allI impI)
  fix s :: "'a st" assume "intact s"
  then have "wp m (safe_end S) s" using assms(1) by (simp add: safe_def)
  then show "wp m (\<lambda>r s'. case r of Ok x \<Rightarrow> safe_end S (Ok x) s' | Err e \<Rightarrow> wp (h e) (safe_end S) s'
      | Panic p \<Rightarrow> safe_end S (Panic p) s') s"
    by (rule wp_conseq) (use assms(2) in \<open>auto simp: safe_def split: result.split\<close>)
qed

lemma safe_attempt:
  assumes "safe S m"
  shows "safe S (attempt m)"
  unfolding safe_def wp_attempt
proof (intro allI impI)
  fix s :: "'a st" assume "intact s"
  then have "wp m (safe_end S) s" using assms by (simp add: safe_def)
  then show "wp m (\<lambda>r s'. case r of Ok x \<Rightarrow> safe_end S (Ok (Inr x)) s' | Err e \<Rightarrow> safe_end S (Ok (Inl e)) s'
      | Panic p \<Rightarrow> safe_end S (Panic p) s') s"
    by (rule wp_conseq) (auto split: result.split)
qed

lemma safe_if: "safe S m \<Longrightarrow> safe S n \<Longrightarrow> safe S (if b then m else n)"
  and safe_case_option: "safe S m \<Longrightarrow> (\<And>x. safe S (f x)) \<Longrightarrow> safe S (case p of None \<Rightarrow> m | Some x \<Rightarrow> f x)"
  and safe_case_sum: "(\<And>x. safe S (g x)) \<Longrightarrow> (\<And>y. safe S (h y)) \<Longrightarrow> safe S (case q of Inl x \<Rightarrow> g x | Inr y \<Rightarrow> h y)"
  and safe_case_list: "safe S m \<Longrightarrow> (\<And>x xs. safe S (l x xs)) \<Longrightarrow> safe S (case ys of [] \<Rightarrow> m | x # xs \<Rightarrow> l x xs)"
  and safe_case_prod: "(\<And>x y. safe S (c x y)) \<Longrightarrow> safe S (case z of (x, y) \<Rightarrow> c x y)"
  by (simp_all split: option.split sum.split list.split prod.split)

lemma safe_Let: "safe S (f t) \<Longrightarrow> safe S (Let t f)"
  by simp

lemma safe_forM: "(\<And>x. safe S (f x)) \<Longrightarrow> safe S (forM f xs)"
  by (induction xs) (simp_all add: safe_ret safe_bind)

lemma safe_foldM: "(\<And>b x. safe S (f b x)) \<Longrightarrow> safe S (foldM f a xs)"
  by (induction xs arbitrary: a) (simp_all add: safe_ret safe_bind)

lemmas safe_intros =
  safe_bind_status safe_bind_devices safe_ret safe_throw safe_gets safe_call safe_emit safe_time_Now safe_map_range
  safe_liftSum safe_liftErr safe_onErr safe_attempt safe_if safe_case_option safe_case_sum
  safe_case_list safe_case_prod safe_Let safe_forM safe_foldM safe_bind

section \<open>The operations\<close>

lemma safe_set_reason: "safe S (set_reason rs m)" and safe_set_message: "safe S (set_message m)"
  by (simp_all add: set_reason_def set_message_def safe_modify_status)

lemma safe_set_phase: "safe S (set_phase p)"
  by (simp add: set_phase_def safe_modify_status)

lemma safe_fail_with: "safe S (fail_with rs e)" and safe_fail_message: "safe S (fail_message e)"
  by (simp_all add: fail_with_def fail_message_def safe_bind safe_set_reason safe_set_message safe_throw)

lemma safe_transition: "safe S (transitionNextCondition c ty)"
  by (auto simp: safe_def intact_def intro!: wp_transitionNextCondition)

lemma safe_go_to: "safe S (go_to r ty out)"
  by (simp add: go_to_def safe_bind safe_transition safe_ret)

lemma safe_asSelector: "safe S (asSelector c sel)" and safe_listPods: "safe S (listPods c l)"
  and safe_deleteAllOfPods: "safe S (deleteAllOfPods c l g)" and safe_return_errs: "safe S (return_errs errs)"
  by (simp_all add: asSelector_def listPods_def deleteAllOfPods_def return_errs_def safe_bind safe_liftErr safe_ret safe_call)

lemmas safe_base = safe_intros safe_set_reason safe_set_message safe_set_phase safe_fail_with safe_fail_message
  safe_transition safe_go_to safe_asSelector safe_listPods safe_deleteAllOfPods safe_return_errs

text \<open>The constant for version 4.15 has been created when the program started.\<close>

definition constants_created :: "('w, 'v) external \<Rightarrow> bool" where
  "constants_created c \<longleftrightarrow> (\<exists>v. NewVersion c ''v4.15'' = Inr v)"

lemma safe_ocp4_15: "constants_created c \<Longrightarrow> safe S (ocp4_15 c)"
  by (auto simp: constants_created_def ocp4_15_def safe_ret)

lemma safe_getOCPVersion: "safe S (getOCPVersion r)" and safe_getStorageCluster: "safe S (getStorageCluster r)"
  and safe_getOSCInitialization: "safe S (getOSCInitialization r)"
  unfolding getOCPVersion_def getStorageCluster_def getOSCInitialization_def by (intro safe_base)+

lemma safe_tools:
  assumes "constants_created (rc_Client r)"
  shows "safe S (isCephToolsEnabled r)" and "safe S (setEnableCephToolsValue r v)"
  unfolding isCephToolsEnabled_def setEnableCephToolsValue_def
  by (intro safe_base safe_ocp4_15 safe_getOCPVersion safe_getStorageCluster safe_getOSCInitialization assms)+

lemma safe_getRunningCephToolsPod: "safe S (getRunningCephToolsPod r)"
  and safe_getOSDPods: "safe S (getOSDPods r)" and safe_getOSDPodsWithID: "safe S (getOSDPodsWithID r i)"
  and safe_scale: "safe S (scaleRookCephOSDDeploymentToZero r i)" and safe_forceDelete: "safe S (forceDeleteRookCephOSDPods r ids)"
  and safe_deleteOldJob: "safe S (deleteOldOSDRemovalJob r)"
  unfolding getRunningCephToolsPod_def getOSDPods_def getOSDPodsWithID_def scaleRookCephOSDDeploymentToZero_def
    forceDeleteRookCephOSDPods_def deleteOldOSDRemovalJob_def
  by (intro safe_base)+

lemma safe_hasPods: "safe S (hasPodsInCreatingOrInitializingState r)"
  and safe_pending: "safe S (getPodsInPendingPhase r)"
  and safe_deleteFailed: "safe S (deleteFailedPodsWithReasonNodeAffinity r)"
  and safe_label: "safe S (labelNodesWithPodsInPendingState r pods)"
  and safe_partition: "safe S (getOSDPodsInOperationalAndFailingStatus r)"
  and safe_getPVs: "safe S (getPVsForNode r n)" and safe_processPV: "safe S (processPVForNode r nd pvs)"
  and safe_count: "safe S (countPVCsBoundToODSPods r)"
  and safe_jobPod: "safe S (getOSDRemovalPodJobCompletionStatus r)"
  and safe_operatorPod: "safe S (deleteRookCephOperatorPod r)"
  unfolding hasPodsInCreatingOrInitializingState_def getPodsInPendingPhase_def deleteFailedPodsWithReasonNodeAffinity_def
    getPodsInFailedPhaseWithReasonNodeAffinity_def labelNodesWithPodsInPendingState_def label_node_def
    getOSDPodsInOperationalAndFailingStatus_def getPVsForNode_def processPVForNode_def countPVCsBoundToODSPods_def
    getOSDRemovalPodJobCompletionStatus_def listPodsWithSelectors_def deleteRookCephOperatorPod_def
  by (intro safe_base safe_getOSDPods)+

lemma safe_processTemplate: "safe S (processTemplate c t)"
  by (rule safe_framed [OF footprint_processTemplate]) (simp add: processTemplate_def split: prod.splits)

lemma safe_removalTemplate: "nil_panics \<subseteq> S \<Longrightarrow> safe S (processOCSOSDRemovalTemplate r ids forced)"
  unfolding processOCSOSDRemovalTemplate_def create_template_object_def
  by (intro safe_base safe_deref safe_processTemplate)

lemma safe_handleCrash: "nil_panics \<subseteq> S \<Longrightarrow> safe S (handleCrashLoopBackOffPods r pods)"
  unfolding handleCrashLoopBackOffPods_def handle_crash_pod_def getNodeDeviceNameFromPV_def
  by (intro safe_base safe_deref safe_scale)

lemma safe_metrics: "safe S IncrementFailedNodeCounter" "safe S IncrementCompletedOperandCounter"
proof -
  have loop: "safe S (forM (\<lambda>p. bind (deref p) (\<lambda>nd. emit (f nd))) nds)" if "None \<notin> set nds" for f nds
    using that
  proof (induction nds)
    case (Cons p nds)
    then obtain nd where "p = Some nd" by (cases p) auto
    with Cons show ?case by (simp add: safe_bind safe_emit)
  qed (simp add: safe_ret)
  show "safe S IncrementFailedNodeCounter" "safe S IncrementCompletedOperandCounter"
    unfolding IncrementFailedNodeCounter_def IncrementCompletedOperandCounter_def
    by (auto intro!: safe_bind_status loop)
qed

section \<open>The steps\<close>

lemma safe_count_terminating: "nil_panics \<subseteq> S \<Longrightarrow> safe S (count_terminating r c ids)"
  by (induction ids arbitrary: c) (auto intro!: safe_base safe_deref safe_getOSDPodsWithID)

lemma safe_complete_recovery: "safe S (complete_recovery r)"
proof -
  have "safe S (deref p)" if "p \<noteq> None" for p :: "time option"
    using that by (cases p) (simp_all add: safe_ret)
  then show ?thesis
    unfolding complete_recovery_def by (auto intro!: safe_base safe_modify_status)
qed

lemma safe_time_out: "safe S (time_out latest)"
  unfolding time_out_def by (intro safe_base safe_metrics)

lemma safe_step_ManageCrashLoopBackOffPods:
  assumes "nil_panics \<subseteq> S"
  shows "safe S (step_ManageCrashLoopBackOffPods r)"
proof -
  have devices: "None \<notin> set (fst x)" if "onErr (handleCrashLoopBackOffPods r pods) (fail_with rs) s = (Ok x, s')" for pods rs s x s'
  proof -
    from that have "handleCrashLoopBackOffPods r pods s = (Ok x, s')"
      by (auto simp: onErr_def fail_with_def set_reason_def bind_def run_modify_status run_throw split: prod.splits result.splits)
    then have "foldM (handle_crash_pod r) [] pods s = (Ok (fst x), s')"
      by (auto simp: handleCrashLoopBackOffPods_def bind_eq_Ok ret_Ok)
    from foldM_crash_pods [OF this] show ?thesis by auto
  qed
  have after: "safe S (case x of (nodeDevice, _) \<Rightarrow> bind (modify_status (\<lambda>st. st\<lparr>NodeDevice := nodeDevice\<rparr>)) (\<lambda>_.
        go_to r ForceDeleteRookCephOSDPods (requeue_after (15 * Second))))" if "None \<notin> set (fst x)" for x :: "NodePV option list \<times> Result"
    using that by (auto intro!: safe_base safe_modify_status split: prod.splits)
  have crash: "safe S (bind (onErr (handleCrashLoopBackOffPods r pods) (fail_with FailedHandleCrashLoopBackOffPods))
      (\<lambda>(nodeDevice, _). bind (modify_status (\<lambda>st. st\<lparr>NodeDevice := nodeDevice\<rparr>)) (\<lambda>_.
        go_to r ForceDeleteRookCephOSDPods (requeue_after (15 * Second)))))" for pods
    by (rule safe_bind_post [where P = "\<lambda>x. None \<notin> set (fst x)"])
      (use assms devices after in \<open>auto intro!: safe_onErr safe_handleCrash safe_fail_with\<close>)
  show ?thesis
    unfolding step_ManageCrashLoopBackOffPods_def
    by (auto intro!: safe_base safe_partition safe_modify_status crash)
qed

lemma safe_quiet_steps:
  shows "safe S (step_WaitForCephToolsPodRunning r)" and "safe S (step_WaitForOSDPodsStabilize r)"
    and "safe S (step_LabelNodesWithPendingPods r)"
    and "safe S (step_RestartStorageOperator r)" and "safe S (step_DeleteFailedPodsNodeAffinity r)"
  unfolding step_WaitForCephToolsPodRunning_def getCephToolsPodPhase_def step_WaitForOSDPodsStabilize_def
    step_LabelNodesWithPendingPods_def step_RestartStorageOperator_def step_DeleteFailedPodsNodeAffinity_def
  by (auto intro!: safe_base safe_getRunningCephToolsPod safe_hasPods safe_pending safe_label safe_operatorPod
      safe_deleteFailed safe_modify_status)

lemma safe_step_WaitForPersistenVolumeBound: "safe S (step_WaitForPersistenVolumeBound r)"
proof -
  have loop: "safe S (foldM (\<lambda>errs p. bind (deref p) (\<lambda>nd. bind (getPVsForNode r (nd_NodeName nd)) (\<lambda>pvs.
      bind (processPVForNode r nd pvs) (\<lambda>err. ret (errors_Join [errs, err]))))) errs nds)" if "None \<notin> set nds" for nds errs
    using that
  proof (induction nds arbitrary: errs)
    case (Cons p nds)
    then obtain nd where "p = Some nd" by (cases p) auto
    with Cons show ?case by (auto intro!: safe_bind safe_getPVs safe_processPV safe_ret)
  qed (simp add: safe_ret)
  show ?thesis
    unfolding step_WaitForPersistenVolumeBound_def by (intro loop safe_base safe_count)
qed

lemma safe_tools_steps:
  assumes "constants_created (rc_Client r)"
  shows "safe S (step_EnableCephToolsPod r)" and "safe S (step_DisableCephTools r)"
  unfolding step_EnableCephToolsPod_def step_DisableCephTools_def enableCephTools_def disableCephTools_def
  using safe_tools [OF assms] by (auto intro!: safe_base safe_modify_status safe_metrics)

lemma safe_job_steps:
  assumes "nil_panics \<subseteq> S"
  shows "safe S (step_ForceDeleteRookCephOSDPods r)" and "safe S (step_ProcessOCSRemovalTemplate r)"
  unfolding step_ForceDeleteRookCephOSDPods_def step_ProcessOCSRemovalTemplate_def
  by (intro safe_base safe_count_terminating safe_forceDelete safe_deleteOldJob safe_getOSDPods
      safe_removalTemplate safe_modify_status assms; simp)+

context recoverer_env
begin

lemma safe_cmd:
  assumes "client_panics (rc_Client r) \<subseteq> S"
  shows "safe S (rc_cmdRunner r p cmd)"
  unfolding safe_def
proof (intro allI impI wpI)
  fix s x s' assume "intact s" and run: "rc_cmdRunner r p cmd s = (x, s')"
  moreover have "inst s' = inst s" using upholdsD [OF cmd.Run_footprint run] by (simp add: grows_frame_def)
  moreover have "(m, world s') \<in> S" if "x = Panic m" for m
    using cmd.Run_panic run that assms by (fastforce simp: client_panics_def)
  ultimately show "safe_end S x s'" by (cases x) (auto simp: intact_def)
qed

lemma safe_logs: "safe S (rc_logRetriever r p)"
  by (rule safe_framed [OF logs.GetLogs_footprint logs.GetLogs_no_panic])

lemma safe_finish: "safe S (finish_removal_job r pod)"
  unfolding finish_removal_job_def validateJobLogs_def by (intro safe_base safe_logs safe_deleteOldJob)

lemma safe_step_Retry: "safe S (step_RetryForceCleanupOSDRemovalJob r latest)"
  unfolding step_RetryForceCleanupOSDRemovalJob_def by (intro safe_base safe_jobPod safe_finish)

lemma safe_step_Cleanup: "nil_panics \<subseteq> S \<Longrightarrow> safe S (step_CleanupOSDRemovalJob r latest)"
  unfolding step_CleanupOSDRemovalJob_def
  by (intro safe_base safe_jobPod safe_finish safe_deleteOldJob safe_removalTemplate safe_modify_status; simp)

lemma safe_step_Fitness: "client_panics (rc_Client r) \<subseteq> S \<Longrightarrow> safe S (step_StorageClusterFitnessCheck r)"
  unfolding step_StorageClusterFitnessCheck_def getCephHealthStatus_def archiveCephDaemonCrashMessages_def
  by (intro safe_base safe_cmd safe_getRunningCephToolsPod)

lemma safe_run_step:
  assumes "constants_created (rc_Client r)"
    and "cond_Type latest \<in> {ManageCrashLoopBackOffPods, ForceDeleteRookCephOSDPods, ProcessOCSRemovalTemplate,
          CleanupOSDRemovalJob} \<Longrightarrow> nil_panics \<subseteq> S"
    and "cond_Type latest = StorageClusterFitnessCheck \<Longrightarrow> client_panics (rc_Client r) \<subseteq> S"
  shows "safe S (run_step r latest)"
  using assms
  by (cases "cond_Type latest")
    (simp_all add: run_step_def safe_tools_steps safe_quiet_steps safe_step_ManageCrashLoopBackOffPods safe_job_steps
      safe_step_Cleanup safe_step_Retry safe_step_WaitForPersistenVolumeBound safe_step_Fitness safe_bind
      safe_complete_recovery)

end

section \<open>A pass of Reconcile\<close>

lemma wf_status_intact: "wf_status (Status (inst s)) \<Longrightarrow> intact s"
  by (auto simp: wf_status_def conditions_wf_def devices_wf_def intact_def)

text \<open>The panics that a condition admits.\<close>

definition panics_of :: "('w, 'v) external \<Rightarrow> RecoveryConditionType \<Rightarrow> (string \<times> 'w) set" where
  "panics_of c ty =
     (if ty \<in> {ManageCrashLoopBackOffPods, ForceDeleteRookCephOSDPods, ProcessOCSRemovalTemplate, CleanupOSDRemovalJob}
      then nil_panics
      else if ty = StorageClusterFitnessCheck then client_panics c
      else {})"

lemma Reconcile_panic:
  assumes "constants_created c" and "intact s" and "Reconcile (wired c) s = (Panic p, s')"
  shows "(p, world s') \<in> panics_of c (current_type (Status (inst s)))"
proof -
  define S where "S = panics_of c (current_type (Status (inst s)))"
  have ne: "Conditions (Status (inst s)) \<noteq> []" using assms(2) by (simp add: intact_def)
  have "wp (Reconcile (wired c)) (safe_end S) s"
    unfolding Reconcile_def wp_bind
  proof (rule wp_getLatestCondition [OF ne], goal_cases)
    case (1 t w)
    let ?latest = "(last (Conditions (Status (inst s))))\<lparr>cond_LastProbeTime := t\<rparr>"
    have step: "safe S (bind (time_Now (rc_Client (wired c))) (\<lambda>now.
        if After now (cond_LastTransitionTime ?latest + reconciliationTimeout) then time_out ?latest
        else run_step (wired c) ?latest))"
      by (intro safe_bind safe_time_Now safe_if safe_time_out wr.safe_run_step)
        (use assms(1) in \<open>auto simp: S_def panics_of_def\<close>)
    have "intact (s\<lparr>world := w, inst := (inst s)\<lparr>Status :=
        set_latest (\<lambda>l. l\<lparr>cond_LastProbeTime := t\<rparr>) (Status (inst s))\<rparr>\<rparr>)"
      using assms(2) by (simp add: intact_def)
    with step have "wp (bind (time_Now (rc_Client (wired c))) (\<lambda>now.
        if After now (cond_LastTransitionTime ?latest + reconciliationTimeout) then time_out ?latest
        else run_step (wired c) ?latest)) (safe_end S)
        (s\<lparr>world := w, inst := (inst s)\<lparr>Status := set_latest (\<lambda>l. l\<lparr>cond_LastProbeTime := t\<rparr>) (Status (inst s))\<rparr>\<rparr>)"
      unfolding safe_def by blast
    then show ?case unfolding wp_bind by (simp only: result.case)
  qed
  from wpD [OF this assms(3)] show ?thesis by (simp add: S_def)
qed

text \<open>
  C32. A pass on a well-formed status can panic in five of the fourteen conditions only. In four of them it panics
  by dereferencing a nil pointer: a crashing pod without a claim, a pod that is not being deleted, or a
  template without one of its parameters. In the fitness check it panics when no client set can be built for a remote command, with
  the error of the client library. No other condition can panic.
\<close>

theorem panics_characterised:
  assumes "wf_status (Status (inst s))" and "constants_created c" and "Reconcile (wired c) s = (Panic p, s')"
  shows "p = nilDeref \<and> current_type (Status (inst s)) \<in>
      {ManageCrashLoopBackOffPods, ForceDeleteRookCephOSDPods, ProcessOCSRemovalTemplate, CleanupOSDRemovalJob} \<or>
    (\<exists>e. NewForConfig c (world s') = Inl e \<and> p = Error e) \<and> current_type (Status (inst s)) = StorageClusterFitnessCheck"
  using Reconcile_panic [OF assms(2) wf_status_intact [OF assms(1)] assms(3)]
  by (auto simp: panics_of_def nil_panics_def client_panics_def split: if_splits)

text \<open>The in-memory cluster, whose client library finds no certificate from a given time on.\<close>

definition without_certificate :: "(cluster, nat list) external" where
  "without_certificate = sample\<lparr>NewForConfig := (\<lambda>w. if 1000 * Second \<le> cl_now w
     then Inl (ErrorString ''open ca.crt: no such file or directory'') else Inr ())\<rparr>"

theorem panics_characterised_witness:
  "(\<exists>s'. Reconcile (wired sample)
      (at_rest (disk_failed new_recovery) (with_device (take 5 short_path @ [ForceDeleteRookCephOSDPods]))) = (Panic nilDeref, s')) \<and>
   (\<exists>s'. Reconcile (wired without_certificate) (at_rest (healthy new_recovery) (running_at (take 8 short_path))) =
      (Panic ''open ca.crt: no such file or directory'', s'))"
proof
  let ?i = "with_device (take 5 short_path @ [ForceDeleteRookCephOSDPods])"
  let ?s = "at_rest (disk_failed new_recovery) ?i"
  have wf: "wf_status (Status (inst ?s))"
    using reachable_wf [OF reach_force_delete sample_clock]
    by (simp add: at_rest_def with_device_def running_at_def)
  have v: "NewVersion sample ''v4.15'' = Inr [4, 15]" by code_simp
  then have created: "constants_created sample" "constants_created without_certificate"
    by (auto simp: constants_created_def without_certificate_def)
  have "(case fst (Reconcile (wired sample) ?s) of Panic _ \<Rightarrow> True | _ \<Rightarrow> False) = True"
    and ty: "current_type (Status (inst ?s)) = ForceDeleteRookCephOSDPods" by code_simp+
  then obtain p where "fst (Reconcile (wired sample) ?s) = Panic p"
    by (cases "fst (Reconcile (wired sample) ?s)") simp_all
  note run = run_fst [of "Reconcile (wired sample)", OF this]
  from panics_characterised [OF wf created(1) run] run ty
  show "\<exists>s'. Reconcile (wired sample) ?s = (Panic nilDeref, s')" by auto
  let ?u = "at_rest (healthy new_recovery) (running_at (take 8 short_path))"
  let ?m = "Reconcile (wired without_certificate)"
  have "Status (inst ?u) = Status (running_at (take 8 short_path))" by (simp add: at_rest_def)
  then have wf': "wf_status (Status (inst ?u))"
    using reachable_wf [OF reach_eighth sample_clock] by (simp add: running_at_def)
  have "(case fst (?m ?u) of Panic _ \<Rightarrow> True | _ \<Rightarrow> False) = True"
    and ty': "current_type (Status (inst ?u)) = StorageClusterFitnessCheck" by code_simp+
  then obtain p' where "fst (?m ?u) = Panic p'" by (cases "fst (?m ?u)") simp_all
  note run' = run_fst [of ?m, OF this]
  from panics_characterised [OF wf' created(2) run'] run' ty'
  show "\<exists>s'. ?m ?u = (Panic ''open ca.crt: no such file or directory'', s')"
    by (auto simp: without_certificate_def split: if_splits)
qed

text \<open>
  C33. The three nil pointers are met: handling a crashing pod without the claim's label panics
  before anything is scaled down; the count of terminating pods panics on a pod with the id of a
  failing OSD that is not being deleted; and the removal template panics on a template without
  the parameter of the failed OSDs.
\<close>

theorem nil_pointers_are_dereferenced:
  "(pod_Labels p (OSDOverPVCLabelKey (rc_Client r)) = None \<longrightarrow>
      handleCrashLoopBackOffPods r (p # ps) s = (Panic nilDeref, s)) \<and>
   (getOSDPodsWithID r osdID s = (Ok (q # qs), s1) \<longrightarrow> pod_DeletionTimestamp q = None \<longrightarrow>
      fst (count_terminating r n (osdID # ids) s) = Panic nilDeref) \<and>
   (fst (Get_Template (rc_Client r) (odf_name OCS_OSD_REMOVAL_JOB) (world s)) = Inr t \<longrightarrow>
      GetParameterByName (rc_Client r) t FAILED_OSD_IDS = None \<longrightarrow>
      fst (processOCSOSDRemovalTemplate r ids forced s) = Panic nilDeref)"
proof (intro conjI impI)
  show "handleCrashLoopBackOffPods r (p # ps) s = (Panic nilDeref, s)"
    if "pod_Labels p (OSDOverPVCLabelKey (rc_Client r)) = None"
    using that by (simp add: handleCrashLoopBackOffPods_def handle_crash_pod_def getNodeDeviceNameFromPV_def)
      (simp add: run_gopanic)
  show "fst (count_terminating r n (osdID # ids) s) = Panic nilDeref"
    if "getOSDPodsWithID r osdID s = (Ok (q # qs), s1)" "pod_DeletionTimestamp q = None"
    using that by (simp add: bind_def time_Now_def run_gopanic split: prod.splits)
  show "fst (processOCSOSDRemovalTemplate r ids forced s) = Panic nilDeref"
    if "fst (Get_Template (rc_Client r) (odf_name OCS_OSD_REMOVAL_JOB) (world s)) = Inr t"
      "GetParameterByName (rc_Client r) t FAILED_OSD_IDS = None"
    using that by (cases "Get_Template (rc_Client r) (odf_name OCS_OSD_REMOVAL_JOB) (world s)")
      (simp add: processOCSOSDRemovalTemplate_def Let_def bind_def [of "call _ _"] call_def run_gopanic)
qed

theorem nil_pointers_are_dereferenced_witness:
  "handleCrashLoopBackOffPods (wired sample) [tools_pod] (at_rest (healthy new_recovery) new_recovery) =
     (Panic nilDeref, at_rest (healthy new_recovery) new_recovery)"
  using nil_pointers_are_dereferenced [of tools_pod "wired sample" "[]" "at_rest (healthy new_recovery) new_recovery"]
  by (simp add: tools_pod_def wired_def sample_def)

end
