(* ===== verification/Justified_Writes.thy ===== *)
theory Justified_Writes
  imports Step_Properties
begin

text \<open>
  Why the operator changes what it changes. Every request that changes the cluster is traced back to what the API server has
  answered and to the devices that the recovery has recorded: which pods, volumes, jobs and deployments may be
  touched, and which fields of an object that is written back may differ from the object that was read.
\<close>

section \<open>The reasons\<close>

text \<open>What the API server has listed: the OSD pods, the pods that failed, the volumes of a node.\<close>

definition listed_osd_pod :: "('w, 'v) external \<Rightarrow> Pod \<Rightarrow> bool" where
  "listed_osd_pod c p \<longleftrightarrow>
     (\<exists>w pods. fst (List_Pod c (odf_list (match_labels [(''app'', ''rook-ceph-osd'')])) w) = Inr pods \<and> p \<in> set pods)"

definition listed_failed_pod :: "('w, 'v) external \<Rightarrow> Pod \<Rightarrow> bool" where
  "listed_failed_pod c p \<longleftrightarrow>
     (\<exists>w pods. fst (List_Pod c ((in_namespace ODF_NAMESPACE)\<lparr>lo_MatchingFields := [(podStatusPhaseFieldSelector, PodFailed)]\<rparr>) w) =
        Inr pods \<and> p \<in> set pods)"

definition listed_volume :: "('w, 'v) external \<Rightarrow> string \<Rightarrow> PersistentVolume \<Rightarrow> bool" where
  "listed_volume c node pv \<longleftrightarrow>
     (\<exists>w pvs. fst (List_PersistentVolume c ((in_namespace [])\<lparr>lo_LabelSelector :=
        Some (match_labels [(''kubernetes.io/hostname'', node)])\<rparr>) w) = Inr pvs \<and> pv \<in> set pvs)"

fun justified :: "('w, 'v) external \<Rightarrow> NodePV option list \<Rightarrow> effect \<Rightarrow> bool" where
  "justified c nds (UpdateNode n) \<longleftrightarrow>
     (\<exists>k w n0. fst (Get_Node c k w) = Inr n0 \<and> n = add_label (NodeAffinityKey c) n0)"
| "justified c nds (UpdateDeployment d) \<longleftrightarrow>
     (\<exists>p w ds d0. listed_osd_pod c p \<and> pod_failing p \<and>
        fst (List_Deployment c (odf_list (match_labels
          [(''app'', ''rook-ceph-osd''), (OsdIdLabelKey c, map_get (pod_Labels p) ''osd'')])) w) = Inr ds \<and>
        d0 \<in> set ds \<and> d = d0\<lparr>dep_Replicas := Some 0\<rparr>)"
| "justified c nds (UpdateStorageCluster sc) \<longleftrightarrow>
     (\<exists>w sc0 v. fst (Get_StorageCluster c (odf_name ''ocs-storagecluster'') w) = Inr sc0 \<and> sc = sc0\<lparr>sc_EnableCephTools := v\<rparr>)"
| "justified c nds (UpdateOCSInitialization i) \<longleftrightarrow>
     (\<exists>w i0 v. fst (Get_OCSInitialization c (odf_name ''ocsinit'') w) = Inr i0 \<and> i = i0\<lparr>oi_EnableCephTools := v\<rparr>)"
| "justified c nds (DeletePod p) \<longleftrightarrow> listed_failed_pod c p \<and> pod_Reason p = ReasonNodeAffinity c"
| "justified c nds (DeletePersistentVolume pv) \<longleftrightarrow>
     pv_Phase pv = VolumeReleased \<and>
     (\<exists>nd. Some nd \<in> set nds \<and> listed_volume c (nd_NodeName nd) pv \<and> pv_Name pv = nd_PersistentVolumeName nd)"
| "justified c nds (DeleteJob j) \<longleftrightarrow> (\<exists>w. fst (Get_Job c (odf_name ''ocs-osd-removal-job'') w) = Inr j)"
| "justified c nds (DeleteAllOfPods l grace) \<longleftrightarrow>
     l = odf_list job_pods \<and> grace = Some 0 \<or>
     l = odf_list operator_pods \<and> grace = None \<or>
     l = odf_list (osd_id_in c (map (nd_FailingOSDID \<circ> the) nds)) \<and> grace = Some 0 \<and> None \<notin> set nds"
| "justified c nds (CreateObject ob) \<longleftrightarrow> obj_Namespace ob = ODF_NAMESPACE"
| "justified c nds (ExecCall q) \<longleftrightarrow> ceph_command q"
| "justified c nds _ \<longleftrightarrow> True"

lemma reads_justified [simp]: "reads (justified c nds)"
  by (simp add: reads_def)

section \<open>Contracts that look at values\<close>

context preorder_contract
begin

lemma upholds_bind_value:
  assumes "upholds R m" and "\<And>x s s'. m s = (Ok x, s') \<Longrightarrow> upholds R (k x)"
  shows "upholds R (bind m k)"
  unfolding upholds_def
proof
  fix s
  obtain r s' where m: "m s = (r, s')" by fastforce
  with assms(1) have "R s s'" by (metis upholdsD)
  with m show "R s (snd (bind m k s))"
    using assms(2) trans_R by (cases r) (auto simp: bind_def upholds_def)
qed

lemma upholds_forM_in: "(\<And>x. x \<in> set xs \<Longrightarrow> upholds R (f x)) \<Longrightarrow> upholds R (forM f xs)"
  by (induction xs) (simp_all add: upholds_ret upholds_bind)

lemma upholds_foldM_in: "(\<And>b x. x \<in> set xs \<Longrightarrow> upholds R (f b x)) \<Longrightarrow> upholds R (foldM f a xs)"
  by (induction xs arbitrary: a) (simp_all add: upholds_ret upholds_bind)

end

section \<open>The operations\<close>

lemma justified_setEnableCephToolsValue: "footprint (justified (rc_Client r) nds) (setEnableCephToolsValue r v)"
proof -
  have "justified (rc_Client r) nds (UpdateOCSInitialization (i\<lparr>oi_EnableCephTools := v\<rparr>))"
    if "getOSCInitialization r s = (Ok i, s')" for i s s'
    using that by (auto simp: getOSCInitialization_def Let_def call_Ok) (metis fst_conv)
  moreover have "justified (rc_Client r) nds (UpdateStorageCluster (sc\<lparr>sc_EnableCephTools := v\<rparr>))"
    if "getStorageCluster r s = (Ok sc, s')" for sc s s'
    using that by (auto simp: getStorageCluster_def Let_def call_Ok) (metis fst_conv)
  ultimately show ?thesis
    unfolding setEnableCephToolsValue_def Let_def
    by (intro ceph_base fp.upholds_bind_value [of _ "getOSCInitialization r"] fp.upholds_bind_value [of _ "getStorageCluster r"]
        footprint_getOCPVersion footprint_getOSCInitialization footprint_getStorageCluster) (auto simp del: justified.simps(3,4))
qed

lemma justified_label_node: "footprint (justified c nds) (label_node c n errs)"
proof -
  have "justified c nds (UpdateNode (add_label (NodeAffinityKey c) nd))"
    if "attempt (call (GetCall KNode k) (Get_Node c k)) s = (Ok (Inr nd), s')" for k nd s s'
    using that by (auto simp: attempt_Ok call_Ok) (metis fst_conv)
  then show ?thesis
    unfolding label_node_def Let_def
    by (intro fp.upholds_bind_value [of _ "attempt (call (GetCall _ _) _)"])
      (auto intro!: ceph_base simp del: justified.simps(1) split: sum.split)
qed

lemma justified_labelNodes: "footprint (justified (rc_Client r) nds) (labelNodesWithPodsInPendingState r pods)"
  unfolding labelNodesWithPodsInPendingState_def Let_def
  by (intro ceph_base justified_label_node footprint_return_errs)

lemma justified_scale:
  assumes "listed_osd_pod (rc_Client r) p" and "pod_failing p"
  shows "footprint (justified (rc_Client r) nds) (scaleRookCephOSDDeploymentToZero r (map_get (pod_Labels p) ''osd''))"
proof -
  let ?sel = "match_labels [(''app'', ''rook-ceph-osd''), (OsdIdLabelKey (rc_Client r), map_get (pod_Labels p) ''osd'')]"
  have "justified (rc_Client r) nds (UpdateDeployment (d\<lparr>dep_Replicas := Some 0\<rparr>))"
    if "call (ListCall KDeployment (odf_list ?sel)) (List_Deployment (rc_Client r) (odf_list ?sel)) s = (Ok ds, s')" "d \<in> set ds" for d ds s s'
    using that assms by (auto simp: call_Ok) (metis fst_conv)
  then show ?thesis
    unfolding scaleRookCephOSDDeploymentToZero_def Let_def
    by (intro fp.upholds_bind_value [of _ "asSelector _ _"] fp.upholds_bind_value [of _ "call (ListCall _ _) _"] fp.upholds_forM_in ceph_base)
      (auto simp: asSelector_Ok simp del: justified.simps(2))
qed

lemma justified_handleCrashLoopBackOffPods:
  assumes "\<forall>p\<in>set pods. listed_osd_pod (rc_Client r) p \<and> pod_failing p"
  shows "footprint (justified (rc_Client r) nds) (handleCrashLoopBackOffPods r pods)"
proof -
  have "footprint (justified (rc_Client r) nds) (handle_crash_pod r acc p)"
    if p: "listed_osd_pod (rc_Client r) p" "pod_failing p" for acc p
    unfolding handle_crash_pod_def
  proof (rule fp.upholds_bind_value [OF footprint_getNodeDeviceNameFromPV])
    fix device s s'
    assume device: "getNodeDeviceNameFromPV r p s = (Ok device, s')"
    have "nd_FailingOSDID nd = map_get (pod_Labels p) ''osd''" if "device = Some nd" for nd
      using getNodeDevice_Ok [OF device [unfolded that]] by simp
    then show "footprint (justified (rc_Client r) nds) (bind (deref device) (\<lambda>nd.
        bind (scaleRookCephOSDDeploymentToZero r (nd_FailingOSDID nd)) (\<lambda>_. ret (acc @ [device]))))"
      using justified_scale [OF p, of nds] by (cases device) (simp_all add: fp.upholds_intros)
  qed simp
  with assms show ?thesis
    unfolding handleCrashLoopBackOffPods_def by (intro fp.upholds_bind fp.upholds_foldM_in fp.upholds_ret) blast
qed

lemma justified_deleteOldOSDRemovalJob: "footprint (justified (rc_Client r) nds) (deleteOldOSDRemovalJob r)"
proof -
  let ?k = "odf_name ''ocs-osd-removal-job''"
  have "justified (rc_Client r) nds (DeleteJob j)"
    if "attempt (call (GetCall KJob ?k) (Get_Job (rc_Client r) ?k)) s = (Ok (Inr j), s')" for j s s'
    using that by (auto simp: attempt_Ok call_Ok) (metis fst_conv)
  then show ?thesis
    unfolding deleteOldOSDRemovalJob_def Let_def
    by (intro fp.upholds_bind_value [of _ "attempt (call (GetCall _ _) _)"])
      (auto intro!: ceph_base simp: asSelector_def bind_assoc job_pods_def simp del: justified.simps(7) split: sum.split)
qed

lemma justified_processPVForNode:
  assumes "Some nd \<in> set nds" and "\<forall>pv\<in>set pvs. listed_volume (rc_Client r) (nd_NodeName nd) pv"
  shows "footprint (justified (rc_Client r) nds) (processPVForNode r nd pvs)"
  unfolding processPVForNode_def Let_def
proof (rule fp.upholds_foldM_in, goal_cases)
  case (1 errs pv)
  then show ?case
    by (cases "pv_Name pv = nd_PersistentVolumeName nd \<and> pv_Phase pv = VolumeReleased")
      (use assms in \<open>auto intro!: ceph_base exI [of _ nd]\<close>)
qed

lemma justified_deleteFailedPods: "footprint (justified (rc_Client r) nds) (deleteFailedPodsWithReasonNodeAffinity r)"
proof -
  have "justified (rc_Client r) nds (DeletePod p)"
    if "getPodsInFailedPhaseWithReasonNodeAffinity r s = (Ok pods, s')" "p \<in> set pods" for p pods s s'
    using that
    by (auto simp: getPodsInFailedPhaseWithReasonNodeAffinity_def listPods_def listed_failed_pod_def Let_def bind_eq_Ok ret_Ok call_Ok)
      (metis fst_conv)
  then show ?thesis
    unfolding deleteFailedPodsWithReasonNodeAffinity_def Let_def
    by (intro fp.upholds_bind_value [of _ "getPodsInFailedPhaseWithReasonNodeAffinity r"] fp.upholds_foldM_in ceph_base
        footprint_getPodsInFailedPhase footprint_return_errs) (auto simp del: justified.simps(5))
qed

section \<open>The steps\<close>

abbreviation acts_justified :: "('w, 'v) external \<Rightarrow> NodePV option list \<Rightarrow> ('w, 'a) go \<Rightarrow> bool" where
  "acts_justified c nds \<equiv> traces (justified c nds)"

lemmas justified_ops =
  justified_setEnableCephToolsValue [THEN footprint_traces] justified_labelNodes [THEN footprint_traces]
  justified_deleteOldOSDRemovalJob [THEN footprint_traces] justified_deleteFailedPods [THEN footprint_traces]

lemmas justified_traces = traces_intros cond_traces traces_fail traces_go_to traces_set_phase justified_ops
  footprint_isCephToolsEnabled [THEN footprint_traces] footprint_getCephToolsPodPhase [THEN footprint_traces]
  footprint_hasPods [THEN footprint_traces] footprint_getPodsInPendingPhase [THEN footprint_traces]
  footprint_getOSDPodsInOperational [THEN footprint_traces] footprint_getOSDIDsFromNodeDevices [THEN footprint_traces]
  footprint_getOSDPods [THEN footprint_traces] footprint_processOCSOSDRemovalTemplate [THEN footprint_traces]
  footprint_getOSDRemovalPod [THEN footprint_traces] footprint_getPVsForNode [THEN footprint_traces]
  footprint_countPVCs [THEN footprint_traces] footprint_deleteRookCephOperatorPod [THEN footprint_traces]
  footprint_IncrementFailedNodeCounter [THEN footprint_traces] footprint_IncrementCompletedOperandCounter [THEN footprint_traces]

lemma steps_justified:
  "acts_justified (rc_Client r) nds (step_EnableCephToolsPod r)"
  "acts_justified (rc_Client r) nds (step_WaitForCephToolsPodRunning r)"
  "acts_justified (rc_Client r) nds (step_WaitForOSDPodsStabilize r)"
  "acts_justified (rc_Client r) nds (step_LabelNodesWithPendingPods r)"
  "acts_justified (rc_Client r) nds (step_ProcessOCSRemovalTemplate r)"
  "acts_justified (rc_Client r) nds (step_RestartStorageOperator r)"
  "acts_justified (rc_Client r) nds (step_DeleteFailedPodsNodeAffinity r)"
  "acts_justified (rc_Client r) nds (step_DisableCephTools r)"
  "acts_justified (rc_Client r) nds (complete_recovery r)"
  "acts_justified (rc_Client r) nds (time_out latest)"
  unfolding step_EnableCephToolsPod_def step_WaitForCephToolsPodRunning_def step_WaitForOSDPodsStabilize_def
    step_LabelNodesWithPendingPods_def step_ProcessOCSRemovalTemplate_def step_RestartStorageOperator_def
    step_DeleteFailedPodsNodeAffinity_def step_DisableCephTools_def complete_recovery_def time_out_def
    enableCephTools_def disableCephTools_def
  by (auto intro!: justified_traces simp: operator_pods_def)

lemma crash_step_justified: "acts_justified (rc_Client r) nds (step_ManageCrashLoopBackOffPods r)"
  unfolding step_ManageCrashLoopBackOffPods_def
proof (rule tr.upholds_bind_value, goal_cases)
  case 1
  then show ?case by (auto intro!: justified_traces)
next
  case (2 pods s s')
  then have "getOSDPodsInOperationalAndFailingStatus r s = (Ok pods, s')"
    by (auto simp: onErr_def fail_with_def set_reason_def bind_def [of "modify_status _"] run_modify_status run_throw
        split: prod.splits result.splits)
  then obtain all where all: "getOSDPods r s = (Ok all, s')" and "snd pods = filter pod_failing all"
    by (auto simp: getOSDPodsInOperationalAndFailingStatus_def bind_eq_Ok ret_Ok fold_partition)
  moreover have "listed_osd_pod (rc_Client r) p" if "p \<in> set all" for p
    using all that
    by (auto simp: getOSDPods_def Let_def bind_eq_Ok asSelector_Ok listPods_def call_Ok listed_osd_pod_def) (metis fst_conv)
  ultimately have "\<forall>p\<in>set (snd pods). listed_osd_pod (rc_Client r) p \<and> pod_failing p" by simp
  then show ?case
    by (cases pods) (auto intro!: justified_traces justified_handleCrashLoopBackOffPods [THEN footprint_traces])
qed

text \<open>The two steps that act on the recorded devices.\<close>

lemma getOSDIDs_Ok:
  assumes "getOSDIDsFromNodeDevices nds s = (Ok ids, s')"
  shows "None \<notin> set nds" and "ids = map (nd_FailingOSDID \<circ> the) nds"
proof -
  have "None \<notin> set nds" if "foldM (\<lambda>r p. bind (deref p) (\<lambda>nd. ret (r @ [nd_FailingOSDID nd]))) acc nds s = (Ok ids, s')" for acc
    using that
  proof (induction nds arbitrary: acc)
    case (Cons p nds)
    then show ?case by (cases p) (auto simp: run_gopanic)
  qed simp
  then show none: "None \<notin> set nds" using assms by (simp add: getOSDIDsFromNodeDevices_def)
  show "ids = map (nd_FailingOSDID \<circ> the) nds" using getOSDIDs_run [OF none, of s] assms by simp
qed

lemma force_step_justified:
  "grows (justified (rc_Client r) (NodeDevice (Status (inst s)))) s (snd (step_ForceDeleteRookCephOSDPods r s))"
proof -
  let ?nds = "NodeDevice (Status (inst s))"
  have delete: "acts_justified (rc_Client r) ?nds (forceDeleteRookCephOSDPods r ids)"
    if "getOSDIDsFromNodeDevices ?nds t = (Ok ids, t')" for ids t t'
    by (rule footprint_forceDeleteRookCephOSDPods [THEN footprint_traces]) (use getOSDIDs_Ok [OF that] in simp)
  have "acts_justified (rc_Client r) ?nds (bind (getOSDIDsFromNodeDevices ?nds) (\<lambda>ids.
       bind (count_terminating r 0 ids) (\<lambda>counted.
       case counted of
         None \<Rightarrow> ret (requeue_after (15 * Second))
       | Some c \<Rightarrow>
           (if 0 < c then
              bind (forceDeleteRookCephOSDPods r ids) (\<lambda>_.
              go_to r ForceDeleteRookCephOSDPods requeue)
            else go_to r ProcessOCSRemovalTemplate requeue))))"
    by (rule tr.upholds_bind_value) (auto intro!: justified_traces traces_count_terminating delete)
  then show ?thesis
    using traces_go_to [of "justified (rc_Client r) ?nds" r]
    by (simp add: step_ForceDeleteRookCephOSDPods_def bind_get_status upholds_def)
qed

lemma volume_step_justified:
  "grows (justified (rc_Client r) (NodeDevice (Status (inst s)))) s (snd (step_WaitForPersistenVolumeBound r s))"
proof -
  let ?nds = "NodeDevice (Status (inst s))"
  have device: "acts_justified (rc_Client r) ?nds (bind (deref p) (\<lambda>nd.
             bind (getPVsForNode r (nd_NodeName nd)) (\<lambda>pvs.
             bind (processPVForNode r nd pvs) (\<lambda>err.
             ret (errors_Join [errs, err])))))" if "p \<in> set ?nds" for errs p
  proof (cases p)
    case (Some nd)
    with that have nd: "Some nd \<in> set ?nds" by simp
    have "\<forall>pv\<in>set pvs. listed_volume (rc_Client r) (nd_NodeName nd) pv"
      if "getPVsForNode r (nd_NodeName nd) s = (Ok pvs, s')" for pvs s s'
      using that
      by (auto simp: getPVsForNode_def Let_def bind_eq_Ok asSelector_Ok call_Ok listed_volume_def) (metis fst_conv)
    then have "acts_justified (rc_Client r) ?nds (bind (getPVsForNode r (nd_NodeName nd)) (\<lambda>pvs.
             bind (processPVForNode r nd pvs) (\<lambda>err. ret (errors_Join [errs, err]))))"
      by (intro tr.upholds_bind_value [of _ "getPVsForNode r (nd_NodeName nd)"])
        (auto intro!: justified_traces justified_processPVForNode [OF nd, THEN footprint_traces])
    with Some show ?thesis by simp
  qed (simp add: tr.upholds_gopanic)
  show ?thesis
    unfolding step_WaitForPersistenVolumeBound_def bind_get_status Let_def
    by (rule upholds_def [THEN iffD1, rule_format])
      (intro tr.upholds_bind [of _ "foldM _ _ _"] tr.upholds_foldM_in device; auto intro!: justified_traces)
qed

context recoverer_env
begin

lemma justified_finish_removal_job: "acts_justified (rc_Client r) nds (finish_removal_job r pod)"
  unfolding finish_removal_job_def
  by (auto intro!: justified_traces footprint_validateJobLogs [THEN footprint_traces])

lemma job_steps_justified:
  "acts_justified (rc_Client r) nds (step_CleanupOSDRemovalJob r latest)"
  "acts_justified (rc_Client r) nds (step_RetryForceCleanupOSDRemovalJob r latest)"
  "acts_justified (rc_Client r) nds (step_StorageClusterFitnessCheck r)"
  unfolding step_CleanupOSDRemovalJob_def step_RetryForceCleanupOSDRemovalJob_def step_StorageClusterFitnessCheck_def
  by (auto intro!: justified_traces justified_finish_removal_job footprint_getCephHealthStatus [THEN footprint_traces]
      footprint_archiveCephDaemonCrashMessages [THEN footprint_traces])

lemma run_step_justified:
  "grows (justified (rc_Client r) (NodeDevice (Status (inst s)))) s (snd (run_step r latest s))"
proof -
  let ?nds = "NodeDevice (Status (inst s))"
  have acts: "grows (justified (rc_Client r) ?nds) s (snd (m s))" if "acts_justified (rc_Client r) ?nds m" for m :: "('w, Result) go"
    using that by (simp add: upholds_def)
  show ?thesis
    by (cases "cond_Type latest")
      (simp_all add: run_step_def acts steps_justified crash_step_justified job_steps_justified tr.upholds_bind
        force_step_justified volume_step_justified)
qed

lemma Reconcile_justified:
  "grows (justified (rc_Client r) (NodeDevice (Status (inst s)))) s (snd (Reconcile r s))"
proof (cases "Conditions (Status (inst s)) = []")
  case True
  then show ?thesis by (simp add: Reconcile_def getLatestCondition_def bind_get_status bind_def run_get_status run_gopanic tr.refl_R)
next
  case False
  obtain t1 w1 t2 w2 where now: "Now (rc_Client r) (world s) = (t1, w1)" "Now (rc_Client r) w1 = (t2, w2)" by fastforce
  let ?u = "s\<lparr>inst := (inst s)\<lparr>Status := probed t1 (Status (inst s))\<rparr>, world := w2\<rparr>"
  have u: "NodeDevice (Status (inst ?u)) = NodeDevice (Status (inst s))" "trace ?u = trace s" by (simp_all add: probed_def)
  have "grows (justified (rc_Client r) (NodeDevice (Status (inst s)))) ?u (snd (time_out latest ?u))" for latest
    using steps_justified(10) [of r _ latest] by (simp add: upholds_def)
  with run_step_justified [of ?u] u show ?thesis
    unfolding Reconcile_run [OF False now] by (simp add: grows_def)
qed

end

section \<open>Runs\<close>

text \<open>
  C11. Every request of a run that changes the cluster has its reason. A pod is deleted only if the API server listed it among the
  failed pods and it failed for its node affinity, a volume only if it was listed for the node of a recorded device, is released and
  is the volume recorded for that device, a job only if it is the old removal
  job; pods are deleted by selector only if they are those of the job, of the storage operator or of the recorded OSDs. A
  deployment is scaled to zero only if it was listed for the OSD of a pod that was itself listed among the OSD pods and that
  fails; a node gets no change but the label, the storage
  configuration none but the flag of the tools; objects are created only in the storage namespace, and the commands are
  the two of \<open>ceph_command\<close>.
\<close>

theorem writes_justified:
  assumes "Get_NodeRecovery c req (world s) = (Inr i, w)"
    and "controller_Reconcile (wired_controller c) req s = (out, s')"
  shows "\<exists>es. trace s' = trace s @ es \<and> list_all (justified c (NodeDevice (Status i))) es"
proof -
  have "grows (justified c (NodeDevice (Status i))) s1 (snd (Reconcile (wired c) s1))"
    if "NodeDevice (Status (inst s1)) = NodeDevice (Status i)" for s1
    using wr.Reconcile_justified [of c s1] that by simp
  with assms(1) have "grows (justified c (NodeDevice (Status i))) s s'"
    by (intro controller_traces [OF assms(2)]) simp_all
  then show ?thesis by (simp add: grows_def)
qed

text \<open>A stuck OSD pod of the recorded device is deleted by force.\<close>

definition one_stuck_pod :: "NodeRecovery \<Rightarrow> cluster" where
  "one_stuck_pod i = (healthy i)\<lparr>cl_pods := [(osd_pod ''2'' [])\<lparr>pod_DeletionTimestamp := Some (900 * Second)\<rparr>]\<rparr>"

theorem writes_justified_witness:
  "list_all (justified sample [Some device_2]) (trace (snd (run_in one_stuck_pod (with_device [ForceDeleteRookCephOSDPods])))) \<and>
   length (filter is_write (trace (snd (run_in one_stuck_pod (with_device [ForceDeleteRookCephOSDPods]))))) = 2"
proof
  let ?i = "with_device [ForceDeleteRookCephOSDPods]"
  have "cl_recoveries (one_stuck_pod ?i) = [?i]" "nr_Name ?i = ''rec''"
    by (simp_all add: one_stuck_pod_def with_device_def)
  from writes_justified [OF sample_get [of one_stuck_pod, OF this] surjective_pairing]
  show "list_all (justified sample [Some device_2]) (trace (snd (run_in one_stuck_pod ?i)))"
    by (auto simp: run_in_def with_device_def)
  show "length (filter is_write (trace (snd (run_in one_stuck_pod ?i)))) = 2" by code_simp
qed

end
