(* ===== verification/Api_Group.thy ===== *)
theory Api_Group
  imports Go_Stdlib
begin

text \<open>
  The API group of the operator: \<open>src/api/v1alpha1/groupversion_info.go\<close> and the registration in
  \<open>noderecovery_types.go\<close>. A scheme is the library's, and so is the \<open>scheme.Builder\<close>: what adding the
  types that were registered with a builder does to a scheme is the parameter \<open>build\<close>.
\<close>

record GroupVersion =
  gv_Group :: string
  gv_Version :: string

record GroupResource =
  gr_Group :: string
  gr_Resource :: string

record GroupVersionResource =
  gvr_Group :: string
  gvr_Version :: string
  gvr_Resource :: string

definition SchemeGroupVersion :: GroupVersion where
  "SchemeGroupVersion = \<lparr>gv_Group = ''odf.openshift.io'', gv_Version = ''v1alpha1''\<rparr>"

text \<open>\<open>SchemeGroupVersion.WithResource(resource).GroupResource()\<close>.\<close>

definition WithResource :: "GroupVersion \<Rightarrow> string \<Rightarrow> GroupVersionResource" where
  "WithResource gv r = \<lparr>gvr_Group = gv_Group gv, gvr_Version = gv_Version gv, gvr_Resource = r\<rparr>"

definition Resource :: "string \<Rightarrow> GroupResource" where
  "Resource r =
     (let gvr = WithResource SchemeGroupVersion r
      in \<lparr>gr_Group = gvr_Group gvr, gr_Resource = gvr_Resource gvr\<rparr>)"

text \<open>\<open>SchemeBuilder.Register\<close> in the \<open>init\<close> of the types, and \<open>AddToScheme\<close>.\<close>

definition registered_types :: "string list" where
  "registered_types = [''NodeRecovery'', ''NodeRecoveryList'']"

definition AddToScheme ::
  "(GroupVersion \<Rightarrow> string list \<Rightarrow> ('sch, go_error, unit) comp) \<Rightarrow> ('sch, go_error, unit) comp" where
  "AddToScheme build = build SchemeGroupVersion registered_types"

end
