(* ===== verification/Go_Slice.thy ===== *)
theory Go_Slice
  imports Go_Stdlib
begin

text \<open>
  Go slices at their representation, for the code whose behaviour depends on what two slices
  share: a heap of arrays, a slice as an array with a length and a capacity, and \<open>append\<close> of
  one element, which writes into the array it is given while there is room. How much room a
  new array has is left to the run-time system (\<open>grow\<close>); \<open>z\<close> is the zero value.
\<close>

record slice =
  sl_array :: nat
  sl_len :: nat
  sl_cap :: nat

definition nil_slice :: slice where
  "nil_slice = \<lparr>sl_array = 0, sl_len = 0, sl_cap = 0\<rparr>"

definition elems :: "'a list list \<Rightarrow> slice \<Rightarrow> 'a list" where
  "elems h s = (if sl_len s = 0 then [] else take (sl_len s) (h ! sl_array s))"

definition append1 :: "(nat \<Rightarrow> nat \<Rightarrow> nat) \<Rightarrow> 'a \<Rightarrow> 'a list list \<Rightarrow> slice \<Rightarrow> 'a \<Rightarrow> slice \<times> 'a list list" where
  "append1 grow z h s x =
     (if sl_len s < sl_cap s then
        (s\<lparr>sl_len := sl_len s + 1\<rparr>, h[sl_array s := (h ! sl_array s)[sl_len s := x]])
      else
        (let n = max (grow (sl_cap s) (sl_len s + 1)) (sl_len s + 1)
         in (\<lparr>sl_array = length h, sl_len = sl_len s + 1, sl_cap = n\<rparr>,
             h @ [elems h s @ x # replicate (n - (sl_len s + 1)) z])))"

text \<open>A slice of a heap: its array is allocated and has its capacity.\<close>

definition slice_ok :: "'a list list \<Rightarrow> slice \<Rightarrow> bool" where
  "slice_ok h s \<longleftrightarrow>
     sl_len s \<le> sl_cap s \<and> (sl_cap s = 0 \<or> sl_array s < length h \<and> length (h ! sl_array s) = sl_cap s)"

lemma slice_ok_nil [simp]: "slice_ok h nil_slice"
  by (simp add: slice_ok_def nil_slice_def)

lemma elems_nil [simp]: "elems h nil_slice = []"
  by (simp add: elems_def nil_slice_def)

lemma length_elems: "slice_ok h s \<Longrightarrow> length (elems h s) = sl_len s"
  by (auto simp: elems_def slice_ok_def)

lemma append1_ok:
  assumes "slice_ok h s" and "append1 grow z h s x = (s', h')"
  shows "slice_ok h' s'"
  using assms length_elems [OF assms(1)]
  by (auto simp: append1_def slice_ok_def Let_def max_def split: if_splits)

lemma append1_elems:
  assumes "slice_ok h s" and "append1 grow z h s x = (s', h')"
  shows "elems h' s' = elems h s @ [x]"
proof (cases "sl_len s < sl_cap s")
  case True
  with assms have "s' = s\<lparr>sl_len := sl_len s + 1\<rparr>" "h' = h[sl_array s := (h ! sl_array s)[sl_len s := x]]"
    "sl_array s < length h" "length (h ! sl_array s) = sl_cap s"
    by (auto simp: append1_def slice_ok_def)
  with True show ?thesis by (simp add: elems_def take_Suc_conv_app_nth)
next
  case False
  with assms length_elems [OF assms(1)] show ?thesis
    by (auto simp: append1_def Let_def elems_def)
qed

text \<open>An append leaves another slice alone unless both share the room it writes into.\<close>

lemma append1_frame:
  assumes "slice_ok h t" and "append1 grow z h s x = (s', h')"
    and "sl_cap s \<le> sl_len s \<or> sl_array t \<noteq> sl_array s \<or> sl_len t \<le> sl_len s"
  shows "slice_ok h' t" and "elems h' t = elems h t"
proof -
  show "slice_ok h' t"
    using assms by (cases "sl_array t = sl_array s") (auto simp: append1_def slice_ok_def Let_def nth_append split: if_splits)
  show "elems h' t = elems h t"
    using assms by (cases "sl_array t = sl_array s")
      (auto simp: append1_def elems_def slice_ok_def Let_def nth_append split: if_splits)
qed

text \<open>With room to share, a second append to the same slice replaces the element of the first.\<close>

lemma append1_overwrites:
  assumes "slice_ok h s" and "sl_len s < sl_cap s"
    and "append1 grow z h s x = (t, h1)" and "append1 grow z h1 s y = (u, h2)"
  shows "elems h2 t = elems h s @ [y]"
proof -
  from assms have t: "t = u" by (auto simp: append1_def)
  have "slice_ok h1 s"
    using append1_frame [OF assms(1) assms(3)] by simp
  moreover have "elems h1 s = elems h s"
    using append1_frame [OF assms(1) assms(3)] by simp
  ultimately show ?thesis using append1_elems [OF _ assms(4)] t by simp
qed

end
