(* ===== verification/Operator_Main.thy ===== *)
theory Operator_Main
  imports Controller Monitoring Api_Group Go_Slice
begin

text \<open>
  The program, \<open>src/cmd/main.go\<close>: the command line, the TLS options of the two servers, the manager
  and its start. The manager, the certificate watchers and the schemes are the libraries':
  they are fields of the record \<open>main_lib\<close>. An \<open>os.Exit(n)\<close> is the outcome \<open>Err n\<close>.

  The TLS options are slices of the heap (\<open>Go_Slice\<close>), since the two servers build theirs from
  one common slice.
\<close>

section \<open>The command line\<close>

record flags =
  metricsAddr :: string
  probeAddr :: string
  enableLeaderElection :: bool
  secureMetrics :: bool
  webhookCertPath :: string
  webhookCertName :: string
  webhookCertKey :: string
  metricsCertPath :: string
  metricsCertName :: string
  metricsCertKey :: string
  enableHTTP2 :: bool

definition default_flags :: flags where
  "default_flags =
     \<lparr>metricsAddr = ''0'', probeAddr = '':8081'', enableLeaderElection = False, secureMetrics = True,
      webhookCertPath = [], webhookCertName = ''tls.crt'', webhookCertKey = ''tls.key'',
      metricsCertPath = [], metricsCertName = ''tls.crt'', metricsCertKey = ''tls.key'', enableHTTP2 = False\<rparr>"

text \<open>A flag of the operator is a string or a boolean variable.\<close>

datatype flag_var = StringVar "string \<Rightarrow> flags \<Rightarrow> flags" | BoolVar "bool \<Rightarrow> flags \<Rightarrow> flags"

definition flag_set :: "(string \<times> flag_var) list" where
  "flag_set =
     [(''metrics-bind-address'', StringVar (\<lambda>v f. f\<lparr>metricsAddr := v\<rparr>)),
      (''health-probe-bind-address'', StringVar (\<lambda>v f. f\<lparr>probeAddr := v\<rparr>)),
      (''leader-elect'', BoolVar (\<lambda>v f. f\<lparr>enableLeaderElection := v\<rparr>)),
      (''metrics-secure'', BoolVar (\<lambda>v f. f\<lparr>secureMetrics := v\<rparr>)),
      (''webhook-cert-path'', StringVar (\<lambda>v f. f\<lparr>webhookCertPath := v\<rparr>)),
      (''webhook-cert-name'', StringVar (\<lambda>v f. f\<lparr>webhookCertName := v\<rparr>)),
      (''webhook-cert-key'', StringVar (\<lambda>v f. f\<lparr>webhookCertKey := v\<rparr>)),
      (''metrics-cert-path'', StringVar (\<lambda>v f. f\<lparr>metricsCertPath := v\<rparr>)),
      (''metrics-cert-name'', StringVar (\<lambda>v f. f\<lparr>metricsCertName := v\<rparr>)),
      (''metrics-cert-key'', StringVar (\<lambda>v f. f\<lparr>metricsCertKey := v\<rparr>)),
      (''enable-http2'', BoolVar (\<lambda>v f. f\<lparr>enableHTTP2 := v\<rparr>))]"

definition ParseBool :: "string \<Rightarrow> bool option" where
  "ParseBool s =
     (if s \<in> {''1'', ''t'', ''T'', ''TRUE'', ''true'', ''True''} then Some True
      else if s \<in> {''0'', ''f'', ''F'', ''FALSE'', ''false'', ''False''} then Some False
      else None)"

text \<open>
  \<open>flag.Parse\<close> of the command line flag set, which exits with 2 on a bad argument and with 0
  after printing the usage. The flags that the libraries add are given by \<open>lib\<close>: whether such a
  flag is boolean, and whether it accepts a value.
\<close>

record lib_flags =
  lib_is_bool :: "string \<Rightarrow> bool option"
  lib_accepts :: "string \<Rightarrow> string \<Rightarrow> bool"

fun cut_at :: "char \<Rightarrow> string \<Rightarrow> string \<times> string option" where
  "cut_at c [] = ([], None)"
| "cut_at c (x # xs) = (if x = c then ([], Some xs) else (case cut_at c xs of (a, b) \<Rightarrow> (x # a, b)))"

text \<open>The first character of a name is never taken for the sign before the value.\<close>

definition split_name :: "string \<Rightarrow> string \<times> string option" where
  "split_name s = (case s of [] \<Rightarrow> ([], None) | x # xs \<Rightarrow> (case cut_at (CHR ''='') xs of (a, b) \<Rightarrow> (x # a, b)))"

definition set_flag :: "lib_flags \<Rightarrow> string \<Rightarrow> string \<Rightarrow> flags \<Rightarrow> flags option" where
  "set_flag lib name v f =
     (case map_of flag_set name of
        Some (StringVar upd) \<Rightarrow> Some (upd v f)
      | Some (BoolVar upd) \<Rightarrow> map_option (\<lambda>b. upd b f) (ParseBool v)
      | None \<Rightarrow> if lib_accepts lib name v then Some f else None)"

definition is_bool_flag :: "lib_flags \<Rightarrow> string \<Rightarrow> bool option" where
  "is_bool_flag lib name =
     (case map_of flag_set name of
        Some (StringVar _) \<Rightarrow> Some False
      | Some (BoolVar _) \<Rightarrow> Some True
      | None \<Rightarrow> lib_is_bool lib name)"

datatype arg_kind = NotAFlag | Terminator | BadSyntax | FlagArg string "string option"

definition arg_kind :: "string \<Rightarrow> arg_kind" where
  "arg_kind s =
     (if length s < 2 \<or> hd s \<noteq> CHR ''-'' then NotAFlag
      else if s = ''--'' then Terminator
      else
        (let name = (if s ! 1 = CHR ''-'' then drop 2 s else drop 1 s) in
         if name = [] \<or> hd name = CHR ''-'' \<or> hd name = CHR ''='' then BadSyntax
         else (case split_name name of (n, v) \<Rightarrow> FlagArg n v)))"

text \<open>The value is the exit code, or the flags.\<close>

fun flag_Parse :: "lib_flags \<Rightarrow> string list \<Rightarrow> flags \<Rightarrow> nat + flags" where
  "flag_Parse lib [] f = Inr f"
| "flag_Parse lib (s # args) f =
     (case arg_kind s of
        NotAFlag \<Rightarrow> Inr f
      | Terminator \<Rightarrow> Inr f
      | BadSyntax \<Rightarrow> Inl 2
      | FlagArg name val \<Rightarrow>
          (case is_bool_flag lib name of
             None \<Rightarrow> Inl (if name = ''help'' \<or> name = ''h'' then 0 else 2)
           | Some True \<Rightarrow>
               (case set_flag lib name (case val of None \<Rightarrow> ''true'' | Some v \<Rightarrow> v) f of
                  None \<Rightarrow> Inl 2
                | Some f' \<Rightarrow> flag_Parse lib args f')
           | Some False \<Rightarrow>
               (case (val, args) of
                  (Some v, _) \<Rightarrow>
                    (case set_flag lib name v f of None \<Rightarrow> Inl 2 | Some f' \<Rightarrow> flag_Parse lib args f')
                | (None, v # args') \<Rightarrow>
                    (case set_flag lib name v f of None \<Rightarrow> Inl 2 | Some f' \<Rightarrow> flag_Parse lib args' f')
                | (None, []) \<Rightarrow> Inl 2)))"

section \<open>filepath.Join\<close>

fun clean_step :: "bool \<Rightarrow> string list \<Rightarrow> string \<Rightarrow> string list" where
  "clean_step rooted stack elem =
     (if elem = [] \<or> elem = ''.'' then stack
      else if elem = ''..'' then
        (case stack of
           [] \<Rightarrow> if rooted then [] else [elem]
         | x # below \<Rightarrow> if x = ''..'' then elem # stack else below)
      else elem # stack)"

definition filepath_Clean :: "string \<Rightarrow> string" where
  "filepath_Clean path =
     (let rooted = (path \<noteq> [] \<and> hd path = CHR ''/'');
          out = strings_Join (rev (foldl (clean_step rooted) [] (strings_Split path (CHR ''/'')))) ''/''
      in if rooted then CHR ''/'' # out else if out = [] then ''.'' else out)"

definition filepath_Join :: "string list \<Rightarrow> string" where
  "filepath_Join elem =
     (let es = filter (\<lambda>e. e \<noteq> []) elem
      in if es = [] then [] else filepath_Clean (strings_Join es ''/''))"

section \<open>TLS options and manager options\<close>

text \<open>
  A certificate watcher is known by its two files. \<open>DisableHTTP2\<close> is the function
  \<open>disableHTTP2\<close>, \<open>UseCertificate\<close> the closures that take the certificate of a watcher;
  \<open>tls_func\<close> is what they do to a configuration. The element \<open>None\<close> of an array is the nil
  function.
\<close>

datatype cert_watcher = CertWatcher string string

datatype tls_opt = DisableHTTP2 | UseCertificate cert_watcher

record tls_config =
  NextProtos :: "string list"
  GetCertificate :: "cert_watcher option"

fun tls_func :: "tls_opt \<Rightarrow> tls_config \<Rightarrow> tls_config" where
  "tls_func DisableHTTP2 c = c\<lparr>NextProtos := [''http/1.1'']\<rparr>"
| "tls_func (UseCertificate w) c = c\<lparr>GetCertificate := Some w\<rparr>"

record metrics_options =
  mo_BindAddress :: string
  mo_SecureServing :: bool
  mo_TLSOpts :: slice
  mo_FilterProvider :: "string option"

record manager_options =
  op_Metrics :: metrics_options
  op_WebhookTLSOpts :: slice
  op_HealthProbeBindAddress :: string
  op_LeaderElection :: bool
  op_LeaderElectionID :: string

section \<open>The libraries and the state of the program\<close>

datatype api_group = ClientGoScheme | OcsV1 | BatchV1 | CoreV1 | AppsV1 | TemplateV1 | ConfigV1

datatype main_call =
    NewCertWatcher string string
  | GetConfigOrDie
  | NewManagerCall manager_options
  | AddToSchemeCall
  | NewClientsetCall
  | SetupCall
  | AddCall cert_watcher
  | HealthzCall string
  | ReadyzCall string
  | RegisterMetricsCall
  | StartCall

text \<open>
  \<open>'m\<close> is the world of the manager and of the files, \<open>'sch\<close> a scheme, \<open>'r\<close> a metrics registry;
  \<open>external_of\<close> is the outside of the controller (the manager's client, the executor, the log
  client) that a configuration gives.
\<close>

record ('m, 'cfg, 'sch, 'r, 'w, 'v) main_lib =
  bound_flags :: lib_flags
  grow :: "nat \<Rightarrow> nat \<Rightarrow> nat"
  certwatcher_New :: "string \<Rightarrow> string \<Rightarrow> 'm \<Rightarrow> (go_error + unit) \<times> 'm"
  GetConfig :: "'m \<Rightarrow> (go_error + 'cfg) \<times> 'm"
  NewManager :: "'cfg \<Rightarrow> manager_options \<Rightarrow> 'm \<Rightarrow> (go_error + unit) \<times> 'm"
  lib_AddToScheme :: "api_group \<Rightarrow> ('sch, go_error, unit) comp"
  build_scheme :: "GroupVersion \<Rightarrow> string list \<Rightarrow> ('sch, go_error, unit) comp"
  SchemeBuilder_AddToScheme :: "('sch, go_error, unit) comp list \<Rightarrow> ('sch, go_error, unit) comp"
  external_of :: "'cfg \<Rightarrow> ('w, 'v) external"
  clientset_NewForConfig :: "'cfg \<Rightarrow> 'm \<Rightarrow> go_error + unit"
  the_manager :: "('m, 'w) manager"
  Add :: "cert_watcher \<Rightarrow> 'm \<Rightarrow> (go_error + unit) \<times> 'm"
  AddHealthzCheck :: "string \<Rightarrow> 'm \<Rightarrow> (go_error + unit) \<times> 'm"
  AddReadyzCheck :: "string \<Rightarrow> 'm \<Rightarrow> (go_error + unit) \<times> 'm"
  new_registry :: 'r
  register :: "collector \<Rightarrow> 'r \<Rightarrow> go_error + 'r"
  Start :: "'m \<Rightarrow> (go_error + unit) \<times> 'm"

record ('m, 'sch, 'r) main_state =
  ms_world :: 'm
  ms_scheme :: 'sch
  ms_registry :: 'r
  ms_heap :: "tls_opt option list list"
  ms_calls :: "main_call list"
  ms_failed :: "main_call list"

text \<open>
  \<open>ms_calls\<close> are the calls that were made and \<open>ms_failed\<close> those of them that returned an error or panicked, each in order.
\<close>

definition log_call :: "main_call \<Rightarrow> bool \<Rightarrow> ('m, 'sch, 'r) main_state \<Rightarrow> ('m, 'sch, 'r) main_state" where
  "log_call e ok s = s\<lparr>ms_calls := ms_calls s @ [e], ms_failed := (if ok then ms_failed s else ms_failed s @ [e])\<rparr>"

type_synonym ('m, 'sch, 'r, 'a) prog = "(('m, 'sch, 'r) main_state, nat, 'a) comp"

text \<open>
  A library call whose error ends the program with \<open>os.Exit(1)\<close>; \<open>ctrl.GetConfigOrDie\<close> exits
  by itself in that case.
\<close>

definition or_exit ::
  "main_call \<Rightarrow> ('m \<Rightarrow> (go_error + 'a) \<times> 'm) \<Rightarrow> ('m, 'sch, 'r, 'a) prog" where
  "or_exit e f s =
     (case f (ms_world s) of (r, w) \<Rightarrow>
        (case r of Inl _ \<Rightarrow> Err 1 | Inr x \<Rightarrow> Ok x, log_call e (\<not> isl r) (s\<lparr>ms_world := w\<rparr>)))"

text \<open>Computations on the scheme and on the registry; an error is handed to \<open>h\<close>.\<close>

definition on_scheme ::
  "('sch, go_error, unit) comp \<Rightarrow> (go_error \<Rightarrow> ('m, 'sch, 'r, unit) prog) \<Rightarrow> ('m, 'sch, 'r, unit) prog" where
  "on_scheme m h s =
     (case m (ms_scheme s) of (r, sch) \<Rightarrow>
        (let s' = log_call AddToSchemeCall (r = Ok ()) (s\<lparr>ms_scheme := sch\<rparr>)
         in case r of Ok _ \<Rightarrow> (Ok (), s') | Err e \<Rightarrow> h e s' | Panic p \<Rightarrow> (Panic p, s')))"

definition on_registry :: "('r, go_error, unit) comp \<Rightarrow> ('m, 'sch, 'r, unit) prog" where
  "on_registry m s =
     (case m (ms_registry s) of (r, reg) \<Rightarrow>
        (case r of
           Panic p \<Rightarrow> (Panic p, log_call RegisterMetricsCall False (s\<lparr>ms_registry := reg\<rparr>))
         | _ \<Rightarrow> (Ok (), log_call RegisterMetricsCall True (s\<lparr>ms_registry := reg\<rparr>))))"

text \<open>A constructor of the program itself that builds a client set, and panics when that fails.\<close>

definition or_panic ::
  "main_call \<Rightarrow> ('m, 'sch, 'r, 'a) prog \<Rightarrow> ('m, 'sch, 'r, 'a) prog" where
  "or_panic e m s =
     (case m s of
        (Ok x, s') \<Rightarrow> (Ok x, log_call e True s')
      | (Err n, s') \<Rightarrow> (Err n, log_call e False s')
      | (Panic p, s') \<Rightarrow> (Panic p, log_call e False s'))"

definition append_opt ::
  "('m, 'cfg, 'sch, 'r, 'w, 'v) main_lib \<Rightarrow> slice \<Rightarrow> tls_opt \<Rightarrow> ('m, 'sch, 'r, slice) prog" where
  "append_opt lib s x st =
     (case append1 (grow lib) None (ms_heap st) s (Some x) of (s', h) \<Rightarrow> (Ok s', st\<lparr>ms_heap := h\<rparr>))"

section \<open>init, getScheme and main\<close>

text \<open>\<open>utilruntime.Must\<close> panics on an error.\<close>

definition Must :: "go_error \<Rightarrow> ('m, 'sch, 'r, unit) prog" where
  "Must e = gopanic (Error e)"

definition main_init :: "('m, 'cfg, 'sch, 'r, 'w, 'v) main_lib \<Rightarrow> ('m, 'sch, 'r, unit) prog" where
  "main_init lib =
     bind (on_scheme (lib_AddToScheme lib ClientGoScheme) Must) (\<lambda>_.
     on_scheme (AddToScheme (build_scheme lib)) Must)"

definition getScheme :: "('m, 'cfg, 'sch, 'r, 'w, 'v) main_lib \<Rightarrow> ('sch, go_error, unit) comp" where
  "getScheme lib =
     SchemeBuilder_AddToScheme lib
       [lib_AddToScheme lib OcsV1, lib_AddToScheme lib BatchV1, lib_AddToScheme lib CoreV1,
        lib_AddToScheme lib AppsV1, AddToScheme (build_scheme lib), lib_AddToScheme lib TemplateV1,
        lib_AddToScheme lib ConfigV1]"

definition common_TLSOpts ::
  "('m, 'cfg, 'sch, 'r, 'w, 'v) main_lib \<Rightarrow> flags \<Rightarrow> ('m, 'sch, 'r, slice) prog" where
  "common_TLSOpts lib f =
     (if \<not> enableHTTP2 f then append_opt lib nil_slice DisableHTTP2 else ret nil_slice)"

text \<open>The certificate watcher of a server, and its options with the watcher's certificate.\<close>

definition with_certificate ::
  "('m, 'cfg, 'sch, 'r, 'w, 'v) main_lib \<Rightarrow> string \<Rightarrow> string \<Rightarrow> string \<Rightarrow> slice \<Rightarrow>
   ('m, 'sch, 'r, cert_watcher option \<times> slice) prog" where
  "with_certificate lib path name key opts =
     (if 0 < length path then
        (let crt = filepath_Join [path, name]; pkey = filepath_Join [path, key] in
         bind (or_exit (NewCertWatcher crt pkey) (certwatcher_New lib crt pkey)) (\<lambda>_.
         bind (append_opt lib opts (UseCertificate (CertWatcher crt pkey))) (\<lambda>opts'.
         ret (Some (CertWatcher crt pkey), opts'))))
      else ret (None, opts))"

definition metrics_server_options :: "flags \<Rightarrow> slice \<Rightarrow> metrics_options" where
  "metrics_server_options f opts =
     \<lparr>mo_BindAddress = metricsAddr f, mo_SecureServing = secureMetrics f, mo_TLSOpts = opts,
      mo_FilterProvider = (if secureMetrics f then Some ''WithAuthenticationAndAuthorization'' else None)\<rparr>"

definition ctrl_Options :: "flags \<Rightarrow> metrics_options \<Rightarrow> slice \<Rightarrow> manager_options" where
  "ctrl_Options f mo webhookTLSOpts =
     \<lparr>op_Metrics = mo, op_WebhookTLSOpts = webhookTLSOpts, op_HealthProbeBindAddress = probeAddr f,
      op_LeaderElection = enableLeaderElection f, op_LeaderElectionID = ''28d81b84.my.domain''\<rparr>"

definition add_watcher ::
  "('m, 'cfg, 'sch, 'r, 'w, 'v) main_lib \<Rightarrow> cert_watcher option \<Rightarrow> ('m, 'sch, 'r, unit) prog" where
  "add_watcher lib w = (case w of None \<Rightarrow> ret () | Some x \<Rightarrow> or_exit (AddCall x) (Add lib x))"

text \<open>The arguments of the controller are evaluated before it is set up: the log retriever needs a client set.\<close>

definition setup_controller ::
  "('m, 'cfg, 'sch, 'r, 'w, 'v) main_lib \<Rightarrow> 'cfg \<Rightarrow> ('m, 'sch, 'r, unit) prog" where
  "setup_controller lib config =
     bind (or_panic NewClientsetCall
             (NewLogRetriever (\<lambda>s. clientset_NewForConfig lib config (ms_world s)) (external_of lib config))) (\<lambda>logClient.
     or_exit SetupCall (\<lambda>m.
       case SetupWithManager
           \<lparr>nrr_Client = external_of lib config, nrr_CmdRunner = NewRemoteExecutor (external_of lib config),
            nrr_LogClient = logClient\<rparr> (the_manager lib) m of
         Inl e \<Rightarrow> (Inl e, m)
       | Inr m' \<Rightarrow> (Inr (), m')))"

definition run_manager ::
  "('m, 'cfg, 'sch, 'r, 'w, 'v) main_lib \<Rightarrow> manager_options \<Rightarrow> cert_watcher option \<Rightarrow> cert_watcher option \<Rightarrow>
   ('m, 'sch, 'r, unit) prog" where
  "run_manager lib opts metricsCertWatcher webhookCertWatcher =
     bind (or_exit GetConfigOrDie (GetConfig lib)) (\<lambda>cfg.
     bind (or_exit (NewManagerCall opts) (NewManager lib cfg opts)) (\<lambda>_.
     bind (on_scheme (getScheme lib) (\<lambda>_. throw 1)) (\<lambda>_.
     bind (or_exit GetConfigOrDie (GetConfig lib)) (\<lambda>config.
     bind (setup_controller lib config) (\<lambda>_.
     bind (add_watcher lib metricsCertWatcher) (\<lambda>_.
     bind (add_watcher lib webhookCertWatcher) (\<lambda>_.
     bind (or_exit (HealthzCall ''healthz'') (AddHealthzCheck lib ''healthz'')) (\<lambda>_.
     bind (or_exit (ReadyzCall ''readyz'') (AddReadyzCheck lib ''readyz'')) (\<lambda>_.
     bind (on_registry (RegisterMetrics (new_registry lib) (register lib))) (\<lambda>_.
     or_exit StartCall (Start lib)))))))))))"

definition main :: "('m, 'cfg, 'sch, 'r, 'w, 'v) main_lib \<Rightarrow> string list \<Rightarrow> ('m, 'sch, 'r, unit) prog" where
  "main lib args =
     (case flag_Parse (bound_flags lib) args default_flags of
        Inl code \<Rightarrow> throw code
      | Inr f \<Rightarrow>
          bind (common_TLSOpts lib f) (\<lambda>tlsOpts.
          bind (with_certificate lib (webhookCertPath f) (webhookCertName f) (webhookCertKey f) tlsOpts)
            (\<lambda>(webhookCertWatcher, webhookTLSOpts).
          bind (with_certificate lib (metricsCertPath f) (metricsCertName f) (metricsCertKey f) tlsOpts)
            (\<lambda>(metricsCertWatcher, metricsTLSOpts).
          run_manager lib (ctrl_Options f (metrics_server_options f metricsTLSOpts) webhookTLSOpts)
            metricsCertWatcher webhookCertWatcher))))"

end
