(* ===== verification/Main_Properties.thy ===== *)
theory Main_Properties
  imports Operator_Main Sample_Cluster
begin

text \<open>
  Properties of the program (\<open>Operator_Main\<close>): the command line, the TLS options of the two servers
  and the order in which the manager is set up and started.
\<close>

section \<open>The command line\<close>

text \<open>A command line that sets every flag of the operator.\<close>

definition flag_arg :: "string \<Rightarrow> string \<Rightarrow> string" where
  "flag_arg name v = ''--'' @ name @ ''='' @ v"

definition print_flags :: "flags \<Rightarrow> string list" where
  "print_flags f =
     [flag_arg ''metrics-bind-address'' (metricsAddr f),
      flag_arg ''health-probe-bind-address'' (probeAddr f),
      flag_arg ''leader-elect'' (FormatBool (enableLeaderElection f)),
      flag_arg ''metrics-secure'' (FormatBool (secureMetrics f)),
      flag_arg ''webhook-cert-path'' (webhookCertPath f),
      flag_arg ''webhook-cert-name'' (webhookCertName f),
      flag_arg ''webhook-cert-key'' (webhookCertKey f),
      flag_arg ''metrics-cert-path'' (metricsCertPath f),
      flag_arg ''metrics-cert-name'' (metricsCertName f),
      flag_arg ''metrics-cert-key'' (metricsCertKey f),
      flag_arg ''enable-http2'' (FormatBool (enableHTTP2 f))]"

lemma cut_at_append: "c \<notin> set n \<Longrightarrow> cut_at c (n @ c # v) = (n, Some v)"
  by (induction n) auto

definition flag_name :: "string \<Rightarrow> bool" where
  "flag_name n \<longleftrightarrow> n \<noteq> [] \<and> hd n \<noteq> CHR ''-'' \<and> CHR ''='' \<notin> set n"

lemma arg_kind_flag_arg:
  assumes "flag_name n"
  shows "arg_kind (flag_arg n v) = FlagArg n (Some v)"
proof -
  from assms obtain x xs where "n = x # xs" "x \<noteq> CHR ''-''" "x \<noteq> CHR ''=''" "CHR ''='' \<notin> set xs"
    by (cases n) (auto simp: flag_name_def)
  then show ?thesis by (simp add: arg_kind_def flag_arg_def split_name_def cut_at_append)
qed

lemma ParseBool_FormatBool [simp]: "ParseBool (FormatBool b) = Some b"
  by (cases b) (simp_all add: ParseBool_def FormatBool_def)

lemma flag_Parse_set:
  assumes "flag_name n" and "is_bool_flag lib n = Some b" and "set_flag lib n v f = Some f'"
  shows "flag_Parse lib (flag_arg n v # args) f = flag_Parse lib args f'"
  using assms by (cases b) (simp_all add: arg_kind_flag_arg)

lemma flag_names: "n \<in> fst ` set flag_set \<Longrightarrow> flag_name n"
  by (auto simp: flag_set_def flag_name_def)

lemma flag_name_map_of: "map_of flag_set n = Some x \<Longrightarrow> flag_name n"
  by (rule flag_names) (force dest: map_of_SomeD)

lemma flag_Parse_string:
  assumes "map_of flag_set n = Some (StringVar upd)"
  shows "flag_Parse lib (flag_arg n v # args) f = flag_Parse lib args (upd v f)"
  by (rule flag_Parse_set [where b = False])
    (simp_all add: is_bool_flag_def set_flag_def assms flag_name_map_of [OF assms])

lemma flag_Parse_bool:
  assumes "map_of flag_set n = Some (BoolVar upd)"
  shows "flag_Parse lib (flag_arg n (FormatBool v) # args) f = flag_Parse lib args (upd v f)"
  by (rule flag_Parse_set [where b = True])
    (simp_all add: is_bool_flag_def set_flag_def assms flag_name_map_of [OF assms])

lemma string_flags:
  "map_of flag_set ''metrics-bind-address'' = Some (StringVar (\<lambda>v f. f\<lparr>metricsAddr := v\<rparr>))"
  "map_of flag_set ''health-probe-bind-address'' = Some (StringVar (\<lambda>v f. f\<lparr>probeAddr := v\<rparr>))"
  "map_of flag_set ''webhook-cert-path'' = Some (StringVar (\<lambda>v f. f\<lparr>webhookCertPath := v\<rparr>))"
  "map_of flag_set ''webhook-cert-name'' = Some (StringVar (\<lambda>v f. f\<lparr>webhookCertName := v\<rparr>))"
  "map_of flag_set ''webhook-cert-key'' = Some (StringVar (\<lambda>v f. f\<lparr>webhookCertKey := v\<rparr>))"
  "map_of flag_set ''metrics-cert-path'' = Some (StringVar (\<lambda>v f. f\<lparr>metricsCertPath := v\<rparr>))"
  "map_of flag_set ''metrics-cert-name'' = Some (StringVar (\<lambda>v f. f\<lparr>metricsCertName := v\<rparr>))"
  "map_of flag_set ''metrics-cert-key'' = Some (StringVar (\<lambda>v f. f\<lparr>metricsCertKey := v\<rparr>))"
  by (simp_all add: flag_set_def)

lemma bool_flags:
  "map_of flag_set ''leader-elect'' = Some (BoolVar (\<lambda>v f. f\<lparr>enableLeaderElection := v\<rparr>))"
  "map_of flag_set ''metrics-secure'' = Some (BoolVar (\<lambda>v f. f\<lparr>secureMetrics := v\<rparr>))"
  "map_of flag_set ''enable-http2'' = Some (BoolVar (\<lambda>v f. f\<lparr>enableHTTP2 := v\<rparr>))"
  by (simp_all add: flag_set_def)

lemma flags_overwritten:
  "g\<lparr>metricsAddr := metricsAddr f, probeAddr := probeAddr f, enableLeaderElection := enableLeaderElection f,
     secureMetrics := secureMetrics f, webhookCertPath := webhookCertPath f, webhookCertName := webhookCertName f,
     webhookCertKey := webhookCertKey f, metricsCertPath := metricsCertPath f, metricsCertName := metricsCertName f,
     metricsCertKey := metricsCertKey f, enableHTTP2 := enableHTTP2 f\<rparr> = f" for f g :: flags
  by (cases f, cases g) simp

lemma flag_Parse_print: "flag_Parse lib (print_flags f @ args) g = flag_Parse lib args f"
  by (simp add: print_flags_def string_flags [THEN flag_Parse_string] bool_flags [THEN flag_Parse_bool]
    flags_overwritten
    del: flag_Parse.simps)

lemma flag_Parse_unknown:
  assumes "flag_name n" and "map_of flag_set n = None" and "lib_is_bool lib n = None"
  shows "flag_Parse lib (flag_arg n v # args) f = Inl (if n = ''help'' \<or> n = ''h'' then 0 else 2)"
  using assms by (simp add: arg_kind_flag_arg is_bool_flag_def)

lemma flag_Parse_bad_bool:
  assumes "map_of flag_set n = Some (BoolVar upd)" and "ParseBool v = None"
  shows "flag_Parse lib (flag_arg n v # args) f = Inl 2"
  using assms flag_name_map_of [OF assms(1)]
  by (simp add: arg_kind_flag_arg is_bool_flag_def set_flag_def)

text \<open>
  The command line that prints every flag is parsed back into the same flags, whatever
  the values contain and whatever was set before.
\<close>

theorem command_line_round_trip: "flag_Parse lib (print_flags f) g = Inr f"
  using flag_Parse_print [of lib f "[]" g] by simp

text \<open>
  After any valid arguments, a flag that nobody defined ends the program with exit code
  2 (0 for a request of the usage), a boolean flag with a malformed value with exit code 2;
  in both cases nothing was called, allocated or registered.
\<close>

theorem bad_arguments_exit:
  assumes "flag_name n" and "map_of flag_set n = None" and "lib_is_bool (bound_flags lib) n = None"
    and "map_of flag_set b = Some (BoolVar upd)" and "ParseBool w = None"
  shows "main lib (print_flags f @ flag_arg n v # args) s = (Err (if n = ''help'' \<or> n = ''h'' then 0 else 2), s) \<and>
         main lib (print_flags f @ flag_arg b w # args) s = (Err 2, s)"
  using flag_Parse_unknown [OF assms(1-3)] flag_Parse_bad_bool [OF assms(4, 5)]
  by (simp add: main_def flag_Parse_print run_throw)

section \<open>A sample program\<close>

text \<open>A library in which every call succeeds but those in \<open>broken\<close>, and whose registry refuses a name twice.\<close>

definition answer :: "bool \<Rightarrow> 'a \<Rightarrow> 'm \<Rightarrow> (go_error + 'a) \<times> 'm" where
  "answer good x m = (if good then Inr x else Inl (ErrorString ''broken''), m)"

definition sample_register :: "collector \<Rightarrow> string list \<Rightarrow> go_error + string list" where
  "sample_register c names =
     (if col_Name c \<in> set names then Inl (ErrorString ''duplicate'') else Inr (names @ [col_Name c]))"

definition sample_lib ::
  "(nat \<Rightarrow> nat \<Rightarrow> nat) \<Rightarrow> string list \<Rightarrow> (string list, unit, string list, string list, cluster, nat list) main_lib" where
  "sample_lib g broken =
     \<lparr>bound_flags = \<lparr>lib_is_bool = Map.empty, lib_accepts = (\<lambda>_ _. False)\<rparr>,
      grow = g,
      certwatcher_New = (\<lambda>crt key. answer (crt \<notin> set broken) ()),
      GetConfig = answer True (),
      NewManager = (\<lambda>_ _. answer (''manager'' \<notin> set broken) ()),
      lib_AddToScheme = (\<lambda>_. ret ()),
      build_scheme = (\<lambda>_ ts. modify (\<lambda>sch. sch @ ts)),
      SchemeBuilder_AddToScheme = (\<lambda>bs. forM (\<lambda>b. b) bs),
      external_of = (\<lambda>_. sample),
      clientset_NewForConfig = (\<lambda>_ m. fst (answer (''clientset'' \<notin> set broken) () m)),
      the_manager = \<lparr>IndexField = (\<lambda>_ f _ m. Inr (m @ [f])), Complete = (\<lambda>_ p _ _ m. Inr (m @ [p]))\<rparr>,
      Add = (\<lambda>_. answer True ()),
      AddHealthzCheck = (\<lambda>n. answer (n \<notin> set broken) ()),
      AddReadyzCheck = (\<lambda>n. answer (n \<notin> set broken) ()),
      new_registry = [],
      register = sample_register,
      Start = answer True ()\<rparr>"

definition sample_start :: "(string list, string list, string list) main_state" where
  "sample_start = \<lparr>ms_world = [], ms_scheme = [], ms_registry = [''go_goroutines''], ms_heap = [], ms_calls = [], ms_failed = []\<rparr>"

definition tls_flags :: flags where
  "tls_flags = default_flags\<lparr>webhookCertPath := ''/webhook/'', metricsCertPath := ''/metrics''\<rparr>"

lemma sample_paths:
  "filepath_Join [''/webhook/'', ''tls.crt''] = ''/webhook/tls.crt''"
  "filepath_Join [''/webhook/'', ''tls.key''] = ''/webhook/tls.key''"
  "filepath_Join [''/metrics'', ''tls.crt''] = ''/metrics/tls.crt''"
  "filepath_Join [''/metrics'', ''tls.key''] = ''/metrics/tls.key''"
  by code_simp+

lemma sample_registers:
  "RegisterMetrics [] sample_register old = (Ok (), map col_Name metricsList)"
  by (simp add: RegisterMetrics_def sample_register_def metricsList_def bind_def modify_def ret_def)

lemma tls_flags_simps [simp]:
  "webhookCertPath tls_flags = ''/webhook/''" "metricsCertPath tls_flags = ''/metrics''"
  "webhookCertName tls_flags = ''tls.crt''" "metricsCertName tls_flags = ''tls.crt''"
  "webhookCertKey tls_flags = ''tls.key''" "metricsCertKey tls_flags = ''tls.key''"
  "\<not> enableHTTP2 tls_flags"
  by (simp_all add: tls_flags_def default_flags_def)

lemmas sample_main =
  main_def flag_Parse_print [of _ _ "[]", simplified] common_TLSOpts_def with_certificate_def run_manager_def
  or_exit_def on_scheme_def on_registry_def append_opt_def append1_def add_watcher_def setup_controller_def
  or_panic_def log_call_def NewLogRetriever_def NewForConfigOrDie_def SetupWithManager_def getScheme_def AddToScheme_def bind_def ret_def modify_def answer_def Let_def
  sample_lib_def sample_start_def sample_paths sample_registers nil_slice_def

theorem bad_arguments_exit_witness:
  "main (sample_lib max []) (print_flags tls_flags @ flag_arg ''colour'' ''red'' # [''x'']) sample_start = (Err 2, sample_start) \<and>
   main (sample_lib max []) (print_flags tls_flags @ flag_arg ''leader-elect'' ''maybe'' # [''x'']) sample_start = (Err 2, sample_start)"
proof -
  have "flag_name ''colour''" "map_of flag_set ''colour'' = None"
    "lib_is_bool (bound_flags (sample_lib max [])) ''colour'' = None"
    "ParseBool ''maybe'' = None" "''colour'' \<noteq> ''help'' \<and> ''colour'' \<noteq> ''h''"
    by (simp_all add: flag_name_def flag_set_def sample_lib_def ParseBool_def)
  with bad_arguments_exit [OF this(1-3) bool_flags(1) this(4), of tls_flags "''red''" "[''x'']" sample_start]
  show ?thesis by simp
qed

section \<open>The calls of the program\<close>

text \<open>
  \<open>does A m\<close>: every run of \<open>m\<close> makes the calls of a prefix of a list in \<open>A\<close>. When it succeeds it has made all of them
  and none has failed; otherwise the last call that it made has failed, and no other. It ends the program only
  with exit code 1, and panics only in the calls of \<open>dies\<close>.
\<close>

definition dies :: "main_call set" where
  "dies = {AddToSchemeCall, NewClientsetCall, RegisterMetricsCall}"

definition call_end :: "(nat, 'a) result \<Rightarrow> main_call list \<Rightarrow> main_call list \<Rightarrow> main_call list \<Rightarrow> bool" where
  "call_end r cs ys failed \<longleftrightarrow>
     (case r of
        Ok _ \<Rightarrow> ys = cs \<and> failed = []
      | Err n \<Rightarrow> n = 1 \<and> ys \<noteq> [] \<and> failed = [last ys]
      | Panic _ \<Rightarrow> ys \<noteq> [] \<and> failed = [last ys] \<and> last ys \<in> dies)"

definition does :: "main_call list set \<Rightarrow> ('m, 'sch, 'r, 'a) prog \<Rightarrow> bool" where
  "does A m \<longleftrightarrow>
     (\<forall>s r s'. m s = (r, s') \<longrightarrow>
        (\<exists>cs\<in>A. \<exists>ys failed. ms_calls s' = ms_calls s @ ys \<and> ms_failed s' = ms_failed s @ failed \<and> prefix ys cs \<and>
           call_end r cs ys failed))"

lemma doesE:
  assumes "does A m" and "m s = (r, s')"
  obtains cs ys failed where "cs \<in> A" "ms_calls s' = ms_calls s @ ys" "ms_failed s' = ms_failed s @ failed" "prefix ys cs"
    "call_end r cs ys failed"
  using assms unfolding does_def by blast

lemma does_ret: "does {[]} (ret x)"
  by (simp add: does_def call_end_def ret_def)

lemma does_or_exit: "does {[e]} (or_exit e f)"
  by (auto simp: does_def call_end_def or_exit_def log_call_def split: prod.splits sum.splits)

lemma does_on_scheme: "does {[AddToSchemeCall]} (on_scheme m (\<lambda>_. throw 1))"
  by (auto simp: does_def call_end_def on_scheme_def log_call_def Let_def throw_def dies_def split: prod.splits result.splits)

lemma does_on_registry: "does {[RegisterMetricsCall]} (on_registry m)"
  by (auto simp: does_def call_end_def on_registry_def log_call_def dies_def split: prod.splits result.splits)

lemma does_NewLogRetriever: "does {[NewClientsetCall]} (or_panic NewClientsetCall (NewLogRetriever f c))"
  by (auto simp: does_def call_end_def or_panic_def NewLogRetriever_def NewForConfigOrDie_def bind_def ret_def log_call_def dies_def
      split: sum.splits)

lemma does_append_opt: "does {[]} (append_opt lib s x)"
  by (auto simp: does_def call_end_def append_opt_def split: prod.splits)

lemma does_bind_dep:
  assumes "does A m" and "\<And>s x s'. m s = (Ok x, s') \<Longrightarrow> does B (k x)" and "B \<noteq> {}"
  shows "does {xs @ ys |xs ys. xs \<in> A \<and> ys \<in> B} (bind m k)"
  unfolding does_def
proof (intro allI impI)
  fix s r s' assume run: "bind m k s = (r, s')"
  obtain r1 s1 where m: "m s = (r1, s1)" by (cases "m s")
  obtain cs ys f1 where 1: "cs \<in> A" "ms_calls s1 = ms_calls s @ ys" "ms_failed s1 = ms_failed s @ f1" "prefix ys cs"
      "call_end r1 cs ys f1"
    by (rule doesE [OF assms(1) m]) blast
  from assms(3) obtain ds where ds: "ds \<in> B" by blast
  show "\<exists>zs\<in>{xs @ ys |xs ys. xs \<in> A \<and> ys \<in> B}. \<exists>ys failed. ms_calls s' = ms_calls s @ ys \<and>
      ms_failed s' = ms_failed s @ failed \<and> prefix ys zs \<and> call_end r zs ys failed"
  proof (cases r1)
    case (Ok x)
    with run m have "k x s1 = (r, s')" by (simp add: bind_def)
    then obtain ds zs f2 where "ds \<in> B" "ms_calls s' = ms_calls s1 @ zs" "ms_failed s' = ms_failed s1 @ f2" "prefix zs ds"
        "call_end r ds zs f2"
      by (rule doesE [OF assms(2) [OF m [unfolded Ok]]]) blast
    with 1 Ok show ?thesis
      by (intro bexI [of _ "cs @ ds"] exI [of _ "ys @ zs"] exI [of _ f2]) (auto simp: call_end_def split: result.splits)
  next
    case (Err e)
    with run m 1 ds show ?thesis
      by (intro bexI [of _ "cs @ ds"] exI [of _ ys] exI [of _ f1]) (auto simp: bind_def call_end_def)
  next
    case (Panic p)
    with run m 1 ds show ?thesis
      by (intro bexI [of _ "cs @ ds"] exI [of _ ys] exI [of _ f1]) (auto simp: bind_def call_end_def)
  qed
qed

lemma does_inhabited: "does A m \<Longrightarrow> A \<noteq> {}"
  by (cases "m undefined") (auto elim: doesE)

lemma does_bind:
  assumes "does A m" and "\<And>x. does B (k x)"
  shows "does {xs @ ys |xs ys. xs \<in> A \<and> ys \<in> B} (bind m k)"
  using assms does_inhabited [OF assms(2)] by (intro does_bind_dep)

lemma does_mono: "does A m \<Longrightarrow> A \<subseteq> B \<Longrightarrow> does B m"
  unfolding does_def by blast

section \<open>Setting up and starting the manager\<close>

text \<open>The calls of a start that succeeds.\<close>

definition watcher_of :: "string \<Rightarrow> string \<Rightarrow> string \<Rightarrow> cert_watcher option" where
  "watcher_of path name key =
     (if path = [] then None else Some (CertWatcher (filepath_Join [path, name]) (filepath_Join [path, key])))"

definition webhook_watcher :: "flags \<Rightarrow> cert_watcher option" where
  "webhook_watcher f = watcher_of (webhookCertPath f) (webhookCertName f) (webhookCertKey f)"

definition metrics_watcher :: "flags \<Rightarrow> cert_watcher option" where
  "metrics_watcher f = watcher_of (metricsCertPath f) (metricsCertName f) (metricsCertKey f)"

definition new_calls :: "cert_watcher option \<Rightarrow> main_call list" where
  "new_calls w = (case w of None \<Rightarrow> [] | Some (CertWatcher crt key) \<Rightarrow> [NewCertWatcher crt key])"

definition add_calls :: "cert_watcher option \<Rightarrow> main_call list" where
  "add_calls w = (case w of None \<Rightarrow> [] | Some x \<Rightarrow> [AddCall x])"

definition boot_calls :: "manager_options \<Rightarrow> cert_watcher option \<Rightarrow> cert_watcher option \<Rightarrow> main_call list" where
  "boot_calls opts mw ww =
     [GetConfigOrDie, NewManagerCall opts, AddToSchemeCall, GetConfigOrDie, NewClientsetCall, SetupCall] @ add_calls mw @ add_calls ww @
     [HealthzCall ''healthz'', ReadyzCall ''readyz'', RegisterMetricsCall, StartCall]"

definition options_of :: "flags \<Rightarrow> slice \<Rightarrow> slice \<Rightarrow> manager_options" where
  "options_of f mt wt = ctrl_Options f (metrics_server_options f mt) wt"

definition startup_calls :: "flags \<Rightarrow> manager_options \<Rightarrow> main_call list" where
  "startup_calls f opts =
     new_calls (webhook_watcher f) @ new_calls (metrics_watcher f) @
     boot_calls opts (metrics_watcher f) (webhook_watcher f)"

lemma does_add_watcher: "does {add_calls w} (add_watcher lib w)"
  by (cases w) (simp_all add: add_watcher_def add_calls_def does_ret does_or_exit)

lemma does_setup_controller: "does {[NewClientsetCall, SetupCall]} (setup_controller lib config)"
  unfolding setup_controller_def
  by (rule does_mono, (rule does_bind does_NewLogRetriever does_or_exit)+) auto

lemma does_run_manager: "does {boot_calls opts mw ww} (run_manager lib opts mw ww)"
  unfolding run_manager_def
  by (rule does_mono, (rule does_bind does_or_exit does_on_scheme does_on_registry does_setup_controller does_add_watcher)+)
    (auto simp: boot_calls_def)

lemma does_with_certificate:
  "does {new_calls (watcher_of path name key)} (with_certificate lib path name key opts)"
proof (cases "path = []")
  case True
  then show ?thesis by (simp add: with_certificate_def watcher_of_def new_calls_def does_ret)
next
  case False
  show ?thesis unfolding with_certificate_def Let_def using False
    by (simp, intro does_mono [OF does_bind [OF does_or_exit does_bind [OF does_append_opt does_ret]]])
      (auto simp: watcher_of_def new_calls_def)
qed

lemma does_common_TLSOpts: "does {[]} (common_TLSOpts lib f)"
  by (simp add: common_TLSOpts_def does_append_opt does_ret)

lemma with_certificate_watcher:
  "with_certificate lib path name key opts s = (Ok (w, opts'), s') \<Longrightarrow> w = watcher_of path name key"
  by (auto simp: with_certificate_def watcher_of_def bind_eq_Ok ret_def Let_def split: if_splits)

lemma does_main:
  assumes "flag_Parse (bound_flags lib) args default_flags = Inr f"
  shows "does {startup_calls f (options_of f mt wt) |mt wt. True} (main lib args)"
proof -
  let ?mw = "metrics_watcher f" and ?ww = "webhook_watcher f"
  let ?B = "{boot_calls (options_of f mt wt) ?mw ?ww |mt wt. True}"
  let ?run = "\<lambda>wt ww (mw, mt). run_manager lib (ctrl_Options f (metrics_server_options f mt) wt) mw ww"
  let ?metrics = "with_certificate lib (metricsCertPath f) (metricsCertName f) (metricsCertKey f)"
  let ?webhook = "with_certificate lib (webhookCertPath f) (webhookCertName f) (webhookCertKey f)"
  have B: "?B \<noteq> {}" by blast
  have run: "does ?B (?run wt ?ww x)" if "?metrics t s = (Ok x, s')" for t s x s' wt
    using that does_mono [OF does_run_manager, of _ ?mw ?ww ?B]
    by (cases x) (auto simp: metrics_watcher_def options_of_def dest!: with_certificate_watcher)
  have metrics: "does {new_calls ?mw @ bs |bs. bs \<in> ?B} (bind (?metrics t) (?run wt ?ww))" for t wt
    by (rule does_mono [OF does_bind_dep [OF does_with_certificate run B]]) (auto simp: metrics_watcher_def)
  have webhook: "does {new_calls ?mw @ bs |bs. bs \<in> ?B} (case x of (ww, wt) \<Rightarrow> bind (?metrics t) (?run wt ww))"
    if "?webhook t s = (Ok x, s')" for t s x s'
    using that metrics by (cases x) (auto simp: webhook_watcher_def dest!: with_certificate_watcher)
  have C: "{new_calls ?mw @ bs |bs. bs \<in> ?B} \<noteq> {}" by blast
  show ?thesis
    unfolding main_def assms sum.case
    by (rule does_mono [OF does_bind [OF does_common_TLSOpts does_bind_dep [OF does_with_certificate webhook C]]])
      (auto simp: startup_calls_def webhook_watcher_def)
qed

lemma prefix_snoc_mem: "prefix ys (xs @ [a]) \<Longrightarrow> a \<notin> set xs \<Longrightarrow> a \<in> set ys \<Longrightarrow> ys = xs @ [a]"
  by (auto dest: set_mono_prefix)

lemma startup_calls_Start:
  "prefix ys (startup_calls f opts) \<Longrightarrow> StartCall \<in> set ys \<Longrightarrow> ys = startup_calls f opts"
  using prefix_snoc_mem [of ys "butlast (startup_calls f opts)" StartCall]
  by (auto simp: startup_calls_def boot_calls_def new_calls_def add_calls_def butlast_append
    split: option.splits cert_watcher.splits)

text \<open>
  C34. With a valid command line the program makes its calls in one fixed order: the certificate
  watchers of the flags, the manager, the scheme, the client set of the log retriever, the controller, the watchers again
  (the metrics server's first), the two probes, the metrics, the start. It stops at the first call that fails: none
  but the last call that was made has failed. A failed call ends the program with exit code 1, or with a panic in the scheme, the
  client set or the registration of the metrics. So the manager is started only when every other call has been made and none of
  them has failed.
\<close>

theorem manager_started_last:
  assumes "flag_Parse (bound_flags lib) args default_flags = Inr f"
    and "main lib args s = (r, s')" and "ms_calls s = []" and "ms_failed s = []"
  shows "\<exists>mt wt. prefix (ms_calls s') (startup_calls f (options_of f mt wt)) \<and>
           (r = Ok () \<longrightarrow> ms_calls s' = startup_calls f (options_of f mt wt) \<and> ms_failed s' = []) \<and>
           (r \<noteq> Ok () \<longrightarrow> ms_calls s' \<noteq> [] \<and> ms_failed s' = [last (ms_calls s')]) \<and>
           (\<forall>n. r = Err n \<longrightarrow> n = 1) \<and>
           (\<forall>p. r = Panic p \<longrightarrow> last (ms_calls s') \<in> {AddToSchemeCall, NewClientsetCall, RegisterMetricsCall}) \<and>
           (StartCall \<in> set (ms_calls s') \<longrightarrow>
              ms_calls s' = startup_calls f (options_of f mt wt) \<and> set (ms_failed s') \<subseteq> {StartCall})"
proof -
  obtain cs failed where cs: "cs \<in> {startup_calls f (options_of f mt wt) |mt wt. True}" "prefix (ms_calls s') cs"
    "ms_failed s' = failed" "call_end r cs (ms_calls s') failed"
    by (rule doesE [OF does_main [OF assms(1)] assms(2)]) (simp add: assms(3,4))
  then obtain mt wt where cs': "cs = startup_calls f (options_of f mt wt)" by blast
  have start: "ms_calls s' = cs \<and> set (ms_failed s') \<subseteq> {StartCall}" if "StartCall \<in> set (ms_calls s')"
  proof -
    have all: "ms_calls s' = cs" using startup_calls_Start cs(2) that cs' by blast
    have "last cs = StartCall" by (simp add: cs' startup_calls_def boot_calls_def)
    with all cs(3,4) show ?thesis by (auto simp: call_end_def split: result.splits)
  qed
  show ?thesis
    using cs(2-4) start unfolding cs'
    by (intro exI [of _ mt] exI [of _ wt]) (auto simp: call_end_def dies_def split: result.splits)
qed

text \<open>A start that succeeds, and one whose health probe is refused.\<close>

theorem manager_started_last_witness:
  "(\<exists>mt wt. ms_calls (snd (main (sample_lib max []) (print_flags tls_flags) sample_start)) =
     startup_calls tls_flags (options_of tls_flags mt wt)) \<and>
   ms_failed (snd (main (sample_lib max [''healthz'']) (print_flags tls_flags) sample_start)) = [HealthzCall ''healthz'']"
proof
  have parse: "flag_Parse (bound_flags (sample_lib max b)) (print_flags tls_flags) default_flags = Inr tls_flags" for b
    using flag_Parse_print [of _ tls_flags "[]"] by simp
  have start: "ms_calls sample_start = []" "ms_failed sample_start = []" by (simp_all add: sample_start_def)
  have "fst (main (sample_lib max []) (print_flags tls_flags) sample_start) = Ok ()"
    by (simp add: sample_main)
  from manager_started_last [OF parse run_fst [of "main (sample_lib max []) (print_flags tls_flags)", OF this] start]
  show "\<exists>mt wt. ms_calls (snd (main (sample_lib max []) (print_flags tls_flags) sample_start)) =
     startup_calls tls_flags (options_of tls_flags mt wt)" by blast
  let ?bad = "main (sample_lib max [''healthz'']) (print_flags tls_flags)"
  have "fst (?bad sample_start) = Err 1" "last (ms_calls (snd (?bad sample_start))) = HealthzCall ''healthz''"
    by (simp_all add: sample_main)
  with manager_started_last [OF parse run_fst [of ?bad] start] show "ms_failed (snd (?bad sample_start)) = [HealthzCall ''healthz'']"
    by auto
qed

section \<open>TLS options\<close>

lemma ms_heap_log_call [simp]: "ms_heap (log_call e ok s) = ms_heap s"
  by (simp add: log_call_def)

interpretation heap_kept: preorder_contract "\<lambda>s s'. ms_heap s' = ms_heap s"
  by unfold_locales auto

lemma heap_kept_calls:
  "upholds (\<lambda>s s'. ms_heap s' = ms_heap s) (or_exit e f)"
  "upholds (\<lambda>s s'. ms_heap s' = ms_heap s) (on_scheme m (\<lambda>_. throw 1))"
  "upholds (\<lambda>s s'. ms_heap s' = ms_heap s) (on_registry n)"
  "upholds (\<lambda>s s'. ms_heap s' = ms_heap s) (add_watcher lib w)"
  "upholds (\<lambda>s s'. ms_heap s' = ms_heap s) (setup_controller lib cfg)"
  by (auto simp: upholds_def or_exit_def on_scheme_def on_registry_def add_watcher_def setup_controller_def or_panic_def
      NewLogRetriever_def NewForConfigOrDie_def bind_def ret_def throw_def Let_def
    split: prod.splits result.splits option.splits sum.splits)

lemma heap_kept_run_manager:
  "upholds (\<lambda>s s'. ms_heap s' = ms_heap s) (run_manager lib opts mw ww)"
  unfolding run_manager_def by (intro heap_kept.upholds_intros heap_kept_calls)

lemma with_certificate_heap:
  assumes "with_certificate lib path name key t s = (Ok (w, t'), s')"
  shows "if path = [] then t' = t \<and> ms_heap s' = ms_heap s
         else append1 (grow lib) None (ms_heap s) t (Some (UseCertificate (the (watcher_of path name key)))) =
           (t', ms_heap s')"
  using assms
  by (auto simp: with_certificate_def watcher_of_def append_opt_def or_exit_def Let_def ret_def bind_eq_Ok
    split: if_splits prod.splits sum.splits)

lemma common_TLSOpts_heap:
  assumes "common_TLSOpts lib f s = (Ok t, s')"
  shows "slice_ok (ms_heap s') t"
    and "elems (ms_heap s') t = (if enableHTTP2 f then [] else [Some DisableHTTP2])"
    and "sl_len t < sl_cap t \<longleftrightarrow> \<not> enableHTTP2 f \<and> 1 < grow lib 0 1"
proof -
  from assms have *: "if enableHTTP2 f then t = nil_slice \<and> ms_heap s' = ms_heap s
      else append1 (grow lib) None (ms_heap s) nil_slice (Some DisableHTTP2) = (t, ms_heap s')"
    by (auto simp: common_TLSOpts_def append_opt_def ret_def split: if_splits prod.splits)
  then show "slice_ok (ms_heap s') t" by (auto split: if_splits intro: append1_ok [OF slice_ok_nil])
  from * show "elems (ms_heap s') t = (if enableHTTP2 f then [] else [Some DisableHTTP2])"
    using append1_elems [OF slice_ok_nil, of "grow lib" None "ms_heap s" "Some DisableHTTP2" t "ms_heap s'"] by auto
  from * show "sl_len t < sl_cap t \<longleftrightarrow> \<not> enableHTTP2 f \<and> 1 < grow lib 0 1"
    by (auto simp: append1_def nil_slice_def Let_def split: if_splits)
qed

lemma no_manager_in_new_calls: "prefix ys (new_calls w) \<Longrightarrow> NewManagerCall opts \<notin> set ys"
  by (auto simp: new_calls_def dest!: set_mono_prefix split: option.splits cert_watcher.splits)

lemma boot_calls_manager:
  "prefix ys (boot_calls opts mw ww) \<Longrightarrow> NewManagerCall o' \<in> set ys \<Longrightarrow> o' = opts"
  by (auto simp: boot_calls_def add_calls_def dest!: set_mono_prefix split: option.splits)

text \<open>A program that got as far as the manager has the options of the flags.\<close>

lemma main_reaches_manager:
  assumes parse: "flag_Parse (bound_flags lib) args default_flags = Inr f"
    and run: "main lib args s = (r, s')" and start: "ms_calls s = []"
    and o: "NewManagerCall opts \<in> set (ms_calls s')"
  obtains t s1 wt s2 mt s3 where "common_TLSOpts lib f s = (Ok t, s1)"
    "with_certificate lib (webhookCertPath f) (webhookCertName f) (webhookCertKey f) t s1 = (Ok (webhook_watcher f, wt), s2)"
    "with_certificate lib (metricsCertPath f) (metricsCertName f) (metricsCertKey f) t s2 = (Ok (metrics_watcher f, mt), s3)"
    "opts = options_of f mt wt" "ms_heap s' = ms_heap s3"
proof -
  let ?web = "with_certificate lib (webhookCertPath f) (webhookCertName f) (webhookCertKey f)"
  let ?met = "with_certificate lib (metricsCertPath f) (metricsCertName f) (metricsCertKey f)"
  obtain t s1 where c: "common_TLSOpts lib f s = (Ok t, s1)"
    by (cases "common_TLSOpts lib f s")
      (auto simp: common_TLSOpts_def append_opt_def ret_def split: if_splits prod.splits)
  have s1: "ms_calls s1 = []" by (rule doesE [OF does_common_TLSOpts c]) (auto simp: start)
  obtain r2 s2 where w: "?web t s1 = (r2, s2)" by (cases "?web t s1")
  have s2: "NewManagerCall opts \<notin> set (ms_calls s2)"
    by (rule doesE [OF does_with_certificate w]) (auto simp: s1 no_manager_in_new_calls)
  have "\<exists>x. r2 = Ok x"
    using run o s2 by (cases r2) (auto simp: main_def parse bind_def c w)
  then obtain ww wt where r2: "r2 = Ok (ww, wt)" by force
  note w = w [unfolded r2]
  obtain r3 s3 where m: "?met t s2 = (r3, s3)" by (cases "?met t s2")
  have s3: "NewManagerCall opts \<notin> set (ms_calls s3)"
    by (rule doesE [OF does_with_certificate m]) (auto simp: s2 no_manager_in_new_calls)
  have "\<exists>x. r3 = Ok x"
    using run o s3 by (cases r3) (auto simp: main_def parse bind_def c w m)
  then obtain mw mt where r3: "r3 = Ok (mw, mt)" by force
  note m = m [unfolded r3]
  have rm: "run_manager lib (options_of f mt wt) mw ww s3 = (r, s')"
    using run by (simp add: main_def parse bind_def c w m options_of_def)
  have "opts = options_of f mt wt"
    by (rule doesE [OF does_run_manager rm]) (use o s3 boot_calls_manager in auto)
  moreover have "ms_heap s' = ms_heap s3" using upholdsD [OF heap_kept_run_manager rm] .
  moreover have "ww = webhook_watcher f" "mw = metrics_watcher f"
    using with_certificate_watcher [OF w] with_certificate_watcher [OF m]
    by (simp_all add: webhook_watcher_def metrics_watcher_def)
  ultimately show thesis using that c w m by blast
qed

text \<open>What a server's configuration becomes when its options are applied.\<close>

definition server_config :: "tls_opt option list list \<Rightarrow> slice \<Rightarrow> tls_config \<Rightarrow> tls_config" where
  "server_config h s c = fold (\<lambda>x. tls_func (the x)) (elems h s) c"

definition http1_unless :: "bool \<Rightarrow> tls_config \<Rightarrow> tls_config" where
  "http1_unless b c = (if b then c else c\<lparr>NextProtos := [''http/1.1'']\<rparr>)"

definition certificate_of :: "cert_watcher option \<Rightarrow> tls_config \<Rightarrow> tls_config" where
  "certificate_of w c = (if w = None then c else c\<lparr>GetCertificate := w\<rparr>)"

text \<open>
  The webhook server's options after the metrics server's were built from the same slice \<open>t\<close>.
\<close>

lemma two_certificates:
  assumes "slice_ok h t"
    and "if p then wt = t \<and> h1 = h else append1 g z h t x = (wt, h1)"
    and "if q then mt = t \<and> h2 = h1 else append1 g z h1 t y = (mt, h2)"
  shows "elems h2 mt = elems h t @ (if q then [] else [y])"
    and "elems h2 wt = elems h t @ (if p then [] else if \<not> q \<and> sl_len t < sl_cap t then [y] else [x])"
proof -
  have t1: "slice_ok h1 t" "elems h1 t = elems h t"
    using assms(1, 2) append1_frame [of h t g z t x wt h1] by (auto split: if_splits)
  show "elems h2 mt = elems h t @ (if q then [] else [y])"
    using assms(3) append1_elems [OF t1(1), of g z y mt h2] t1(2) by (auto split: if_splits)
  consider "p" | "\<not> p" "q" | "\<not> p" "\<not> q" "sl_len t < sl_cap t" | "\<not> p" "\<not> q" "sl_cap t \<le> sl_len t" by linarith
  then show "elems h2 wt = elems h t @ (if p then [] else if \<not> q \<and> sl_len t < sl_cap t then [y] else [x])"
  proof cases
    case 1
    with assms t1 show ?thesis using append1_frame [of h1 t g z t y mt h2] by (auto split: if_splits)
  next
    case 2
    with assms show ?thesis using append1_elems [OF assms(1), of g z x wt h1] by simp
  next
    case 3
    with assms show ?thesis using append1_overwrites [OF assms(1) 3(3)] by simp
  next
    case 4
    with assms have a: "append1 g z h t x = (wt, h1)" "append1 g z h1 t y = (mt, h2)" by simp_all
    have "elems h2 wt = elems h1 wt"
      using append1_frame [OF append1_ok [OF assms(1) a(1)] a(2)] 4(3) by simp
    with 4 show ?thesis using append1_elems [OF assms(1) a(1)] by simp
  qed
qed

text \<open>
  C35. The options the manager gets from the flags: without \<open>--enable-http2\<close> both servers are limited
  to HTTP/1.1, each takes the certificate of its own watcher, and the metrics are served behind
  authentication exactly when they are served securely. The one exception is a run-time system that
  gives a one-element array spare room: then the two servers share it, and the webhook server
  would serve the certificate of the metrics server.
\<close>

theorem servers_tls:
  assumes "flag_Parse (bound_flags lib) args default_flags = Inr f"
    and "main lib args s = (r, s')" and "ms_calls s = []" and "NewManagerCall opts \<in> set (ms_calls s')"
  shows "server_config (ms_heap s') (mo_TLSOpts (op_Metrics opts)) c =
           certificate_of (metrics_watcher f) (http1_unless (enableHTTP2 f) c) \<and>
         server_config (ms_heap s') (op_WebhookTLSOpts opts) c =
           certificate_of
             (if webhook_watcher f \<noteq> None \<and> metrics_watcher f \<noteq> None \<and> \<not> enableHTTP2 f \<and> 1 < grow lib 0 1
              then metrics_watcher f else webhook_watcher f) (http1_unless (enableHTTP2 f) c) \<and>
         mo_SecureServing (op_Metrics opts) = secureMetrics f \<and>
         (mo_FilterProvider (op_Metrics opts) \<noteq> None \<longleftrightarrow> secureMetrics f)"
proof -
  obtain t s1 wt s2 mt s3 where c: "common_TLSOpts lib f s = (Ok t, s1)"
    and w: "with_certificate lib (webhookCertPath f) (webhookCertName f) (webhookCertKey f) t s1 = (Ok (webhook_watcher f, wt), s2)"
    and m: "with_certificate lib (metricsCertPath f) (metricsCertName f) (metricsCertKey f) t s2 = (Ok (metrics_watcher f, mt), s3)"
    and o: "opts = options_of f mt wt" and h: "ms_heap s' = ms_heap s3"
    by (rule main_reaches_manager [OF assms])
  note e = two_certificates [OF common_TLSOpts_heap(1) [OF c] with_certificate_heap [OF w] with_certificate_heap [OF m]]
  have some: "(webhookCertPath f = []) = (webhook_watcher f = None)" "(metricsCertPath f = []) = (metrics_watcher f = None)"
    by (simp_all add: webhook_watcher_def metrics_watcher_def watcher_of_def)
  show ?thesis
    by (auto simp: h o options_of_def ctrl_Options_def metrics_server_options_def server_config_def e
      common_TLSOpts_heap [OF c] some http1_unless_def certificate_of_def webhook_watcher_def [symmetric]
      metrics_watcher_def [symmetric])
qed

theorem servers_tls_witness:
  "GetCertificate (server_config
       (ms_heap (snd (main (sample_lib (\<lambda>_ n. n) []) (print_flags tls_flags) sample_start)))
       \<lparr>sl_array = 1, sl_len = 2, sl_cap = 2\<rparr> \<lparr>NextProtos = [], GetCertificate = None\<rparr>) =
     Some (CertWatcher ''/webhook/tls.crt'' ''/webhook/tls.key'') \<and>
   GetCertificate (server_config
       (ms_heap (snd (main (sample_lib (\<lambda>_ n. 4) []) (print_flags tls_flags) sample_start)))
       \<lparr>sl_array = 0, sl_len = 2, sl_cap = 4\<rparr> \<lparr>NextProtos = [], GetCertificate = None\<rparr>) =
     Some (CertWatcher ''/metrics/tls.crt'' ''/metrics/tls.key'')"
proof -
  have parse: "flag_Parse (bound_flags (sample_lib g [])) (print_flags tls_flags) default_flags = Inr tls_flags" for g
    using flag_Parse_print [of _ tls_flags "[]"] by simp
  have start: "ms_calls sample_start = []" by (simp add: sample_start_def)
  have w: "webhook_watcher tls_flags = Some (CertWatcher ''/webhook/tls.crt'' ''/webhook/tls.key'')"
    "metrics_watcher tls_flags = Some (CertWatcher ''/metrics/tls.crt'' ''/metrics/tls.key'')"
    "\<not> enableHTTP2 tls_flags"
    by code_simp+
  have g: "grow (sample_lib g []) = g" for g by (simp add: sample_lib_def)
  have "NewManagerCall (options_of tls_flags \<lparr>sl_array = 2, sl_len = 2, sl_cap = 2\<rparr> \<lparr>sl_array = 1, sl_len = 2, sl_cap = 2\<rparr>)
      \<in> set (ms_calls (snd (main (sample_lib (\<lambda>_ n. n) []) (print_flags tls_flags) sample_start)))"
    by (simp add: sample_main options_of_def ctrl_Options_def metrics_server_options_def)
  note 1 = servers_tls [OF parse prod.collapse [symmetric] start this, of "\<lparr>NextProtos = [], GetCertificate = None\<rparr>"]
  have "NewManagerCall (options_of tls_flags \<lparr>sl_array = 0, sl_len = 2, sl_cap = 4\<rparr> \<lparr>sl_array = 0, sl_len = 2, sl_cap = 4\<rparr>)
      \<in> set (ms_calls (snd (main (sample_lib (\<lambda>_ n. 4) []) (print_flags tls_flags) sample_start)))"
    by (simp add: sample_main options_of_def ctrl_Options_def metrics_server_options_def)
  note 2 = servers_tls [OF parse prod.collapse [symmetric] start this, of "\<lparr>NextProtos = [], GetCertificate = None\<rparr>"]
  from 1 2 show ?thesis
    by (simp add: w g options_of_def ctrl_Options_def certificate_of_def http1_unless_def)
qed

section \<open>Metrics\<close>

text \<open>A list of collectors with distinct names is taken by a registry that refuses only taken names.\<close>

lemma registers_distinct:
  assumes accepts: "\<And>m r. col_Name m \<notin> set (names r) \<Longrightarrow> \<exists>r'. reg m r = Inr r' \<and> names r' = names r @ [col_Name m]"
    and "distinct (names r @ map col_Name ms)"
  shows "\<exists>r'. forM (\<lambda>m s. case reg m s of Inl e \<Rightarrow> (Panic (Error e), s) | Inr s' \<Rightarrow> (Ok (), s')) ms r = (Ok (), r') \<and>
           names r' = names r @ map col_Name ms"
  using assms(2)
proof (induction ms arbitrary: r)
  case Nil
  then show ?case by (simp add: ret_def)
next
  case (Cons m ms)
  then obtain r1 where 1: "reg m r = Inr r1" "names r1 = names r @ [col_Name m]"
    using accepts [of m r] by auto
  with Cons.prems have "distinct (names r1 @ map col_Name ms)" by auto
  from Cons.IH [OF this] 1 show ?case by (auto simp: bind_def)
qed

text \<open>
  On a registry that refuses a collector only when its name is taken, registering the
  operator's metrics never panics, and leaves a registry with exactly these five names in
  order, whatever the default registry held before.
\<close>

theorem metrics_registered:
  assumes "names new_reg = []"
    and "\<And>m r. col_Name m \<notin> set (names r) \<Longrightarrow> \<exists>r'. reg m r = Inr r' \<and> names r' = names r @ [col_Name m]"
  shows "\<exists>r'. RegisterMetrics new_reg reg old = (Ok (), r') \<and> names r' = map col_Name metricsList"
  using registers_distinct [of names reg new_reg metricsList, OF assms(2)] metricsList_names_distinct assms(1)
  by (auto simp: RegisterMetrics_def bind_def modify_def)

theorem metrics_registered_witness:
  "\<exists>r'. RegisterMetrics [] sample_register [''go_goroutines''] = (Ok (), r') \<and> length r' = 5"
proof -
  have "\<exists>r'. RegisterMetrics [] sample_register [''go_goroutines''] = (Ok (), r') \<and> id r' = map col_Name metricsList"
    by (rule metrics_registered) (auto simp: sample_register_def)
  then show ?thesis by (auto simp: metricsList_def)
qed

end
