(* ===== verification/Field_Indexes.thy ===== *)
theory Field_Indexes
  imports Sample_Runs
begin

text \<open>
  The field indexes of \<open>SetupWithManager\<close> against the lists of the recovery: the manager's cache refuses a
  list by a field without an index, so every field that a run filters by has to be registered.
\<close>

section \<open>What the set-up registers\<close>

text \<open>\<open>index m k f\<close> is the index function that the manager \<open>m\<close> has for the field \<open>f\<close> of the kind \<open>k\<close>.\<close>

definition records_indexes ::
  "('m, 'w) manager \<Rightarrow> ('m \<Rightarrow> kind \<Rightarrow> string \<Rightarrow> (client_object \<Rightarrow> string list) option) \<Rightarrow> bool" where
  "records_indexes mgr index \<longleftrightarrow>
     (\<forall>k f g m m'. IndexField mgr k f g m = Inr m' \<longrightarrow> index m' = (index m)(k := (index m k)(f \<mapsto> g))) \<and>
     (\<forall>k p k' rec m m'. Complete mgr k p k' rec m = Inr m' \<longrightarrow> index m' = index m)"

lemma setup_registers:
  assumes "SetupWithManager r mgr m = Inr m'" and "records_indexes mgr index"
  shows "index m' KPod podStatusPhaseFieldSelector = Some index_pod_phase"
    and "index m' KPersistentVolumeClaim pvcStatusPhaseFieldSelector = Some index_pvc_phase"
proof -
  from assms(1) obtain m1 m2 where
    "IndexField mgr KPod podStatusPhaseFieldSelector index_pod_phase m = Inr m1"
    "IndexField mgr KPersistentVolumeClaim pvcStatusPhaseFieldSelector index_pvc_phase m1 = Inr m2"
    "Complete mgr KNodeRecovery ''GenerationChangedPredicate'' KNodeRecovery (controller_Reconcile r) m2 = Inr m'"
    by (auto simp: SetupWithManager_def split: sum.splits)
  with assms(2) have "index m' = index m2"
    "index m2 = (index m1)(KPersistentVolumeClaim := (index m1 KPersistentVolumeClaim)(pvcStatusPhaseFieldSelector \<mapsto> index_pvc_phase))"
    "index m1 = (index m)(KPod := (index m KPod)(podStatusPhaseFieldSelector \<mapsto> index_pod_phase))"
    unfolding records_indexes_def by blast+
  then show "index m' KPod podStatusPhaseFieldSelector = Some index_pod_phase"
    "index m' KPersistentVolumeClaim pvcStatusPhaseFieldSelector = Some index_pvc_phase" by simp_all
qed

section \<open>What a run lists\<close>

text \<open>A list that the cache can answer; every other request can be made.\<close>

fun list_served :: "effect \<Rightarrow> bool" where
  "list_served (ListCall k l) = list_indexed k l"
| "list_served _ = True"

lemma step_effect_served: "step_effect ty e \<Longrightarrow> list_served e"
  by (cases e) simp_all

lemma run_lists_served:
  assumes "controller_Reconcile (wired_controller c) req s = (out, s')"
  shows "\<exists>es. trace s' = trace s @ es \<and> list_all list_served es"
proof -
  have "grows list_served s1 (snd (Reconcile (wired c) s1))" for s1 :: "'a st"
    using wr.wp_Reconcile_effects [of c s1] step_effect_served
    by (auto simp: wp_def case_prod_beta intro: grows_mono)
  then have "grows list_served s s'" by (intro controller_traces [OF assms]) simp_all
  then show ?thesis by (simp add: grows_def)
qed

text \<open>
  C36. Once \<open>SetupWithManager\<close> has succeeded, every list that a run of the controller asks for can be answered
  from the manager's cache: it filters by at most one field, and that field has an index of its kind, which gives the phase
  of the pod or of the claim.
\<close>

theorem field_selectors_indexed:
  assumes "SetupWithManager r mgr m = Inr m'" and "records_indexes mgr index"
    and "controller_Reconcile (wired_controller c) req s = (out, s')"
  shows "\<exists>es. trace s' = trace s @ es \<and>
    (\<forall>k l. ListCall k l \<in> set es \<longrightarrow> length (lo_MatchingFields l) \<le> 1 \<and>
      (\<forall>(field, v)\<in>set (lo_MatchingFields l).
         k = KPod \<and> (\<exists>g. index m' k field = Some g \<and> (\<forall>p. g (OPod p) = [pod_Phase p])) \<or>
         k = KPersistentVolumeClaim \<and> (\<exists>g. index m' k field = Some g \<and> (\<forall>p. g (OPVC p) = [pvc_Phase p]))))"
proof -
  obtain es where es: "trace s' = trace s @ es" "list_all list_served es"
    using run_lists_served [OF assms(3)] by blast
  note registered = setup_registers [OF assms(1,2)]
  have "length (lo_MatchingFields l) \<le> 1 \<and>
      (\<forall>(field, v)\<in>set (lo_MatchingFields l).
         k = KPod \<and> (\<exists>g. index m' k field = Some g \<and> (\<forall>p. g (OPod p) = [pod_Phase p])) \<or>
         k = KPersistentVolumeClaim \<and> (\<exists>g. index m' k field = Some g \<and> (\<forall>p. g (OPVC p) = [pvc_Phase p])))"
    if "ListCall k l \<in> set es" for k l
  proof -
    from es(2) that have "list_indexed k l" by (auto simp: list_all_iff)
    then show ?thesis
      using registered by (auto simp: list_indexed_def field_indexes_def list_all_iff index_pod_phase_def index_pvc_phase_def)
  qed
  with es(1) show ?thesis by blast
qed

text \<open>A manager that keeps its registrations in a list.\<close>

definition index_manager ::
  "((kind \<times> string \<times> (client_object \<Rightarrow> string list)) list, cluster) manager" where
  "index_manager = \<lparr>IndexField = (\<lambda>k f g m. Inr ((k, f, g) # m)), Complete = (\<lambda>k p k' rec m. Inr m)\<rparr>"

definition lookup_index ::
  "(kind \<times> string \<times> (client_object \<Rightarrow> string list)) list \<Rightarrow> kind \<Rightarrow> string \<Rightarrow> (client_object \<Rightarrow> string list) option" where
  "lookup_index m k f = map_of (map (\<lambda>(k, f, g). ((k, f), g)) m) (k, f)"

lemma index_manager_records: "records_indexes index_manager lookup_index"
  by (auto simp: records_indexes_def index_manager_def lookup_index_def fun_eq_iff)

fun lists_of :: "effect \<Rightarrow> (kind \<times> ListOptions) list" where
  "lists_of (ListCall k l) = [(k, l)]"
| "lists_of _ = []"

lemma lists_of_iff: "(k, l) \<in> set (lists_of e) \<longleftrightarrow> e = ListCall k l"
  by (cases e) auto

theorem field_selectors_indexed_witness:
  "\<exists>l field g. ListCall KPod l \<in> set (trace (snd (run_in healthy (running_at (take 4 short_path))))) \<and>
     lo_MatchingFields l = [(field, PodPending)] \<and>
     lookup_index [(KPersistentVolumeClaim, pvcStatusPhaseFieldSelector, index_pvc_phase),
       (KPod, podStatusPhaseFieldSelector, index_pod_phase)] KPod field = Some g \<and> g (OPod tools_pod) = [''Running'']"
proof -
  let ?i = "running_at (take 4 short_path)"
  let ?l = "(in_namespace ODF_NAMESPACE)\<lparr>lo_MatchingFields := [(podStatusPhaseFieldSelector, PodPending)],
      lo_MatchingLabels := [(''app'', ''rook-ceph-osd'')]\<rparr>"
  have registered: "SetupWithManager (wired_controller sample) index_manager [] =
      Inr [(KPersistentVolumeClaim, pvcStatusPhaseFieldSelector, index_pvc_phase), (KPod, podStatusPhaseFieldSelector, index_pod_phase)]"
    by (simp add: SetupWithManager_def index_manager_def)
  have run: "controller_Reconcile (wired_controller sample) recovery_key (at_rest (healthy ?i) ?i) =
      (fst (run_in healthy ?i), snd (run_in healthy ?i))"
    by (simp add: run_in_def)
  have "(KPod, ?l) \<in> set (concat (map lists_of (trace (snd (run_in healthy ?i)))))" by code_simp
  then have listed: "ListCall KPod ?l \<in> set (trace (snd (run_in healthy ?i)))" by (auto simp: lists_of_iff)
  with field_selectors_indexed [OF registered index_manager_records run]
  obtain g where "lookup_index [(KPersistentVolumeClaim, pvcStatusPhaseFieldSelector, index_pvc_phase),
       (KPod, podStatusPhaseFieldSelector, index_pod_phase)] KPod podStatusPhaseFieldSelector = Some g"
    "\<forall>p. g (OPod p) = [pod_Phase p]" by fastforce
  with listed show ?thesis
    by (intro exI [of _ ?l] exI [of _ podStatusPhaseFieldSelector] exI [of _ g]) (simp add: tools_pod_def)
qed

end
