(* ===== verification/Privileged_Pod.thy ===== *)
theory Privileged_Pod
  imports Go_Stdlib
begin

text \<open>
  The privileged pod runner, \<open>src/internal/controller/pod/privileged_pod.go\<close>: a temporary
  namespace whose labels allow privileged pods, a pod on a given node with the node's file system,
  and a function that deletes the namespace. The client set is the library's (record
  \<open>clientset\<close>); the requests are recorded in order.
\<close>

section \<open>Objects\<close>

record Namespace =
  ns_Name :: string
  ns_GenerateName :: string
  ns_Labels :: "(string \<times> string) list"
  ns_Annotations :: "(string \<times> string) list"

record VolumeMount =
  vm_MountPath :: string
  vm_Name :: string

record EnvVar =
  env_Name :: string
  env_Value :: string

record SecurityContext =
  RunAsUser :: "int option"
  Privileged :: "bool option"

record Container =
  ct_Name :: string
  ct_Image :: string
  ct_ImagePullPolicy :: string
  ct_TerminationMessagePolicy :: string
  ct_VolumeMounts :: "VolumeMount list"
  ct_Command :: "string list"
  ct_Env :: "EnvVar list"
  ct_TTY :: bool
  ct_Stdin :: bool
  ct_StdinOnce :: bool
  ct_SecurityContext :: "SecurityContext option"

record Volume =
  vol_Name :: string
  vol_HostPath :: "string option"

record Toleration =
  tol_Operator :: string

record RunnerPod =
  rp_Name :: string
  rp_GenerateName :: string
  rp_Namespace :: string
  rp_Containers :: "Container list"
  rp_HostIPC :: bool
  rp_HostNetwork :: bool
  rp_HostPID :: bool
  rp_NodeName :: string
  rp_RestartPolicy :: string
  rp_Volumes :: "Volume list"
  rp_Tolerations :: "Toleration list"

section \<open>The client set\<close>

datatype runner_call =
    CreateNamespace Namespace
  | DeleteNamespace string
  | CreatePod string RunnerPod

text \<open>The label keys and the level are constants of the pod security admission library.\<close>

record 'w clientset =
  Namespaces_Create :: "Namespace \<Rightarrow> 'w \<Rightarrow> (go_error + Namespace) \<times> 'w"
  Namespaces_Delete :: "string \<Rightarrow> 'w \<Rightarrow> (go_error + unit) \<times> 'w"
  Pods_Create :: "string \<Rightarrow> RunnerPod \<Rightarrow> 'w \<Rightarrow> (go_error + RunnerPod) \<times> 'w"
  EnforceLevelLabel :: string
  AuditLevelLabel :: string
  WarnLevelLabel :: string
  LevelPrivileged :: string

record 'w runner_st =
  rs_world :: 'w
  rs_calls :: "runner_call list"

type_synonym ('w, 'a) runner = "('w runner_st, go_error, 'a) comp"

definition request :: "runner_call \<Rightarrow> ('w \<Rightarrow> (go_error + 'a) \<times> 'w) \<Rightarrow> ('w, 'a) runner" where
  "request e f s =
     (case f (rs_world s) of (r, w) \<Rightarrow>
        (case r of Inl err \<Rightarrow> Err err | Inr x \<Rightarrow> Ok x, s\<lparr>rs_world := w, rs_calls := rs_calls s @ [e]\<rparr>))"

section \<open>The runner\<close>

record 'w Runner =
  kcli :: "'w clientset"

text \<open>\<open>NewRunner\<close> panics when the client set cannot be built; \<open>newForConfig\<close> gives its error or the client set.\<close>

definition NewRunner :: "('cfg \<Rightarrow> 'w \<Rightarrow> go_error + 'w clientset) \<Rightarrow> 'cfg \<Rightarrow> ('w, 'w Runner) runner" where
  "NewRunner newForConfig config =
     bind (NewForConfigOrDie (\<lambda>s. newForConfig config (rs_world s))) (\<lambda>cs. ret \<lparr>kcli = cs\<rparr>)"

definition IMAGE_PULLSPEC :: string where
  "IMAGE_PULLSPEC = ''registry.redhat.io/rhel8/support-tools''"

definition tmpNS :: "'w Runner \<Rightarrow> Namespace" where
  "tmpNS c =
     \<lparr>ns_Name = [], ns_GenerateName = ''odf-node-recovery-'',
      ns_Labels =
        [(EnforceLevelLabel (kcli c), LevelPrivileged (kcli c)),
         (AuditLevelLabel (kcli c), LevelPrivileged (kcli c)),
         (WarnLevelLabel (kcli c), LevelPrivileged (kcli c)),
         (''security.openshift.io/scc.podSecurityLabelSync'', ''false'')],
      ns_Annotations = [(''openshift.io/node-selector'', [])]\<rparr>"

text \<open>The function that deletes the namespace; its error is only logged.\<close>

definition cleanup :: "'w Runner \<Rightarrow> string \<Rightarrow> ('w, unit) runner" where
  "cleanup c name =
     onErr (request (DeleteNamespace name) (Namespaces_Delete (kcli c) name)) (\<lambda>_. ret ())"

definition createNamespace :: "'w Runner \<Rightarrow> ('w, string \<times> ('w, unit) runner) runner" where
  "createNamespace c =
     bind (onErr (request (CreateNamespace (tmpNS c)) (Namespaces_Create (kcli c) (tmpNS c)))
             (\<lambda>err. throw (ErrorString (''unable to create temporary namespace '' @ ns_Name (tmpNS c) @ '': '' @ Error err))))
       (\<lambda>ns. ret (ns_Name ns, cleanup c (ns_Name ns)))"

definition runner_pod :: "string \<Rightarrow> string \<Rightarrow> RunnerPod" where
  "runner_pod namespaceName nodeName =
     \<lparr>rp_Name = [], rp_GenerateName = ''node-runner-'' @ nodeName, rp_Namespace = namespaceName,
      rp_Containers =
        [\<lparr>ct_Name = ''debugger'', ct_Image = IMAGE_PULLSPEC, ct_ImagePullPolicy = ''IfNotPresent'',
          ct_TerminationMessagePolicy = ''File'',
          ct_VolumeMounts = [\<lparr>vm_MountPath = ''/host'', vm_Name = ''host-root''\<rparr>],
          ct_Command = [''/bin/sh''], ct_Env = [\<lparr>env_Name = ''TMOUT'', env_Value = ''900''\<rparr>],
          ct_TTY = True, ct_Stdin = True, ct_StdinOnce = True,
          ct_SecurityContext = Some \<lparr>RunAsUser = Some 0, Privileged = Some True\<rparr>\<rparr>],
      rp_HostIPC = True, rp_HostNetwork = False, rp_HostPID = False, rp_NodeName = nodeName,
      rp_RestartPolicy = ''Never'',
      rp_Volumes = [\<lparr>vol_Name = ''host-root'', vol_HostPath = Some ''/''\<rparr>],
      rp_Tolerations = [\<lparr>tol_Operator = ''Exists''\<rparr>]\<rparr>"

definition deployNodeRunnerPod :: "'w Runner \<Rightarrow> string \<Rightarrow> string \<Rightarrow> ('w, RunnerPod) runner" where
  "deployNodeRunnerPod c namespaceName nodeName =
     (let p = runner_pod namespaceName nodeName in
      onErr (request (CreatePod namespaceName p) (Pods_Create (kcli c) namespaceName p))
        (\<lambda>err. throw (ErrorString (''unable to create node runner pod in namespace '' @ namespaceName @ '': '' @ Error err))))"

definition Initialize :: "'w Runner \<Rightarrow> string \<Rightarrow> ('w, RunnerPod \<times> ('w, unit) runner) runner" where
  "Initialize c nodeName =
     bind (createNamespace c) (\<lambda>(nsName, cleanup').
     bind (deployNodeRunnerPod c nsName nodeName) (\<lambda>pod.
     ret (pod, cleanup')))"

section \<open>Execution\<close>

text \<open>The three ways an initialisation ends.\<close>

lemma Initialize_cases:
  assumes "Initialize c node s = (r, s')"
  obtains
    (no_namespace) e w where "Namespaces_Create (kcli c) (tmpNS c) (rs_world s) = (Inl e, w)"
      "r = Err (ErrorString (''unable to create temporary namespace '' @ '': '' @ Error e))"
      "s' = s\<lparr>rs_world := w, rs_calls := rs_calls s @ [CreateNamespace (tmpNS c)]\<rparr>"
  | (no_pod) ns w e w' where "Namespaces_Create (kcli c) (tmpNS c) (rs_world s) = (Inr ns, w)"
      "Pods_Create (kcli c) (ns_Name ns) (runner_pod (ns_Name ns) node) w = (Inl e, w')"
      "r = Err (ErrorString (''unable to create node runner pod in namespace '' @ ns_Name ns @ '': '' @ Error e))"
      "s' = s\<lparr>rs_world := w',
             rs_calls := rs_calls s @ [CreateNamespace (tmpNS c), CreatePod (ns_Name ns) (runner_pod (ns_Name ns) node)]\<rparr>"
  | (deployed) ns w pod w' where "Namespaces_Create (kcli c) (tmpNS c) (rs_world s) = (Inr ns, w)"
      "Pods_Create (kcli c) (ns_Name ns) (runner_pod (ns_Name ns) node) w = (Inr pod, w')"
      "r = Ok (pod, cleanup c (ns_Name ns))"
      "s' = s\<lparr>rs_world := w',
             rs_calls := rs_calls s @ [CreateNamespace (tmpNS c), CreatePod (ns_Name ns) (runner_pod (ns_Name ns) node)]\<rparr>"
proof (cases "Namespaces_Create (kcli c) (tmpNS c) (rs_world s)")
  case (Pair a w)
  show thesis
  proof (cases a)
    case (Inl e)
    with Pair assms no_namespace show thesis
      by (simp add: Initialize_def createNamespace_def request_def bind_def onErr_def throw_def tmpNS_def)
  next
    case (Inr ns)
    obtain b w' where p: "Pods_Create (kcli c) (ns_Name ns) (runner_pod (ns_Name ns) node) w = (b, w')" by (cases "Pods_Create (kcli c) (ns_Name ns) (runner_pod (ns_Name ns) node) w")
    note run = Initialize_def createNamespace_def deployNodeRunnerPod_def request_def bind_def onErr_def throw_def ret_def Let_def
    show thesis
    proof (cases b)
      case (Inl e)
      with Pair Inr p assms no_pod show thesis by (simp add: run)
    next
      case b: (Inr pod)
      with Pair Inr p assms deployed show thesis by (simp add: run)
    qed
  qed
qed

lemma cleanup_run:
  "cleanup c n s =
     (Ok (), s\<lparr>rs_world := snd (Namespaces_Delete (kcli c) n (rs_world s)), rs_calls := rs_calls s @ [DeleteNamespace n]\<rparr>)"
  by (simp add: cleanup_def request_def onErr_def ret_def split: prod.splits sum.splits)

section \<open>Properties\<close>

text \<open>What the API server requires of a pod: named containers, and mounts of declared volumes only.\<close>

definition pod_wf :: "RunnerPod \<Rightarrow> bool" where
  "pod_wf p \<longleftrightarrow>
     rp_Name p @ rp_GenerateName p \<noteq> [] \<and> rp_Containers p \<noteq> [] \<and>
     distinct (map ct_Name (rp_Containers p)) \<and> distinct (map vol_Name (rp_Volumes p)) \<and>
     (\<forall>ct\<in>set (rp_Containers p). ct_Name ct \<noteq> [] \<and> ct_Image ct \<noteq> [] \<and>
        vm_Name ` set (ct_VolumeMounts ct) \<subseteq> vol_Name ` set (rp_Volumes p))"

definition host_access :: "RunnerPod \<Rightarrow> bool" where
  "host_access p \<longleftrightarrow>
     (\<exists>v\<in>set (rp_Volumes p). vol_HostPath v = Some ''/'' \<and>
        (\<forall>ct\<in>set (rp_Containers p).
           \<lparr>vm_MountPath = ''/host'', vm_Name = vol_Name v\<rparr> \<in> set (ct_VolumeMounts ct) \<and>
           ct_SecurityContext ct = Some \<lparr>RunAsUser = Some 0, Privileged = Some True\<rparr>))"

text \<open>
  C38. The only pod the runner asks for is well formed, pinned to the given node, in the namespace
  that it has just created with the labels that admit privileged pods, and sees the node's root
  file system at \<open>/host\<close> as privileged root.
\<close>

theorem runner_pod_typed:
  assumes "Initialize c node s = (r, s')" and "rs_calls s = []" and "CreatePod n p \<in> set (rs_calls s')"
  shows "pod_wf p \<and> host_access p \<and> rp_NodeName p = node \<and> rp_Namespace p = n \<and>
         (\<exists>ns w. Namespaces_Create (kcli c) (tmpNS c) (rs_world s) = (Inr ns, w) \<and> ns_Name ns = n) \<and>
         (\<forall>k\<in>{EnforceLevelLabel (kcli c), AuditLevelLabel (kcli c), WarnLevelLabel (kcli c)}.
            (k, LevelPrivileged (kcli c)) \<in> set (ns_Labels (tmpNS c)))"
proof -
  have labels: "\<forall>k\<in>{EnforceLevelLabel (kcli c), AuditLevelLabel (kcli c), WarnLevelLabel (kcli c)}.
      (k, LevelPrivileged (kcli c)) \<in> set (ns_Labels (tmpNS c))"
    by (simp add: tmpNS_def)
  have pod: "pod_wf (runner_pod m node)" "host_access (runner_pod m node)" "rp_NodeName (runner_pod m node) = node"
    "rp_Namespace (runner_pod m node) = m" for m
    by (simp_all add: pod_wf_def host_access_def runner_pod_def IMAGE_PULLSPEC_def)
  from assms(1) show ?thesis
    by (rule Initialize_cases) (use assms(2, 3) labels in \<open>auto simp: pod\<close>)
qed

text \<open>
  C39. On a server where \<open>live w\<close> are the namespaces, an initialisation that succeeds adds exactly one
  new namespace, and the function it returns never fails and, if the server does not refuse,
  restores the namespaces of before. An initialisation that fails on the pod leaves the
  new namespace behind: nobody has the function that would delete it.
\<close>

theorem runner_namespaces:
  fixes c :: "'w Runner"
  assumes create: "\<And>w r w'. Namespaces_Create (kcli c) (tmpNS c) w = (r, w') \<Longrightarrow>
      (case r of Inl _ \<Rightarrow> live w' = live w | Inr ns \<Rightarrow> ns_Name ns \<notin> live w \<and> live w' = insert (ns_Name ns) (live w))"
    and delete: "\<And>n w r w'. Namespaces_Delete (kcli c) n w = (r, w') \<Longrightarrow> live w' = (if isl r then live w else live w - {n})"
    and pods: "\<And>n p w. live (snd (Pods_Create (kcli c) n p w)) = live w"
    and run: "Initialize c node s = (r, s')"
  shows "case r of
      Ok (pod, undo) \<Rightarrow>
        (\<exists>n. n \<notin> live (rs_world s) \<and> live (rs_world s') = insert n (live (rs_world s)) \<and>
             fst (undo s') = Ok () \<and>
             live (rs_world (snd (undo s'))) =
               (if isl (fst (Namespaces_Delete (kcli c) n (rs_world s'))) then live (rs_world s')
                else live (rs_world s)))
    | Err e \<Rightarrow>
        (if isl (fst (Namespaces_Create (kcli c) (tmpNS c) (rs_world s))) then live (rs_world s') = live (rs_world s)
         else (\<exists>n. n \<notin> live (rs_world s) \<and> live (rs_world s') = insert n (live (rs_world s))))
    | Panic p \<Rightarrow> False"
  using run
proof (cases rule: Initialize_cases)
  case no_namespace
  with create [OF no_namespace(1)] show ?thesis by simp
next
  case (no_pod ns w e w')
  from pods [of "ns_Name ns" "runner_pod (ns_Name ns) node" w] no_pod(2) have "live w' = live w" by simp
  with no_pod create [OF no_pod(1)] show ?thesis by auto
next
  case (deployed ns w pod w')
  from pods [of "ns_Name ns" "runner_pod (ns_Name ns) node" w] deployed(2) have "live w' = live w" by simp
  with deployed create [OF deployed(1)]
    delete [OF prod.collapse [symmetric], of "ns_Name ns" w']
  show ?thesis by (auto simp: cleanup_run)
qed

text \<open>A server whose world is the list of namespaces, and which refuses pods in \<open>full\<close> ones.\<close>

definition sample_clientset :: "bool \<Rightarrow> string list clientset" where
  "sample_clientset full =
     \<lparr>Namespaces_Create = (\<lambda>ns w.
        let n = ns_GenerateName ns @ concat w in (Inr (ns\<lparr>ns_Name := n\<rparr>), n # w)),
      Namespaces_Delete = (\<lambda>n w. (Inr (), removeAll n w)),
      Pods_Create = (\<lambda>n p w. (if full then Inl (ErrorString ''quota'') else Inr (p\<lparr>rp_Name := rp_GenerateName p\<rparr>), w)),
      EnforceLevelLabel = ''pod-security.kubernetes.io/enforce'',
      AuditLevelLabel = ''pod-security.kubernetes.io/audit'',
      WarnLevelLabel = ''pod-security.kubernetes.io/warn'',
      LevelPrivileged = ''privileged''\<rparr>"

definition sample_runner :: "bool \<Rightarrow> string list Runner" where
  "sample_runner full = \<lparr>kcli = sample_clientset full\<rparr>"

definition sample_runner_st :: "string list runner_st" where
  "sample_runner_st = \<lparr>rs_world = [''default''], rs_calls = []\<rparr>"

lemma length_concat_mem: "x \<in> set xs \<Longrightarrow> length x \<le> length (concat xs)"
  by (induction xs) auto

lemma sample_fresh: "''odf-node-recovery-'' @ concat w \<notin> set w"
  using length_concat_mem [of "''odf-node-recovery-'' @ concat w" w] by auto

theorem runner_pod_typed_witness:
  "pod_wf (runner_pod ''odf-node-recovery-default'' ''node-1'') \<and>
   CreatePod ''odf-node-recovery-default'' (runner_pod ''odf-node-recovery-default'' ''node-1'')
     \<in> set (rs_calls (snd (Initialize (sample_runner False) ''node-1'' sample_runner_st)))"
proof -
  have "CreatePod ''odf-node-recovery-default'' (runner_pod ''odf-node-recovery-default'' ''node-1'')
     \<in> set (rs_calls (snd (Initialize (sample_runner False) ''node-1'' sample_runner_st)))"
    by code_simp
  with runner_pod_typed [OF prod.collapse [symmetric] _ this] show ?thesis
    by (simp add: sample_runner_st_def)
qed

theorem runner_namespaces_witness:
  "\<exists>n. n \<noteq> ''default'' \<and>
     set (rs_world (snd (Initialize (sample_runner True) ''node-1'' sample_runner_st))) = {n, ''default''}"
proof -
  have 1: "(case r of Inl _ \<Rightarrow> set w' = set w | Inr ns \<Rightarrow> ns_Name ns \<notin> set w \<and> set w' = insert (ns_Name ns) (set w))"
    if "Namespaces_Create (kcli (sample_runner True)) (tmpNS (sample_runner True)) w = (r, w')" for w r w'
    using that sample_fresh [of w]
    by (auto simp: sample_runner_def sample_clientset_def tmpNS_def Let_def)
  have 2: "set w' = (if isl r then set w else set w - {n})"
    if "Namespaces_Delete (kcli (sample_runner True)) n w = (r, w')" for n w r w'
    using that by (auto simp: sample_runner_def sample_clientset_def)
  have 3: "set (snd (Pods_Create (kcli (sample_runner True)) n p w)) = set w" for n p w
    by (simp add: sample_runner_def sample_clientset_def)
  obtain e where e: "fst (Initialize (sample_runner True) ''node-1'' sample_runner_st) = Err e"
    by (simp add: sample_runner_def sample_clientset_def Let_def Initialize_def createNamespace_def
      deployNodeRunnerPod_def request_def bind_def onErr_def throw_def ret_def)
  have ok: "\<not> isl (fst (Namespaces_Create (kcli (sample_runner True)) (tmpNS (sample_runner True)) (rs_world sample_runner_st)))"
    by (simp add: sample_runner_def sample_clientset_def Let_def)
  have w: "set (rs_world sample_runner_st) = {''default''}" by (simp add: sample_runner_st_def)
  from runner_namespaces [of "sample_runner True" set "''node-1''" sample_runner_st, OF 1 2 3 prod.collapse [symmetric]]
  show ?thesis unfolding e by (simp add: ok w)
qed

end
