(* ===== verification/Rbac.thy ===== *)
theory Rbac
  imports Sample_Runs Privileged_Pod
begin

text \<open>
  The permissions of the operator: the \<open>+kubebuilder:rbac\<close> markers of
  \<open>src/internal/controller/noderecovery_controller.go\<close>, from which its role is generated, against
  the requests that the controller makes.
\<close>

section \<open>The markers\<close>

record rbac_rule =
  rule_group :: string
  rule_resources :: "string list"
  rule_verbs :: "string list"

definition rbac :: "string \<Rightarrow> string list \<Rightarrow> string list \<Rightarrow> rbac_rule" where
  "rbac g rs vs = \<lparr>rule_group = g, rule_resources = rs, rule_verbs = vs\<rparr>"

definition rbac_markers :: "rbac_rule list" where
  "rbac_markers =
     [rbac ''odf.openshift.io'' [''noderecoveries''] [''get'', ''list'', ''watch'', ''create'', ''update'', ''patch'', ''delete''],
      rbac ''odf.openshift.io'' [''noderecoveries/status''] [''get'', ''update'', ''patch''],
      rbac ''odf.openshift.io'' [''noderecoveries/finalizers''] [''update''],
      rbac ''config.openshift.io'' [''clusterversions''] [''get'', ''list'', ''watch''],
      rbac ''template.openshift.io'' [''templates''] [''get'', ''list'', ''watch''],
      rbac ''ocs.openshift.io'' [''storageclusters'', ''ocsinitializations''] [''get'', ''update'', ''watch'', ''list''],
      rbac '''' [''pods''] [''get'', ''list'', ''delete'', ''watch'', ''deletecollection''],
      rbac '''' [''pods/exec''] [''create''],
      rbac '''' [''pods/log''] [''get''],
      rbac ''apps'' [''deployments''] [''get'', ''list'', ''update'', ''watch''],
      rbac ''batch'' [''jobs''] [''get'', ''delete'', ''list'', ''create'', ''watch''],
      rbac '''' [''nodes''] [''get'', ''update'', ''watch'', ''list''],
      rbac '''' [''persistentvolumes''] [''get'', ''list'', ''watch'', ''delete''],
      rbac '''' [''persistentvolumeclaims''] [''get'', ''list'', ''watch''],
      rbac '''' [''events''] [''create'', ''patch'']]"

text \<open>A permission is a group, a resource and a verb.\<close>

definition granted :: "string \<times> string \<times> string \<Rightarrow> bool" where
  "granted p \<longleftrightarrow>
     (case p of (g, r, v) \<Rightarrow>
        (\<exists>m\<in>set rbac_markers. rule_group m = g \<and> r \<in> set (rule_resources m) \<and> v \<in> set (rule_verbs m)))"

section \<open>What a request needs\<close>

fun kind_resource :: "kind \<Rightarrow> string \<times> string" where
  "kind_resource KPod = ('''', ''pods'')"
| "kind_resource KNode = ('''', ''nodes'')"
| "kind_resource KDeployment = (''apps'', ''deployments'')"
| "kind_resource KPersistentVolume = ('''', ''persistentvolumes'')"
| "kind_resource KPersistentVolumeClaim = ('''', ''persistentvolumeclaims'')"
| "kind_resource KJob = (''batch'', ''jobs'')"
| "kind_resource KTemplate = (''template.openshift.io'', ''templates'')"
| "kind_resource KStorageCluster = (''ocs.openshift.io'', ''storageclusters'')"
| "kind_resource KOCSInitialization = (''ocs.openshift.io'', ''ocsinitializations'')"
| "kind_resource KClusterVersion = (''config.openshift.io'', ''clusterversions'')"
| "kind_resource KNodeRecovery = (''odf.openshift.io'', ''noderecoveries'')"

definition on_kind :: "kind \<Rightarrow> string \<Rightarrow> string \<times> string \<times> string" where
  "on_kind k v = (case kind_resource k of (g, r) \<Rightarrow> (g, r, v))"

text \<open>The manager's client answers reads from a cache, which lists and watches the kind.\<close>

fun needs :: "effect \<Rightarrow> (string \<times> string \<times> string) list" where
  "needs (GetCall k n) = [on_kind k ''get'', on_kind k ''list'', on_kind k ''watch'']"
| "needs (ListCall k l) = [on_kind k ''list'', on_kind k ''watch'']"
| "needs (UpdateNode n) = [on_kind KNode ''update'']"
| "needs (UpdateDeployment d) = [on_kind KDeployment ''update'']"
| "needs (UpdateStorageCluster s) = [on_kind KStorageCluster ''update'']"
| "needs (UpdateOCSInitialization s) = [on_kind KOCSInitialization ''update'']"
| "needs (UpdateStatus i) = [(''odf.openshift.io'', ''noderecoveries/status'', ''update'')]"
| "needs (DeletePod p) = [on_kind KPod ''delete'']"
| "needs (DeletePersistentVolume p) = [on_kind KPersistentVolume ''delete'']"
| "needs (DeleteJob j) = [on_kind KJob ''delete'']"
| "needs (DeleteAllOfPods l g) = [on_kind KPod ''deletecollection'']"
| "needs (CreateObject x) = [(obj_Group x, obj_Resource x, ''create'')]"
| "needs (ExecCall x) = [('''', ''pods/exec'', ''create'')]"
| "needs (LogsCall n p) = [('''', ''pods/log'', ''get'')]"
| "needs (Eventf t r m a) = [('''', ''events'', ''create'')]"
| "needs (CounterInc x) = []"

definition permitted :: "effect \<Rightarrow> bool" where
  "permitted e \<longleftrightarrow> list_all granted (needs e)"

lemma kinds_readable: "granted (on_kind k ''get'')" "granted (on_kind k ''list'')" "granted (on_kind k ''watch'')"
  by (cases k; simp only:; code_simp)+

lemma writes_granted:
  "granted (on_kind KNode ''update'')" "granted (on_kind KDeployment ''update'')"
  "granted (on_kind KStorageCluster ''update'')" "granted (on_kind KOCSInitialization ''update'')"
  "granted (''odf.openshift.io'', ''noderecoveries/status'', ''update'')"
  "granted (on_kind KPod ''delete'')" "granted (on_kind KPersistentVolume ''delete'')"
  "granted (on_kind KJob ''delete'')" "granted (on_kind KPod ''deletecollection'')"
  "granted ('''', ''pods/exec'', ''create'')" "granted ('''', ''pods/log'', ''get'')"
  "granted ('''', ''events'', ''create'')" "granted (''batch'', ''jobs'', ''create'')"
  by code_simp+

lemma permitted_unless_create: "(\<And>x. e \<noteq> CreateObject x) \<Longrightarrow> permitted e"
  by (cases e) (auto simp: permitted_def kinds_readable writes_granted)

lemma create_permitted:
  "obj_Group x = ''batch'' \<Longrightarrow> obj_Resource x = ''jobs'' \<Longrightarrow> permitted (CreateObject x)"
  by (simp add: permitted_def writes_granted)

lemma step_write_create:
  "step_write ty (CreateObject x) \<Longrightarrow>
   ty \<in> {ProcessOCSRemovalTemplate, CleanupOSDRemovalJob} \<and> obj_Namespace x = ODF_NAMESPACE"
  by (cases ty) (auto simp: sets_tools_def removes_job_def runs_job_def)

section \<open>Properties\<close>

text \<open>
  C37. Every request of a run on a live recovery is one that the markers permit. What is left to the
  cluster's own template is the objects it creates: only in the two conditions of the removal job, only in the
  storage namespace, and permitted when they are jobs.
\<close>

theorem requests_permitted:
  assumes "reachable c f i" and "sane_clock c f"
    and "Get_NodeRecovery c req (world s) = (Inr i, w)" and "IsZero (nr_DeletionTimestamp i)"
    and "Phase (Status i) \<noteq> FailedPhase" and "Phase (Status i) \<noteq> CompletedPhase"
    and "controller_Reconcile (wired_controller c) req s = (out, s')"
  shows "\<exists>es. trace s' = trace s @ es \<and>
    (\<forall>e\<in>set es. \<not> permitted e \<longrightarrow>
       (\<exists>x. e = CreateObject x \<and> (obj_Group x, obj_Resource x) \<noteq> (''batch'', ''jobs'') \<and> obj_Namespace x = ODF_NAMESPACE \<and>
            last (m_history (machine_begin (machine_of (Status i)))) \<in> {ProcessOCSRemovalTemplate, CleanupOSDRemovalJob}))"
proof -
  obtain st0 res i' es1 es2 stored where *:
    "machine_of st0 = machine_begin (machine_of (Status i))"
    "wf_status st0" "Phase st0 = RunningPhase" "handled st0 res (Status i')"
    "es1 = (if IsZero (StartTime (Status i)) then [CounterInc TotalOperandInstances] else [])"
    "list_all (step_effect (current_type st0)) es2"
    "trace s' = trace s @ GetCall KNodeRecovery req # es1 @ es2 @
       (if \<exists>p. res = Panic p then [] else [UpdateStatus i'])"
    "out = controller_out res stored"
    by (rule live_run [OF assms])
  have ty: "current_type st0 = last (m_history (machine_begin (machine_of (Status i))))"
    using *(1,2) by (metis last_cond_types machine.select_convs(2) machine_of_def wf_status_conditions)
  have created: "step_write (current_type st0) (CreateObject x)" if "CreateObject x \<in> set es2" for x
    using *(6) that by (auto simp: list_all_iff step_effect_def)
  let ?es = "GetCall KNodeRecovery req # es1 @ es2 @ (if \<exists>p. res = Panic p then [] else [UpdateStatus i'])"
  have "\<exists>x. e = CreateObject x \<and> (obj_Group x, obj_Resource x) \<noteq> (''batch'', ''jobs'') \<and> obj_Namespace x = ODF_NAMESPACE \<and>
      current_type st0 \<in> {ProcessOCSRemovalTemplate, CleanupOSDRemovalJob}" if e: "e \<in> set ?es" "\<not> permitted e" for e
  proof -
    obtain x where x: "e = CreateObject x" using e(2) permitted_unless_create by blast
    then have "CreateObject x \<in> set es2" using e(1) *(5) by (auto split: if_splits)
    then show ?thesis using x e(2) create_permitted step_write_create [OF created] by blast
  qed
  then show ?thesis using *(7) ty by (intro exI [of _ ?es]) simp
qed

theorem requests_permitted_witness:
  "list_all permitted (trace (snd (run_in healthy new_recovery)))"
proof -
  have facts: "IsZero (nr_DeletionTimestamp new_recovery)" "Phase (Status new_recovery) \<noteq> FailedPhase"
    "Phase (Status new_recovery) \<noteq> CompletedPhase"
    "last (m_history (machine_begin (machine_of (Status new_recovery)))) = EnableCephToolsPod"
    "nr_Name new_recovery = ''rec''"
    by code_simp+
  have "controller_Reconcile (wired_controller sample) recovery_key (at_rest (healthy new_recovery) new_recovery) =
      (fst (run_in healthy new_recovery), snd (run_in healthy new_recovery))"
    by (simp add: run_in_def)
  from requests_permitted [OF reach_new sample_clock sample_get [of healthy, OF sample_recoveries(1) facts(5)] facts(1-3) this]
  show ?thesis by (auto simp: facts list_all_iff)
qed

text \<open>The privileged pod runner is not covered by the role of the controller.\<close>

lemma runner_not_granted: "\<not> granted ('''', ''namespaces'', ''create'')" "\<not> granted ('''', ''pods'', ''create'')"
  by code_simp+

end
