(* ===== verification/Deep_Copy.thy ===== *)
theory Deep_Copy
  imports Api_Types Go_Slice
begin

text \<open>
  The deep copies of the API types, \<open>src/api/v1alpha1/zz_generated.deepcopy.go\<close>, on an explicit memory:
  a slice is an array in the memory with a length, a pointer the address of a cell, and a struct is its
  fields. \<open>metav1.Time\<close>, \<open>ObjectMeta\<close> and \<open>ListMeta\<close> have deep copies of their own in the library
  (record \<open>copy_lib\<close>), which work on cells of their own, \<open>metas\<close>.
\<close>

section \<open>Memory and references\<close>

record StatusRef =
  r_Phase :: RecoveryPhase
  r_Conditions :: "slice option"
  r_StartTime :: "nat option"
  r_CompletionTime :: "nat option"
  r_PendingPods :: bool
  r_CrashLoopBackOffPods :: bool
  r_NodeDevice :: "slice option"
  r_ForcedOSDRemoval :: bool
  r_KeepCephToolsPod :: bool
  r_OperationalOSDIDs :: "slice option"

text \<open>\<open>TypeMeta\<close> is the kind and the version; the specification has no fields.\<close>

record 'om RecoveryRef =
  rr_TypeMeta :: "string \<times> string"
  rr_ObjectMeta :: 'om
  rr_Spec :: unit
  rr_Status :: StatusRef

record ('om, 'lm) ListRef =
  lr_TypeMeta :: "string \<times> string"
  lr_ListMeta :: 'lm
  lr_Items :: "slice option"

record ('om, 'c) mem =
  conds :: "RecoveryCondition list list"
  instants :: "time list"
  pvs :: "NodePV list"
  ptrs :: "nat option list list"
  strs :: "string list list"
  items :: "'om RecoveryRef list list"
  metas :: "'c list"

record ('om, 'lm, 'c) copy_lib =
  Time_DeepCopyInto :: "time \<Rightarrow> time"
  ObjectMeta_DeepCopyInto :: "'om \<Rightarrow> 'c list \<Rightarrow> 'om \<times> 'c list"
  ListMeta_DeepCopyInto :: "'lm \<Rightarrow> 'c list \<Rightarrow> 'lm \<times> 'c list"
  zero_ObjectMeta :: 'om

definition zero_condition :: RecoveryCondition where
  "zero_condition =
     \<lparr>cond_Type = OtherCondition [], cond_LastProbeTime = 0, cond_LastTransitionTime = 0,
      cond_Reason = NoReason, cond_Message = [], cond_Status = StatusUnset\<rparr>"

definition zero_pv :: NodePV where
  "zero_pv = \<lparr>nd_NodeName = [], nd_PersistentVolumeName = [], nd_FailingOSDID = []\<rparr>"

definition zero_status :: StatusRef where
  "zero_status =
     \<lparr>r_Phase = PhaseUnset, r_Conditions = None, r_StartTime = None, r_CompletionTime = None,
      r_PendingPods = False, r_CrashLoopBackOffPods = False, r_NodeDevice = None,
      r_ForcedOSDRemoval = False, r_KeepCephToolsPod = False, r_OperationalOSDIDs = None\<rparr>"

section \<open>Loops over slices\<close>

text \<open>\<open>make\<close> of \<open>n\<close> elements, and the write of one element.\<close>

definition make_slice :: "'a \<Rightarrow> nat \<Rightarrow> 'a list list \<Rightarrow> slice \<times> 'a list list" where
  "make_slice z n h = (\<lparr>sl_array = length h, sl_len = n, sl_cap = n\<rparr>, h @ [replicate n z])"

definition write_elem :: "slice \<Rightarrow> nat \<Rightarrow> 'a \<Rightarrow> 'a list list \<Rightarrow> 'a list list" where
  "write_elem s i x h = h[sl_array s := (h ! sl_array s)[i := x]]"

text \<open>The loop \<open>for i := range *in\<close> that writes \<open>g\<close> of every element into \<open>out\<close>; also \<open>copy\<close>.\<close>

definition copy_elems :: "('a \<Rightarrow> 'a) \<Rightarrow> slice \<Rightarrow> slice \<Rightarrow> 'a list list \<Rightarrow> 'a list list" where
  "copy_elems g s out h = foldl (\<lambda>h i. write_elem out i (g (elems h s ! i)) h) h [0..<sl_len s]"

definition copy_slice :: "'a \<Rightarrow> ('a \<Rightarrow> 'a) \<Rightarrow> slice option \<Rightarrow> 'a list list \<Rightarrow> slice option \<times> 'a list list" where
  "copy_slice z g s h =
     (case s of
        None \<Rightarrow> (None, h)
      | Some sl \<Rightarrow> (case make_slice z (sl_len sl) h of (out, h') \<Rightarrow> (Some out, copy_elems g sl out h')))"

section \<open>The copies\<close>

definition NodePV_DeepCopyInto :: "NodePV \<Rightarrow> NodePV" where
  "NodePV_DeepCopyInto x = x"

definition RecoveryCondition_DeepCopyInto :: "('om, 'lm, 'c) copy_lib \<Rightarrow> RecoveryCondition \<Rightarrow> RecoveryCondition" where
  "RecoveryCondition_DeepCopyInto lib cd =
     cd\<lparr>cond_LastProbeTime := Time_DeepCopyInto lib (cond_LastProbeTime cd),
        cond_LastTransitionTime := Time_DeepCopyInto lib (cond_LastTransitionTime cd)\<rparr>"

definition copy_time :: "('om, 'lm, 'c) copy_lib \<Rightarrow> nat option \<Rightarrow> time list \<Rightarrow> nat option \<times> time list" where
  "copy_time lib p h =
     (case p of None \<Rightarrow> (None, h) | Some a \<Rightarrow> (Some (length h), h @ [Time_DeepCopyInto lib (h ! a)]))"

text \<open>One round of the loop over the devices: a new cell for an element that is not nil.\<close>

definition copy_device ::
  "slice \<Rightarrow> slice \<Rightarrow> NodePV list \<times> nat option list list \<Rightarrow> nat \<Rightarrow> NodePV list \<times> nat option list list" where
  "copy_device s out h i =
     (case h of (cells, ps) \<Rightarrow>
        (case elems ps s ! i of
           None \<Rightarrow> (cells, ps)
         | Some p \<Rightarrow>
             (let q = length cells; cells' = cells @ [zero_pv]
              in (cells'[q := cells' ! p], write_elem out i (Some q) ps))))"

definition copy_devices ::
  "slice option \<Rightarrow> NodePV list \<times> nat option list list \<Rightarrow> slice option \<times> NodePV list \<times> nat option list list" where
  "copy_devices s h =
     (case s of
        None \<Rightarrow> (None, h)
      | Some sl \<Rightarrow>
          (case make_slice None (sl_len sl) (snd h) of (out, ps) \<Rightarrow>
             (Some out, foldl (copy_device sl out) (fst h, ps) [0..<sl_len sl])))"

definition NodeRecoveryStatus_DeepCopyInto ::
  "('om, 'lm, 'c) copy_lib \<Rightarrow> StatusRef \<Rightarrow> ('om, 'c) mem \<Rightarrow> StatusRef \<times> ('om, 'c) mem" where
  "NodeRecoveryStatus_DeepCopyInto lib st m =
     (case copy_slice zero_condition (RecoveryCondition_DeepCopyInto lib) (r_Conditions st) (conds m) of (cs, hc) \<Rightarrow>
      case copy_time lib (r_StartTime st) (instants m) of (stime, ht) \<Rightarrow>
      case copy_time lib (r_CompletionTime st) ht of (ctime, ht') \<Rightarrow>
      case copy_devices (r_NodeDevice st) (pvs m, ptrs m) of (ds, hp, hq) \<Rightarrow>
      case copy_slice [] (\<lambda>x. x) (r_OperationalOSDIDs st) (strs m) of (ids, hs) \<Rightarrow>
        (st\<lparr>r_Conditions := cs, r_StartTime := stime, r_CompletionTime := ctime, r_NodeDevice := ds,
            r_OperationalOSDIDs := ids\<rparr>,
         m\<lparr>conds := hc, instants := ht', pvs := hp, ptrs := hq, strs := hs\<rparr>))"

definition NodeRecoverySpec_DeepCopyInto :: "unit \<Rightarrow> unit" where
  "NodeRecoverySpec_DeepCopyInto x = x"

definition NodeRecovery_DeepCopyInto ::
  "('om, 'lm, 'c) copy_lib \<Rightarrow> 'om RecoveryRef \<Rightarrow> ('om, 'c) mem \<Rightarrow> 'om RecoveryRef \<times> ('om, 'c) mem" where
  "NodeRecovery_DeepCopyInto lib x m =
     (case ObjectMeta_DeepCopyInto lib (rr_ObjectMeta x) (metas m) of (om, mh) \<Rightarrow>
      case NodeRecoveryStatus_DeepCopyInto lib (rr_Status x) (m\<lparr>metas := mh\<rparr>) of (st, m') \<Rightarrow>
        (x\<lparr>rr_ObjectMeta := om, rr_Status := st\<rparr>, m'))"

definition zero_recovery :: "('om, 'lm, 'c) copy_lib \<Rightarrow> 'om RecoveryRef" where
  "zero_recovery lib =
     \<lparr>rr_TypeMeta = ([], []), rr_ObjectMeta = zero_ObjectMeta lib, rr_Spec = (), rr_Status = zero_status\<rparr>"

definition copy_item ::
  "('om, 'lm, 'c) copy_lib \<Rightarrow> slice \<Rightarrow> slice \<Rightarrow> ('om, 'c) mem \<Rightarrow> nat \<Rightarrow> ('om, 'c) mem" where
  "copy_item lib s out m i =
     (case NodeRecovery_DeepCopyInto lib (elems (items m) s ! i) m of (x, m') \<Rightarrow>
        m'\<lparr>items := write_elem out i x (items m')\<rparr>)"

definition NodeRecoveryList_DeepCopyInto ::
  "('om, 'lm, 'c) copy_lib \<Rightarrow> ('om, 'lm) ListRef \<Rightarrow> ('om, 'c) mem \<Rightarrow> ('om, 'lm) ListRef \<times> ('om, 'c) mem" where
  "NodeRecoveryList_DeepCopyInto lib l m =
     (case ListMeta_DeepCopyInto lib (lr_ListMeta l) (metas m) of (lm, mh) \<Rightarrow>
        (let l' = l\<lparr>lr_ListMeta := lm\<rparr>; m1 = m\<lparr>metas := mh\<rparr> in
         case lr_Items l of
           None \<Rightarrow> (l', m1)
         | Some sl \<Rightarrow>
             (case make_slice (zero_recovery lib) (sl_len sl) (items m1) of (out, is') \<Rightarrow>
                (l'\<lparr>lr_Items := Some out\<rparr>, foldl (copy_item lib sl out) (m1\<lparr>items := is'\<rparr>) [0..<sl_len sl]))))"

text \<open>The methods \<open>DeepCopy\<close> and \<open>DeepCopyObject\<close>: nil gives nil.\<close>

definition deep_copy :: "('x \<Rightarrow> 'm \<Rightarrow> 'x \<times> 'm) \<Rightarrow> 'x option \<Rightarrow> 'm \<Rightarrow> 'x option \<times> 'm" where
  "deep_copy into p m = (case p of None \<Rightarrow> (None, m) | Some x \<Rightarrow> (case into x m of (y, m') \<Rightarrow> (Some y, m')))"

definition NodePV_DeepCopy :: "NodePV option \<Rightarrow> NodePV option" where
  "NodePV_DeepCopy p = map_option NodePV_DeepCopyInto p"

definition RecoveryCondition_DeepCopy ::
  "('om, 'lm, 'c) copy_lib \<Rightarrow> RecoveryCondition option \<Rightarrow> RecoveryCondition option" where
  "RecoveryCondition_DeepCopy lib p = map_option (RecoveryCondition_DeepCopyInto lib) p"

definition NodeRecoverySpec_DeepCopy :: "unit option \<Rightarrow> unit option" where
  "NodeRecoverySpec_DeepCopy p = map_option NodeRecoverySpec_DeepCopyInto p"

definition NodeRecoveryStatus_DeepCopy ::
  "('om, 'lm, 'c) copy_lib \<Rightarrow> StatusRef option \<Rightarrow> ('om, 'c) mem \<Rightarrow> StatusRef option \<times> ('om, 'c) mem" where
  "NodeRecoveryStatus_DeepCopy lib = deep_copy (NodeRecoveryStatus_DeepCopyInto lib)"

definition NodeRecovery_DeepCopy ::
  "('om, 'lm, 'c) copy_lib \<Rightarrow> 'om RecoveryRef option \<Rightarrow> ('om, 'c) mem \<Rightarrow> 'om RecoveryRef option \<times> ('om, 'c) mem" where
  "NodeRecovery_DeepCopy lib = deep_copy (NodeRecovery_DeepCopyInto lib)"

definition NodeRecoveryList_DeepCopy ::
  "('om, 'lm, 'c) copy_lib \<Rightarrow> ('om, 'lm) ListRef option \<Rightarrow> ('om, 'c) mem \<Rightarrow> ('om, 'lm) ListRef option \<times> ('om, 'c) mem" where
  "NodeRecoveryList_DeepCopy lib = deep_copy (NodeRecoveryList_DeepCopyInto lib)"

text \<open>A \<open>runtime.Object\<close> is one of the two registered types.\<close>

datatype ('om, 'lm) runtime_object = RecoveryObject "'om RecoveryRef" | ListObject "('om, 'lm) ListRef"

definition NodeRecovery_DeepCopyObject ::
  "('om, 'lm, 'c) copy_lib \<Rightarrow> 'om RecoveryRef option \<Rightarrow> ('om, 'c) mem \<Rightarrow>
   ('om, 'lm) runtime_object option \<times> ('om, 'c) mem" where
  "NodeRecovery_DeepCopyObject lib p m =
     (case NodeRecovery_DeepCopy lib p m of
        (Some c, m') \<Rightarrow> (Some (RecoveryObject c), m')
      | (None, m') \<Rightarrow> (None, m'))"

definition NodeRecoveryList_DeepCopyObject ::
  "('om, 'lm, 'c) copy_lib \<Rightarrow> ('om, 'lm) ListRef option \<Rightarrow> ('om, 'c) mem \<Rightarrow>
   ('om, 'lm) runtime_object option \<times> ('om, 'c) mem" where
  "NodeRecoveryList_DeepCopyObject lib p m =
     (case NodeRecoveryList_DeepCopy lib p m of
        (Some c, m') \<Rightarrow> (Some (ListObject c), m')
      | (None, m') \<Rightarrow> (None, m'))"

section \<open>What a reference means\<close>

definition list_of :: "'a list list \<Rightarrow> slice option \<Rightarrow> 'a list" where
  "list_of h s = (case s of None \<Rightarrow> [] | Some sl \<Rightarrow> elems h sl)"

definition view :: "('om, 'c) mem \<Rightarrow> StatusRef \<Rightarrow> NodeRecoveryStatus" where
  "view m st =
     \<lparr>Phase = r_Phase st, Conditions = list_of (conds m) (r_Conditions st),
      StartTime = map_option (\<lambda>a. instants m ! a) (r_StartTime st),
      CompletionTime = map_option (\<lambda>a. instants m ! a) (r_CompletionTime st),
      PendingPods = r_PendingPods st, CrashLoopBackOffPods = r_CrashLoopBackOffPods st,
      NodeDevice = map (map_option (\<lambda>a. pvs m ! a)) (list_of (ptrs m) (r_NodeDevice st)),
      ForcedOSDRemoval = r_ForcedOSDRemoval st, KeepCephToolsPod = r_KeepCephToolsPod st,
      OperationalOSDIDs = list_of (strs m) (r_OperationalOSDIDs st)\<rparr>"

definition slice_opt_ok :: "'a list list \<Rightarrow> slice option \<Rightarrow> bool" where
  "slice_opt_ok h s \<longleftrightarrow> (case s of None \<Rightarrow> True | Some sl \<Rightarrow> slice_ok h sl)"

definition ptr_ok :: "'a list \<Rightarrow> nat option \<Rightarrow> bool" where
  "ptr_ok h p \<longleftrightarrow> (case p of None \<Rightarrow> True | Some a \<Rightarrow> a < length h)"

definition status_ok :: "('om, 'c) mem \<Rightarrow> StatusRef \<Rightarrow> bool" where
  "status_ok m st \<longleftrightarrow>
     slice_opt_ok (conds m) (r_Conditions st) \<and> ptr_ok (instants m) (r_StartTime st) \<and>
     ptr_ok (instants m) (r_CompletionTime st) \<and> slice_opt_ok (ptrs m) (r_NodeDevice st) \<and>
     list_all (ptr_ok (pvs m)) (list_of (ptrs m) (r_NodeDevice st)) \<and>
     slice_opt_ok (strs m) (r_OperationalOSDIDs st)"

text \<open>A memory extends another when everything allocated there is still there, unchanged.\<close>

definition extends :: "('om, 'c) mem \<Rightarrow> ('om, 'c) mem \<Rightarrow> bool" where
  "extends m m' \<longleftrightarrow>
     prefix (conds m) (conds m') \<and> prefix (instants m) (instants m') \<and> prefix (pvs m) (pvs m') \<and>
     prefix (ptrs m) (ptrs m') \<and> prefix (strs m) (strs m') \<and> prefix (metas m) (metas m')"

lemma slice_ok_prefix: "slice_ok h s \<Longrightarrow> prefix h h' \<Longrightarrow> slice_ok h' s"
  by (erule prefixE) (auto simp: slice_ok_def nth_append)

lemma elems_prefix: "slice_ok h s \<Longrightarrow> prefix h h' \<Longrightarrow> elems h' s = elems h s"
  by (erule prefixE) (auto simp: elems_def slice_ok_def nth_append)

lemma list_of_prefix: "slice_opt_ok h s \<Longrightarrow> prefix h h' \<Longrightarrow> list_of h' s = list_of h s"
  by (cases s) (simp_all add: list_of_def slice_opt_ok_def elems_prefix [of h _ h'])

lemma ptr_prefix: "ptr_ok h p \<Longrightarrow> prefix h h' \<Longrightarrow> map_option (\<lambda>a. h' ! a) p = map_option (\<lambda>a. h ! a) p"
  by (erule prefixE) (simp add: ptr_ok_def nth_append split: option.splits)

lemma view_extends:
  assumes "status_ok m t" and "extends m m'"
  shows "view m' t = view m t"
proof -
  note p = assms [unfolded status_ok_def extends_def]
  have ds: "list_of (ptrs m') (r_NodeDevice t) = list_of (ptrs m) (r_NodeDevice t)"
    using p by (blast intro: list_of_prefix)
  have "map (map_option (\<lambda>a. pvs m' ! a)) (list_of (ptrs m) (r_NodeDevice t)) =
      map (map_option (\<lambda>a. pvs m ! a)) (list_of (ptrs m) (r_NodeDevice t))"
    using p by (auto simp: list_all_iff intro!: ptr_prefix)
  then show ?thesis
    using p unfolding view_def ds
    by (simp add: list_of_prefix [of "conds m" _ "conds m'"] list_of_prefix [of "strs m" _ "strs m'"]
      ptr_prefix [of "instants m" _ "instants m'"])
qed

section \<open>The loops\<close>

lemma copy_elems_run:
  assumes "slice_ok h s"
  shows "copy_elems g s \<lparr>sl_array = length h, sl_len = sl_len s, sl_cap = sl_len s\<rparr> (h @ [replicate (sl_len s) z]) =
         h @ [map g (elems h s)]"
proof -
  let ?out = "\<lparr>sl_array = length h, sl_len = sl_len s, sl_cap = sl_len s\<rparr>" and ?n = "sl_len s"
  have len: "length (elems h s) = ?n" by (rule length_elems [OF assms])
  have "foldl (\<lambda>h i. write_elem ?out i (g (elems h s ! i)) h) (h @ [replicate ?n z]) [0..<k] =
      h @ [map g (take k (elems h s)) @ replicate (?n - k) z]" if "k \<le> ?n" for k
    using that
  proof (induction k)
    case (Suc k)
    let ?a = "map g (take k (elems h s)) @ replicate (?n - k) z"
    have e: "elems (h @ [?a]) s = elems h s" using elems_prefix [OF assms, of "h @ [?a]"] by simp
    have "replicate (?n - k) z = z # replicate (?n - Suc k) z"
      using Suc.prems by (metis Suc_diff_Suc Suc_le_lessD replicate_Suc)
    then have "?a[k := g (elems h s ! k)] = map g (take (Suc k) (elems h s)) @ replicate (?n - Suc k) z"
      using Suc.prems len by (simp add: list_update_append take_Suc_conv_app_nth)
    then show ?case using Suc e by (simp add: write_elem_def)
  qed simp
  from this [of ?n] len show ?thesis by (simp add: copy_elems_def)
qed

lemma copy_slice_run:
  assumes "slice_opt_ok h s" and "copy_slice z g s h = (s', h')"
  shows "list_of h' s' = map g (list_of h s)" and "prefix h h'" and "slice_opt_ok h' s'"
    and "(s' = None) = (s = None)" and "\<And>sl. s' = Some sl \<Longrightarrow> length h \<le> sl_array sl"
  using assms length_elems [of h]
  by (auto simp: copy_slice_def make_slice_def list_of_def slice_opt_ok_def copy_elems_run split: option.splits)
    (auto simp: elems_def slice_ok_def)

lemma copy_time_run:
  assumes "ptr_ok h p" and "copy_time lib p h = (p', h')" and "\<And>t. Time_DeepCopyInto lib t = t"
  shows "map_option (\<lambda>a. h' ! a) p' = map_option (\<lambda>a. h ! a) p" and "prefix h h'" and "ptr_ok h' p'"
    and "\<And>a. p' = Some a \<Longrightarrow> length h \<le> a"
  using assms by (auto simp: copy_time_def ptr_ok_def split: option.splits)

lemma copy_device_simps:
  "elems ps s ! i = None \<Longrightarrow> copy_device s out (cells, ps) i = (cells, ps)"
  "elems ps s ! i = Some p \<Longrightarrow> p < length cells \<Longrightarrow>
   copy_device s out (cells, ps) i = (cells @ [cells ! p], write_elem out i (Some (length cells)) ps)"
  by (simp_all add: copy_device_def Let_def nth_append)

text \<open>After \<open>k\<close> rounds the first \<open>k\<close> devices have cells of their own.\<close>

lemma copy_devices_loop:
  assumes "slice_ok P s" and "list_all (ptr_ok C) (elems P s)" and "k \<le> sl_len s"
  defines "out \<equiv> \<lparr>sl_array = length P, sl_len = sl_len s, sl_cap = sl_len s\<rparr>"
  shows "\<exists>cs qs. foldl (copy_device s out) (C, P @ [replicate (sl_len s) None]) [0..<k] =
        (C @ cs, P @ [qs @ replicate (sl_len s - k) None]) \<and> length qs = k \<and>
      map (map_option (\<lambda>a. (C @ cs) ! a)) qs = map (map_option (\<lambda>a. C ! a)) (take k (elems P s)) \<and>
      (\<forall>q. Some q \<in> set qs \<longrightarrow> length C \<le> q \<and> q < length (C @ cs))"
  using assms(3)
proof (induction k)
  case 0
  then show ?case by (intro exI [of _ "[]"]) simp
next
  case (Suc k)
  let ?n = "sl_len s" and ?E = "elems P s"
  obtain cs qs where IH: "foldl (copy_device s out) (C, P @ [replicate ?n None]) [0..<k] =
        (C @ cs, P @ [qs @ replicate (?n - k) None])" "length qs = k"
      "map (map_option (\<lambda>a. (C @ cs) ! a)) qs = map (map_option (\<lambda>a. C ! a)) (take k ?E)"
      "\<And>q. Some q \<in> set qs \<Longrightarrow> length C \<le> q \<and> q < length (C @ cs)"
    using Suc by auto
  have k: "k < length ?E" using Suc.prems length_elems [OF assms(1)] by simp
  have e: "elems (P @ [qs @ replicate (?n - k) None]) s = ?E"
    by (rule elems_prefix [OF assms(1)]) simp
  have rep: "replicate (?n - k) (None :: nat option) = None # replicate (?n - Suc k) None"
    using Suc.prems by (metis Suc_diff_Suc Suc_le_lessD replicate_Suc)
  have take: "take (Suc k) ?E = take k ?E @ [?E ! k]" using k by (rule take_Suc_conv_app_nth)
  show ?case
  proof (cases "?E ! k")
    case None
    then show ?thesis using IH e rep take
      by (intro exI [of _ cs] exI [of _ "qs @ [None]"]) (auto simp: copy_device_simps)
  next
    case (Some p)
    have p: "p < length C" using assms(2) k Some by (force simp: list_all_length ptr_ok_def split: option.splits)
    let ?q = "length (C @ cs)"
    have old: "map_option (\<lambda>a. (C @ cs @ [C ! p]) ! a) x = map_option (\<lambda>a. (C @ cs) ! a) x" if "x \<in> set qs" for x
    proof (cases x)
      case (Some a)
      then have "a < length (C @ cs)" using IH(4) that by blast
      then have "(C @ cs @ [C ! p]) ! a = (C @ cs) ! a" by (metis append_assoc nth_append)
      with Some show ?thesis by simp
    qed simp
    have "foldl (copy_device s out) (C, P @ [replicate ?n None]) [0..<Suc k] =
        (C @ cs @ [C ! p], P @ [(qs @ [Some ?q]) @ replicate (?n - Suc k) None])"
      using IH(1,2) e rep Some p
      by (simp add: copy_device_simps write_elem_def out_def list_update_append nth_append)
    moreover have "map (map_option (\<lambda>a. (C @ cs @ [C ! p]) ! a)) (qs @ [Some ?q]) =
        map (map_option (\<lambda>a. C ! a)) (take (Suc k) ?E)"
      using IH(3) old Some take by (simp add: nth_append cong: map_cong)
    moreover have "\<forall>q. Some q \<in> set (qs @ [Some ?q]) \<longrightarrow> length C \<le> q \<and> q < length (C @ cs @ [C ! p])"
      using IH(4) by (auto dest: less_SucI)
    ultimately show ?thesis using IH(2) by (intro exI [of _ "cs @ [C ! p]"] exI [of _ "qs @ [Some ?q]"]) simp
  qed
qed

lemma copy_devices_run:
  assumes "slice_opt_ok P s" and "list_all (ptr_ok C) (list_of P s)" and "copy_devices s (C, P) = (s', C', P')"
  shows "map (map_option (\<lambda>a. C' ! a)) (list_of P' s') = map (map_option (\<lambda>a. C ! a)) (list_of P s)"
    and "prefix C C'" and "prefix P P'" and "slice_opt_ok P' s'" and "list_all (ptr_ok C') (list_of P' s')"
    and "\<And>sl. s' = Some sl \<Longrightarrow> length P \<le> sl_array sl" and "\<And>q. Some q \<in> set (list_of P' s') \<Longrightarrow> length C \<le> q"
    and "(s' = None) = (s = None)"
proof -
  have "map (map_option (\<lambda>a. C' ! a)) (list_of P' s') = map (map_option (\<lambda>a. C ! a)) (list_of P s) \<and>
    prefix C C' \<and> prefix P P' \<and> slice_opt_ok P' s' \<and> list_all (ptr_ok C') (list_of P' s') \<and>
    (\<forall>sl. s' = Some sl \<longrightarrow> length P \<le> sl_array sl) \<and> (\<forall>q. Some q \<in> set (list_of P' s') \<longrightarrow> length C \<le> q) \<and>
    (s' = None \<longleftrightarrow> s = None)"
  proof (cases s)
    case None
    then show ?thesis using assms by (simp add: copy_devices_def list_of_def slice_opt_ok_def)
  next
    case (Some sl)
    then have ok: "slice_ok P sl" "list_all (ptr_ok C) (elems P sl)"
      using assms(1,2) by (simp_all add: slice_opt_ok_def list_of_def)
    let ?out = "\<lparr>sl_array = length P, sl_len = sl_len sl, sl_cap = sl_len sl\<rparr>"
    obtain cs qs where l: "foldl (copy_device sl ?out) (C, P @ [replicate (sl_len sl) None]) [0..<sl_len sl] =
        (C @ cs, P @ [qs])" "length qs = sl_len sl"
      "map (map_option (\<lambda>a. (C @ cs) ! a)) qs = map (map_option (\<lambda>a. C ! a)) (elems P sl)"
      "\<And>q. Some q \<in> set qs \<Longrightarrow> length C \<le> q \<and> q < length (C @ cs)"
      using copy_devices_loop [OF ok le_refl] length_elems [OF ok(1)] by auto
    have s': "s' = Some ?out" "C' = C @ cs" "P' = P @ [qs]"
      using assms(3) l(1) by (simp_all add: copy_devices_def Some make_slice_def)
    then have "list_of P' s' = qs" using l(2) by (auto simp: list_of_def elems_def)
    moreover have "list_all (ptr_ok C') qs"
      using l(4) by (auto simp: list_all_iff ptr_ok_def s'(2) split: option.splits)
    ultimately show ?thesis using l s' Some by (simp add: list_of_def slice_opt_ok_def slice_ok_def)
  qed
  then show "map (map_option (\<lambda>a. C' ! a)) (list_of P' s') = map (map_option (\<lambda>a. C ! a)) (list_of P s)"
    "prefix C C'" "prefix P P'" "slice_opt_ok P' s'" "list_all (ptr_ok C') (list_of P' s')"
    "\<And>sl. s' = Some sl \<Longrightarrow> length P \<le> sl_array sl" "\<And>q. Some q \<in> set (list_of P' s') \<Longrightarrow> length C \<le> q"
    "(s' = None) = (s = None)"
    by blast+
qed

section \<open>The copy of a status\<close>

text \<open>
  A reference is fresh when all that it refers to was allocated after \<open>m\<close>: its arrays, the cells of its pointers and
  the cells that its array of devices points to.
\<close>

definition slice_fresh :: "'a list list \<Rightarrow> slice option \<Rightarrow> bool" where
  "slice_fresh h s \<longleftrightarrow> (case s of None \<Rightarrow> True | Some sl \<Rightarrow> length h \<le> sl_array sl)"

definition ptr_fresh :: "'a list \<Rightarrow> nat option \<Rightarrow> bool" where
  "ptr_fresh h p \<longleftrightarrow> (case p of None \<Rightarrow> True | Some a \<Rightarrow> length h \<le> a)"

definition status_fresh :: "('om, 'c) mem \<Rightarrow> ('om, 'c) mem \<Rightarrow> StatusRef \<Rightarrow> bool" where
  "status_fresh m m' st \<longleftrightarrow>
     slice_fresh (conds m) (r_Conditions st) \<and> ptr_fresh (instants m) (r_StartTime st) \<and>
     ptr_fresh (instants m) (r_CompletionTime st) \<and> slice_fresh (ptrs m) (r_NodeDevice st) \<and>
     list_all (ptr_fresh (pvs m)) (list_of (ptrs m') (r_NodeDevice st)) \<and>
     slice_fresh (strs m) (r_OperationalOSDIDs st)"

lemma extends_refl: "extends m m"
  by (simp add: extends_def)

lemma extends_trans: "extends a b \<Longrightarrow> extends b c \<Longrightarrow> extends a c"
  unfolding extends_def by (meson prefix_order.trans)

lemma fresh_prefix:
  "slice_fresh h' s \<Longrightarrow> prefix h h' \<Longrightarrow> slice_fresh h s" "ptr_fresh l' p \<Longrightarrow> prefix l l' \<Longrightarrow> ptr_fresh l p"
  by (auto simp: slice_fresh_def ptr_fresh_def dest!: prefix_length_le split: option.splits)

lemma status_ok_extends:
  assumes "status_ok m t" and "extends m m'"
  shows "status_ok m' t" and "list_of (ptrs m') (r_NodeDevice t) = list_of (ptrs m) (r_NodeDevice t)"
proof -
  note p = assms [unfolded status_ok_def extends_def]
  show ds: "list_of (ptrs m') (r_NodeDevice t) = list_of (ptrs m) (r_NodeDevice t)"
    using p by (blast intro: list_of_prefix)
  have slice: "slice_opt_ok h s \<Longrightarrow> prefix h h' \<Longrightarrow> slice_opt_ok h' s" for h h' :: "'x list list" and s
    by (cases s) (simp_all add: slice_opt_ok_def slice_ok_prefix)
  have ptr: "ptr_ok h a \<Longrightarrow> prefix h h' \<Longrightarrow> ptr_ok h' a" for h h' :: "'x list" and a
    by (auto simp: ptr_ok_def dest!: prefix_length_le split: option.splits)
  have "list_all (ptr_ok (pvs m')) (list_of (ptrs m) (r_NodeDevice t))"
    using p ptr [of "pvs m" _ "pvs m'"] by (auto simp: list_all_iff)
  then show "status_ok m' t"
    unfolding status_ok_def ds using p
    by (simp add: slice [of "conds m" _ "conds m'"] slice [of "ptrs m" _ "ptrs m'"] slice [of "strs m" _ "strs m'"]
      ptr [of "instants m" _ "instants m'"])
qed

lemma status_fresh_extends:
  assumes "status_fresh b c st" and "extends a b" and "status_ok c st" and "extends c d"
  shows "status_fresh a d st"
  using assms(1,2) unfolding status_fresh_def status_ok_extends(2) [OF assms(3,4)]
  by (auto simp: extends_def list_all_iff intro: fresh_prefix)

text \<open>What the copy of a status gives: it means the same, its slices are nil where the original's are, and it is fresh.\<close>

definition nil_slices :: "StatusRef \<Rightarrow> bool list" where
  "nil_slices st = [r_Conditions st = None, r_NodeDevice st = None, r_OperationalOSDIDs st = None]"

lemma NodeRecoveryStatus_DeepCopyInto_run:
  assumes ok: "status_ok m st" and time: "\<And>t. Time_DeepCopyInto lib t = t"
    and run: "NodeRecoveryStatus_DeepCopyInto lib st m = (st', m')"
  shows "view m' st' = view m st" and "nil_slices st' = nil_slices st" and "status_ok m' st'" and "extends m m'"
    and "metas m' = metas m" and "items m' = items m" and "status_fresh m m' st'"
proof -
  obtain cs hc stime ht ctime ht' ds hp hq ids hs where
    c: "copy_slice zero_condition (RecoveryCondition_DeepCopyInto lib) (r_Conditions st) (conds m) = (cs, hc)"
    and t1: "copy_time lib (r_StartTime st) (instants m) = (stime, ht)"
    and t2: "copy_time lib (r_CompletionTime st) ht = (ctime, ht')"
    and d: "copy_devices (r_NodeDevice st) (pvs m, ptrs m) = (ds, hp, hq)"
    and s: "copy_slice [] (\<lambda>x. x) (r_OperationalOSDIDs st) (strs m) = (ids, hs)"
    by (metis prod_cases3 surj_pair)
  have st': "st' = st\<lparr>r_Conditions := cs, r_StartTime := stime, r_CompletionTime := ctime, r_NodeDevice := ds,
        r_OperationalOSDIDs := ids\<rparr>"
    and m': "m' = m\<lparr>conds := hc, instants := ht', pvs := hp, ptrs := hq, strs := hs\<rparr>"
    using run by (simp_all add: NodeRecoveryStatus_DeepCopyInto_def c t1 t2 d s)
  note ok = ok [unfolded status_ok_def]
  have same: "RecoveryCondition_DeepCopyInto lib = (\<lambda>x. x)"
    by (simp add: RecoveryCondition_DeepCopyInto_def time fun_eq_iff)
  note c = copy_slice_run [OF _ c] note s = copy_slice_run [OF _ s]
  note d = copy_devices_run [OF _ _ d]
  note t1 = copy_time_run [OF _ t1 time]
  have ht: "ptr_ok ht (r_CompletionTime st)"
    using ok t1(2) by (auto simp: ptr_ok_def dest: prefix_length_le split: option.splits)
  note t2 = copy_time_run [OF ht t2 time]
  have start: "ptr_ok ht' stime" "map_option (\<lambda>a. ht' ! a) stime = map_option (\<lambda>a. instants m ! a) (r_StartTime st)"
    using ok t1(1,3) t2(2) ptr_prefix [of ht stime ht'] by (auto simp: ptr_ok_def dest: prefix_length_le split: option.splits)
  have complete: "map_option (\<lambda>a. ht' ! a) ctime = map_option (\<lambda>a. instants m ! a) (r_CompletionTime st)"
    using t2(1) ptr_prefix [of "instants m" "r_CompletionTime st" ht] ok t1(2) by simp
  show "view m' st' = view m st"
    using ok c(1) s(1) d(1) start complete by (simp add: view_def st' m' same)
  show "nil_slices st' = nil_slices st"
    using ok c(4) s(4) d(8) by (simp add: nil_slices_def st')
  show "status_ok m' st'"
    using ok c(3) s(3) d(4,5) start t2(3) by (simp add: status_ok_def st' m')
  show ext: "extends m m'"
    using ok c(2) s(2) d(2,3) prefix_order.trans [OF t1(2) t2(2)] by (simp add: extends_def m')
  show "metas m' = metas m" "items m' = items m" by (simp_all add: m')
  have "ptr_fresh (instants m) ctime"
    by (rule fresh_prefix(2) [of ht]) (use ok t1(2) t2(4) in \<open>auto simp: ptr_fresh_def split: option.splits\<close>)
  then show "status_fresh m m' st'"
    using ok c(5) d(6,7) s(5) t1(4)
    by (auto simp: status_fresh_def slice_fresh_def ptr_fresh_def list_all_iff st' m' split: option.splits)
qed

section \<open>The metadata of the library\<close>

text \<open>
  What the library promises of the deep copy of its metadata. The parameter \<open>refs\<close> gives the cells that a reference refers to
  and \<open>v\<close> what it means, which depends on these cells only. The copy means the same as the original, refers to
  new cells only and leaves the cells of before alone.
\<close>

definition copies_cells ::
  "('c list \<Rightarrow> 'x \<Rightarrow> nat set) \<Rightarrow> ('c list \<Rightarrow> 'x \<Rightarrow> 'd) \<Rightarrow> ('x \<Rightarrow> 'c list \<Rightarrow> 'x \<times> 'c list) \<Rightarrow> bool" where
  "copies_cells refs v into \<longleftrightarrow>
     (\<forall>x h h'. refs h x \<subseteq> {..<length h} \<and> length h \<le> length h' \<and> (\<forall>a\<in>refs h x. h' ! a = h ! a) \<longrightarrow>
        refs h' x = refs h x \<and> v h' x = v h x) \<and>
     (\<forall>x h x' h'. into x h = (x', h') \<longrightarrow> prefix h h' \<and>
        (refs h x \<subseteq> {..<length h} \<longrightarrow> refs h' x' \<subseteq> {length h..<length h'} \<and> v h' x' = v h x))"

lemma copies_cells_prefix:
  assumes "copies_cells refs v into" and "refs h x \<subseteq> {..<length h}" and "prefix h h'"
  shows "refs h' x = refs h x" and "v h' x = v h x"
proof -
  have "length h \<le> length h'" "\<forall>a\<in>refs h x. h' ! a = h ! a"
    using assms(2,3) by (auto simp: nth_append elim!: prefixE)
  with assms(1,2) show "refs h' x = refs h x" "v h' x = v h x" unfolding copies_cells_def by blast+
qed

lemma copies_cells_copy:
  assumes "copies_cells refs v into" and "into x h = (x', h')"
  shows "prefix h h'" and "refs h x \<subseteq> {..<length h} \<Longrightarrow> refs h' x' \<subseteq> {length h..<length h'}"
    and "refs h x \<subseteq> {..<length h} \<Longrightarrow> v h' x' = v h x"
  using assms unfolding copies_cells_def by blast+

section \<open>The copies of a recovery and of a list\<close>

definition recovery_ok :: "('c list \<Rightarrow> 'om \<Rightarrow> nat set) \<Rightarrow> ('om, 'c) mem \<Rightarrow> 'om RecoveryRef \<Rightarrow> bool" where
  "recovery_ok refs m x \<longleftrightarrow> refs (metas m) (rr_ObjectMeta x) \<subseteq> {..<length (metas m)} \<and> status_ok m (rr_Status x)"

definition recovery_view ::
  "('c list \<Rightarrow> 'om \<Rightarrow> 'd) \<Rightarrow> ('om, 'c) mem \<Rightarrow> 'om RecoveryRef \<Rightarrow> (string \<times> string) \<times> 'd \<times> bool list \<times> NodeRecoveryStatus" where
  "recovery_view v m x = (rr_TypeMeta x, v (metas m) (rr_ObjectMeta x), nil_slices (rr_Status x), view m (rr_Status x))"

definition fresh :: "('c list \<Rightarrow> 'om \<Rightarrow> nat set) \<Rightarrow> ('om, 'c) mem \<Rightarrow> ('om, 'c) mem \<Rightarrow> 'om RecoveryRef \<Rightarrow> bool" where
  "fresh refs m m' x \<longleftrightarrow> refs (metas m') (rr_ObjectMeta x) \<subseteq> {length (metas m)..} \<and> status_fresh m m' (rr_Status x)"

lemma recovery_extends:
  assumes "copies_cells refs v into" and "recovery_ok refs m x" and "extends m m'"
  shows "recovery_ok refs m' x" and "recovery_view v m' x = recovery_view v m x"
    and "refs (metas m') (rr_ObjectMeta x) = refs (metas m) (rr_ObjectMeta x)"
proof -
  have "prefix (metas m) (metas m')" using assms(3) by (simp add: extends_def)
  moreover from this have "length (metas m) \<le> length (metas m')" by (rule prefix_length_le)
  moreover note copies_cells_prefix [OF assms(1), of "metas m" "rr_ObjectMeta x" "metas m'"]
  ultimately show "recovery_ok refs m' x" "recovery_view v m' x = recovery_view v m x"
    "refs (metas m') (rr_ObjectMeta x) = refs (metas m) (rr_ObjectMeta x)"
    using assms(2,3) status_ok_extends(1) view_extends by (auto simp: recovery_ok_def recovery_view_def)
qed

lemma fresh_extends:
  assumes "copies_cells refs v into" and "fresh refs b c x" and "extends a b" and "recovery_ok refs c x" and "extends c d"
  shows "fresh refs a d x"
proof -
  have "length (metas a) \<le> length (metas b)" using assms(3) by (auto simp: extends_def dest: prefix_length_le)
  then show ?thesis
    using assms(2,3,4) recovery_extends(3) [OF assms(1,4,5)] status_fresh_extends [OF _ assms(3) _ assms(5)]
    by (auto simp: fresh_def recovery_ok_def)
qed

lemma NodeRecovery_DeepCopyInto_run:
  assumes meta: "copies_cells refs v (ObjectMeta_DeepCopyInto lib)" and time: "\<And>t. Time_DeepCopyInto lib t = t"
    and ok: "recovery_ok refs m x" and run: "NodeRecovery_DeepCopyInto lib x m = (y, m')"
  shows "recovery_view v m' y = recovery_view v m x" and "recovery_ok refs m' y" and "extends m m'"
    and "fresh refs m m' y" and "items m' = items m"
proof -
  obtain om mh where om: "ObjectMeta_DeepCopyInto lib (rr_ObjectMeta x) (metas m) = (om, mh)" by fastforce
  let ?m = "m\<lparr>metas := mh\<rparr>"
  obtain st where st: "NodeRecoveryStatus_DeepCopyInto lib (rr_Status x) ?m = (st, m')"
    and y: "y = x\<lparr>rr_ObjectMeta := om, rr_Status := st\<rparr>"
    using run by (auto simp: NodeRecovery_DeepCopyInto_def om split: prod.splits)
  have m: "view ?m = view m" "status_ok ?m = status_ok m" "status_fresh ?m = status_fresh m"
    by (simp_all add: view_def status_ok_def status_fresh_def fun_eq_iff)
  note c = NodeRecoveryStatus_DeepCopyInto_run [OF _ time st, unfolded m]
  note o = copies_cells_copy [OF meta om]
  have ok': "refs (metas m) (rr_ObjectMeta x) \<subseteq> {..<length (metas m)}" "status_ok m (rr_Status x)"
    using ok by (simp_all add: recovery_ok_def)
  have "extends m ?m" using o(1) by (simp add: extends_def)
  then show "extends m m'" using c(4) [OF ok'(2)] by (rule extends_trans)
  show "recovery_view v m' y = recovery_view v m x" "recovery_ok refs m' y" "fresh refs m m' y" "items m' = items m"
    using c [OF ok'(2)] o(2,3) [OF ok'(1)] by (auto simp: recovery_ok_def recovery_view_def fresh_def y)
qed

text \<open>The array of the items plays no part in what a recovery means.\<close>

lemma items_irrelevant [simp]:
  "recovery_view v (m\<lparr>items := is\<rparr>) = recovery_view v m" "recovery_ok refs (m\<lparr>items := is\<rparr>) = recovery_ok refs m"
  "extends a (m\<lparr>items := is\<rparr>) = extends a m" "extends (m\<lparr>items := is\<rparr>) b = extends m b"
  "fresh refs a (m\<lparr>items := is\<rparr>) = fresh refs a m"
  by (simp_all add: recovery_view_def recovery_ok_def extends_def fresh_def status_fresh_def view_def status_ok_def fun_eq_iff)

lemma copy_items_loop:
  assumes meta: "copies_cells refs v (ObjectMeta_DeepCopyInto lib)" and time: "\<And>t. Time_DeepCopyInto lib t = t"
    and slice: "slice_ok (items m) s" and ok: "\<forall>x\<in>set (elems (items m) s). recovery_ok refs m x" and "k \<le> sl_len s"
  defines "out \<equiv> \<lparr>sl_array = length (items m), sl_len = sl_len s, sl_cap = sl_len s\<rparr>"
  shows "\<exists>mk ys. foldl (copy_item lib s out) (m\<lparr>items := items m @ [replicate (sl_len s) z]\<rparr>) [0..<k] = mk \<and>
      items mk = items m @ [ys @ replicate (sl_len s - k) z] \<and> length ys = k \<and> extends m mk \<and>
      map (recovery_view v mk) ys = map (recovery_view v m) (take k (elems (items m) s)) \<and>
      (\<forall>y\<in>set ys. recovery_ok refs mk y \<and> fresh refs m mk y)"
  using assms(5)
proof (induction k)
  case 0
  then show ?case by (simp add: extends_refl)
next
  case (Suc k)
  let ?n = "sl_len s" and ?E = "elems (items m) s"
  obtain mk ys where IH: "foldl (copy_item lib s out) (m\<lparr>items := items m @ [replicate ?n z]\<rparr>) [0..<k] = mk"
    "items mk = items m @ [ys @ replicate (?n - k) z]" "length ys = k" "extends m mk"
    "map (recovery_view v mk) ys = map (recovery_view v m) (take k ?E)"
    "\<forall>y\<in>set ys. recovery_ok refs mk y \<and> fresh refs m mk y"
    using Suc by auto
  have k: "k < length ?E" using Suc.prems length_elems [OF slice] by simp
  then have take: "take (Suc k) ?E = take k ?E @ [?E ! k]" by (rule take_Suc_conv_app_nth)
  have e: "elems (items mk) s = ?E" by (rule elems_prefix [OF slice]) (simp add: IH(2))
  have old: "recovery_ok refs m (?E ! k)" using ok k by simp
  note old' = recovery_extends [OF meta old IH(4)]
  obtain y m1 where run: "NodeRecovery_DeepCopyInto lib (?E ! k) mk = (y, m1)" by fastforce
  note c = NodeRecovery_DeepCopyInto_run [OF meta time old'(1) run]
  let ?m2 = "m1\<lparr>items := write_elem out k y (items m1)\<rparr>"
  have rep: "replicate (?n - k) z = z # replicate (?n - Suc k) z"
    using Suc.prems by (metis Suc_diff_Suc Suc_le_lessD replicate_Suc)
  have i: "items ?m2 = items m @ [(ys @ [y]) @ replicate (?n - Suc k) z]"
    by (simp add: c(5) IH(2,3) write_elem_def out_def rep list_update_append)
  have ys: "recovery_view v m1 x = recovery_view v mk x" "recovery_ok refs m1 x" "fresh refs m m1 x" if "x \<in> set ys" for x
    using IH(6) that recovery_extends [OF meta _ c(3)] fresh_extends [OF meta _ extends_refl _ c(3), of m x] by auto
  have y: "fresh refs m m1 y" by (rule fresh_extends [OF meta c(4) IH(4) c(2) extends_refl])
  have "foldl (copy_item lib s out) (m\<lparr>items := items m @ [replicate ?n z]\<rparr>) [0..<Suc k] = ?m2"
    using IH(1) e run by (simp add: copy_item_def)
  moreover have "extends m ?m2" using extends_trans [OF IH(4) c(3)] by simp
  moreover have "map (recovery_view v ?m2) (ys @ [y]) = map (recovery_view v m) (take (Suc k) ?E)"
    using IH(5) ys(1) c(1) old'(2) take by (simp cong: map_cong)
  moreover have "\<forall>x\<in>set (ys @ [y]). recovery_ok refs ?m2 x \<and> fresh refs m ?m2 x"
    using ys y c(2) by auto
  ultimately show ?case using i IH(3) by (intro exI [of _ ?m2] exI [of _ "ys @ [y]"]) simp
qed

text \<open>What a list means, that its references are valid, and that they are fresh; \<open>lrefs\<close> and \<open>lv\<close> are for the metadata of the list.\<close>

definition list_ok ::
  "('c list \<Rightarrow> 'om \<Rightarrow> nat set) \<Rightarrow> ('c list \<Rightarrow> 'lm \<Rightarrow> nat set) \<Rightarrow> ('om, 'c) mem \<Rightarrow> ('om, 'lm) ListRef \<Rightarrow> bool" where
  "list_ok refs lrefs m l \<longleftrightarrow>
     lrefs (metas m) (lr_ListMeta l) \<subseteq> {..<length (metas m)} \<and> slice_opt_ok (items m) (lr_Items l) \<and>
     list_all (recovery_ok refs m) (list_of (items m) (lr_Items l))"

definition list_view ::
  "('c list \<Rightarrow> 'om \<Rightarrow> 'd) \<Rightarrow> ('c list \<Rightarrow> 'lm \<Rightarrow> 'e) \<Rightarrow> ('om, 'c) mem \<Rightarrow> ('om, 'lm) ListRef \<Rightarrow>
   (string \<times> string) \<times> 'e \<times> bool \<times> ((string \<times> string) \<times> 'd \<times> bool list \<times> NodeRecoveryStatus) list" where
  "list_view v lv m l =
     (lr_TypeMeta l, lv (metas m) (lr_ListMeta l), lr_Items l = None,
      map (recovery_view v m) (list_of (items m) (lr_Items l)))"

definition list_fresh ::
  "('c list \<Rightarrow> 'om \<Rightarrow> nat set) \<Rightarrow> ('c list \<Rightarrow> 'lm \<Rightarrow> nat set) \<Rightarrow> ('om, 'c) mem \<Rightarrow> ('om, 'c) mem \<Rightarrow>
   ('om, 'lm) ListRef \<Rightarrow> bool" where
  "list_fresh refs lrefs m m' l \<longleftrightarrow>
     lrefs (metas m') (lr_ListMeta l) \<subseteq> {length (metas m)..} \<and> slice_fresh (items m) (lr_Items l) \<and>
     list_all (fresh refs m m') (list_of (items m') (lr_Items l))"

lemma NodeRecoveryList_DeepCopyInto_run:
  assumes meta: "copies_cells refs v (ObjectMeta_DeepCopyInto lib)" "copies_cells lrefs lv (ListMeta_DeepCopyInto lib)"
    and time: "\<And>t. Time_DeepCopyInto lib t = t"
    and ok: "list_ok refs lrefs m l" and run: "NodeRecoveryList_DeepCopyInto lib l m = (l', m')"
  shows "list_view v lv m' l' = list_view v lv m l" and "list_fresh refs lrefs m m' l'"
    and "extends m m'" and "prefix (items m) (items m')"
proof -
  obtain lm mh where lm: "ListMeta_DeepCopyInto lib (lr_ListMeta l) (metas m) = (lm, mh)" by fastforce
  note o = copies_cells_copy [OF meta(2) lm]
  let ?m1 = "m\<lparr>metas := mh\<rparr>"
  have k1: "extends m ?m1" using o(1) by (simp add: extends_def)
  have l: "lrefs (metas m) (lr_ListMeta l) \<subseteq> {..<length (metas m)}" "slice_opt_ok (items m) (lr_Items l)"
    "list_all (recovery_ok refs m) (list_of (items m) (lr_Items l))"
    using ok by (simp_all add: list_ok_def)
  have "list_view v lv m' l' = list_view v lv m l \<and> list_fresh refs lrefs m m' l' \<and> extends m m' \<and> prefix (items m) (items m')"
  proof (cases "lr_Items l")
    case None
    then have "l' = l\<lparr>lr_ListMeta := lm\<rparr>" "m' = ?m1" using run lm by (simp_all add: NodeRecoveryList_DeepCopyInto_def)
    then show ?thesis
      using o(2,3) [OF l(1)] k1 None by (auto simp: list_view_def list_fresh_def list_of_def slice_fresh_def)
  next
    case (Some sl)
    have sl: "slice_ok (items ?m1) sl" "\<forall>x\<in>set (elems (items ?m1) sl). recovery_ok refs ?m1 x"
      using l(2,3) Some recovery_extends(1) [OF meta(1) _ k1] by (simp_all add: slice_opt_ok_def list_of_def list_all_iff)
    let ?out = "\<lparr>sl_array = length (items m), sl_len = sl_len sl, sl_cap = sl_len sl\<rparr>"
    obtain ys where c: "l' = l\<lparr>lr_ListMeta := lm, lr_Items := Some ?out\<rparr>"
      "items m' = items m @ [ys]" "length ys = sl_len sl" "extends ?m1 m'"
      "map (recovery_view v m') ys = map (recovery_view v ?m1) (elems (items m) sl)" "\<forall>y\<in>set ys. recovery_ok refs m' y \<and> fresh refs ?m1 m' y"
      using copy_items_loop [OF meta(1) time sl le_refl, of "zero_recovery lib"] run length_elems [OF sl(1)]
      by (auto simp: NodeRecoveryList_DeepCopyInto_def lm Some make_slice_def Let_def)
    have ys: "list_of (items m') (lr_Items l') = ys" using c(1-3) by (auto simp: list_of_def elems_def)
    have old: "map (recovery_view v ?m1) (elems (items m) sl) = map (recovery_view v m) (elems (items m) sl)"
      using l(3) Some recovery_extends(2) [OF meta(1) _ k1] by (auto simp: list_of_def list_all_iff)
    have lref: "lrefs mh lm \<subseteq> {length (metas m)..<length mh}" "lv mh lm = lv (metas m) (lr_ListMeta l)"
      using o(2,3) [OF l(1)] by simp_all
    have "lrefs mh lm \<subseteq> {..<length mh}" using lref(1) by auto
    from copies_cells_prefix [OF meta(2) this, of "metas m'"] c(4)
    have "lrefs (metas m') lm = lrefs mh lm" "lv (metas m') lm = lv mh lm" by (simp_all add: extends_def)
    moreover have "fresh refs m m' y" if "y \<in> set ys" for y
      using fresh_extends [OF meta(1) _ k1 _ extends_refl] c(6) that by blast
    ultimately show ?thesis
      using c(1,2,5) ys old lref Some extends_trans [OF k1 c(4)]
      by (auto simp: list_view_def list_fresh_def slice_fresh_def list_all_iff list_of_def)
  qed
  then show "list_view v lv m' l' = list_view v lv m l" "list_fresh refs lrefs m m' l'" "extends m m'" "prefix (items m) (items m')"
    by blast+
qed

section \<open>Writes through a list\<close>

text \<open>
  A write through a reference, to anything that it refers to: an element of an array, the cell of a pointer, a cell
  of the metadata, an item of a list or something that an item refers to. A write through nil and a write out of range
  have no effect.
\<close>

datatype 'c item_write =
    SetCondition nat RecoveryCondition
  | SetStartTime time
  | SetCompletionTime time
  | SetDevicePointer nat "nat option"
  | SetDevice nat NodePV
  | SetOperationalOSDID nat string
  | SetObjectMeta nat 'c

datatype ('om, 'c) list_write =
    SetItem nat "'om RecoveryRef"
  | SetListMeta nat 'c
  | ThroughItem nat "'c item_write"

definition write_slice :: "slice option \<Rightarrow> nat \<Rightarrow> 'a \<Rightarrow> 'a list list \<Rightarrow> 'a list list" where
  "write_slice s i x h = (case s of None \<Rightarrow> h | Some sl \<Rightarrow> if i < sl_len sl then write_elem sl i x h else h)"

definition write_cell :: "nat option \<Rightarrow> 'a \<Rightarrow> 'a list \<Rightarrow> 'a list" where
  "write_cell p x h = (case p of None \<Rightarrow> h | Some a \<Rightarrow> h[a := x])"

definition device_pointer :: "StatusRef \<Rightarrow> nat \<Rightarrow> ('om, 'c) mem \<Rightarrow> nat option" where
  "device_pointer st i m =
     (let ps = list_of (ptrs m) (r_NodeDevice st) in if i < length ps then ps ! i else None)"

fun write_item :: "('c list \<Rightarrow> 'om \<Rightarrow> nat set) \<Rightarrow> 'om RecoveryRef \<Rightarrow> 'c item_write \<Rightarrow> ('om, 'c) mem \<Rightarrow> ('om, 'c) mem" where
  "write_item refs x (SetCondition i cd) m = m\<lparr>conds := write_slice (r_Conditions (rr_Status x)) i cd (conds m)\<rparr>"
| "write_item refs x (SetStartTime t) m = m\<lparr>instants := write_cell (r_StartTime (rr_Status x)) t (instants m)\<rparr>"
| "write_item refs x (SetCompletionTime t) m = m\<lparr>instants := write_cell (r_CompletionTime (rr_Status x)) t (instants m)\<rparr>"
| "write_item refs x (SetDevicePointer i p) m = m\<lparr>ptrs := write_slice (r_NodeDevice (rr_Status x)) i p (ptrs m)\<rparr>"
| "write_item refs x (SetDevice i pv) m = m\<lparr>pvs := write_cell (device_pointer (rr_Status x) i m) pv (pvs m)\<rparr>"
| "write_item refs x (SetOperationalOSDID i osd) m = m\<lparr>strs := write_slice (r_OperationalOSDIDs (rr_Status x)) i osd (strs m)\<rparr>"
| "write_item refs x (SetObjectMeta a d) m = (if a \<in> refs (metas m) (rr_ObjectMeta x) then m\<lparr>metas := (metas m)[a := d]\<rparr> else m)"

fun write_list ::
  "('c list \<Rightarrow> 'om \<Rightarrow> nat set) \<Rightarrow> ('c list \<Rightarrow> 'lm \<Rightarrow> nat set) \<Rightarrow> ('om, 'lm) ListRef \<Rightarrow> ('om, 'c) list_write \<Rightarrow>
   ('om, 'c) mem \<Rightarrow> ('om, 'c) mem" where
  "write_list refs lrefs l (SetItem i x) m = m\<lparr>items := write_slice (lr_Items l) i x (items m)\<rparr>"
| "write_list refs lrefs l (SetListMeta a d) m = (if a \<in> lrefs (metas m) (lr_ListMeta l) then m\<lparr>metas := (metas m)[a := d]\<rparr> else m)"
| "write_list refs lrefs l (ThroughItem i w) m =
     (let xs = list_of (items m) (lr_Items l) in if i < length xs then write_item refs (xs ! i) w m else m)"

lemma prefix_update: "prefix h h' \<Longrightarrow> length h \<le> a \<Longrightarrow> prefix h (h'[a := x])"
  by (erule prefixE) (simp add: list_update_append)

lemma prefix_write:
  "prefix h h' \<Longrightarrow> slice_fresh h s \<Longrightarrow> prefix h (write_slice s i x h')"
  "prefix l l' \<Longrightarrow> ptr_fresh l p \<Longrightarrow> prefix l (write_cell p y l')"
  by (auto simp: write_slice_def write_elem_def slice_fresh_def write_cell_def ptr_fresh_def intro: prefix_update split: option.splits)

text \<open>A write through a fresh reference leaves everything that \<open>m\<close> had.\<close>

lemma fresh_write_item:
  assumes "extends m m'" and "fresh refs m m' x"
  shows "extends m (write_item refs x w m')" and "items (write_item refs x w m') = items m'"
proof -
  have "ptr_fresh (pvs m) (device_pointer (rr_Status x) i m')" for i
    using assms(2) by (auto simp: device_pointer_def Let_def fresh_def status_fresh_def list_all_length ptr_fresh_def)
  then show "extends m (write_item refs x w m')"
    using assms by (cases w) (auto simp: extends_def fresh_def status_fresh_def intro: prefix_write prefix_update)
  show "items (write_item refs x w m') = items m'" by (cases w) simp_all
qed

lemma fresh_write_list:
  assumes "extends m m'" and "prefix (items m) (items m')" and "list_fresh refs lrefs m m' l"
  shows "extends m (write_list refs lrefs l w m')" and "prefix (items m) (items (write_list refs lrefs l w m'))"
proof -
  have "fresh refs m m' (list_of (items m') (lr_Items l) ! i)" if "i < length (list_of (items m') (lr_Items l))" for i
    using assms(3) that by (simp add: list_fresh_def list_all_length)
  note item = fresh_write_item [OF assms(1) this]
  have "prefix (metas m) ((metas m')[a := d])" if "a \<in> lrefs (metas m') (lr_ListMeta l)" for a d
    using assms(1,3) that by (auto simp: list_fresh_def extends_def intro: prefix_update)
  then show "extends m (write_list refs lrefs l w m')"
    using assms(1) item(1) by (cases w) (auto simp: extends_def Let_def)
  show "prefix (items m) (items (write_list refs lrefs l w m'))"
    using assms item(2) by (cases w) (auto simp: list_fresh_def Let_def intro: prefix_write)
qed

lemma list_view_extends:
  assumes "copies_cells refs v into" and "copies_cells lrefs lv linto"
    and "list_ok refs lrefs m l" and "extends m m'" and "prefix (items m) (items m')"
  shows "list_view v lv m' l = list_view v lv m l"
proof -
  have "lv (metas m') (lr_ListMeta l) = lv (metas m) (lr_ListMeta l)"
    using copies_cells_prefix(2) [OF assms(2)] assms(3,4) by (auto simp: list_ok_def extends_def)
  moreover have "list_of (items m') (lr_Items l) = list_of (items m) (lr_Items l)"
    using assms(3,5) by (intro list_of_prefix) (simp_all add: list_ok_def)
  ultimately show ?thesis
    using assms(3) recovery_extends(2) [OF assms(1) _ assms(4)] by (auto simp: list_view_def list_ok_def list_all_iff)
qed

text \<open>
  C40. A deep copy of a list of recoveries means the same as the list, its metadata and its items included, and shares no memory with
  anything that existed before: all arrays and cells that the copy refers to were allocated after it was called. So every
  list and every recovery of before means the same after the copy, also after any write through the copy,
  be it to its items, its metadata or to the conditions, times, devices, ids or metadata of an item.
\<close>

theorem deep_copy_independent:
  assumes meta: "copies_cells refs v (ObjectMeta_DeepCopyInto lib)" "copies_cells lrefs lv (ListMeta_DeepCopyInto lib)"
    and time: "\<And>t. Time_DeepCopyInto lib t = t" and ok: "list_ok refs lrefs m l"
    and copy: "NodeRecoveryList_DeepCopyObject lib (Some l) m = (Some (ListObject l'), m')"
  shows "list_view v lv m' l' = list_view v lv m l \<and> list_fresh refs lrefs m m' l' \<and>
    (\<forall>k. list_ok refs lrefs m k \<longrightarrow> list_view v lv m' k = list_view v lv m k \<and>
       (\<forall>w. list_view v lv (write_list refs lrefs l' w m') k = list_view v lv m k)) \<and>
    (\<forall>x. recovery_ok refs m x \<longrightarrow> recovery_view v m' x = recovery_view v m x \<and>
       (\<forall>w. recovery_view v (write_list refs lrefs l' w m') x = recovery_view v m x))"
proof -
  have "NodeRecoveryList_DeepCopyInto lib l m = (l', m')"
    using copy
    by (auto simp: NodeRecoveryList_DeepCopyObject_def NodeRecoveryList_DeepCopy_def deep_copy_def
      split: prod.splits option.splits)
  note c = NodeRecoveryList_DeepCopyInto_run [OF meta time ok this]
  note w = fresh_write_list [OF c(3,4,2)]
  show ?thesis
    using c list_view_extends [OF meta _ c(3,4)] list_view_extends [OF meta _ w]
      recovery_extends(2) [OF meta(1) _ c(3)] recovery_extends(2) [OF meta(1) _ w(1)] by blast
qed

text \<open>
  A list with one recovery, which has one condition, one device and a nil device, two ids, and whose metadata is a cell with its name.
\<close>

definition sample_copy_lib :: "(nat, unit, string) copy_lib" where
  "sample_copy_lib =
     \<lparr>Time_DeepCopyInto = (\<lambda>t. t), ObjectMeta_DeepCopyInto = (\<lambda>a h. (length h, h @ [h ! a])),
      ListMeta_DeepCopyInto = (\<lambda>x h. (x, h)), zero_ObjectMeta = 0\<rparr>"

definition sample_item :: "nat RecoveryRef" where
  "sample_item =
     \<lparr>rr_TypeMeta = (''NodeRecovery'', ''odf.openshift.io/v1alpha1''), rr_ObjectMeta = 0, rr_Spec = (),
      rr_Status = zero_status\<lparr>r_Phase := RunningPhase,
        r_Conditions := Some \<lparr>sl_array = 0, sl_len = 1, sl_cap = 1\<rparr>, r_StartTime := Some 0,
        r_NodeDevice := Some \<lparr>sl_array = 0, sl_len = 2, sl_cap = 2\<rparr>,
        r_OperationalOSDIDs := Some \<lparr>sl_array = 0, sl_len = 2, sl_cap = 2\<rparr>\<rparr>\<rparr>"

definition sample_mem :: "(nat, string) mem" where
  "sample_mem =
     \<lparr>conds = [[zero_condition\<lparr>cond_Type := EnableCephToolsPod\<rparr>]], instants = [7], pvs = [zero_pv\<lparr>nd_NodeName := ''node-2''\<rparr>],
      ptrs = [[Some 0, None]], strs = [[''1'', ''2'']], items = [[sample_item]], metas = [''rec'']\<rparr>"

definition sample_list :: "(nat, unit) ListRef" where
  "sample_list = \<lparr>lr_TypeMeta = ([], []), lr_ListMeta = (), lr_Items = Some \<lparr>sl_array = 0, sl_len = 1, sl_cap = 1\<rparr>\<rparr>"

lemma sample_copies_cells:
  "copies_cells (\<lambda>h a. {a}) (\<lambda>h a. h ! a) (ObjectMeta_DeepCopyInto sample_copy_lib)"
  "copies_cells (\<lambda>h a. {}) (\<lambda>h a. a) (ListMeta_DeepCopyInto sample_copy_lib)"
  by (auto simp: copies_cells_def sample_copy_lib_def nth_append)

theorem deep_copy_independent_witness:
  "\<exists>l' m'. NodeRecoveryList_DeepCopyObject sample_copy_lib (Some sample_list) sample_mem = (Some (ListObject l'), m') \<and>
     map rr_ObjectMeta (list_of (items m') (lr_Items l')) = [1] \<and>
     map (\<lambda>w. recovery_view (\<lambda>h a. h ! a) (write_list (\<lambda>h a. {a}) (\<lambda>h a. {}) l' (ThroughItem 0 w) m') sample_item)
       [SetDevice 0 zero_pv, SetOperationalOSDID 1 ''9'', SetObjectMeta 1 ''other''] =
     replicate 3 (recovery_view (\<lambda>h a. h ! a) sample_mem sample_item)"
proof -
  let ?run = "NodeRecoveryList_DeepCopyInto sample_copy_lib sample_list sample_mem"
  obtain l' m' where run: "?run = (l', m')" by fastforce
  then have obj: "NodeRecoveryList_DeepCopyObject sample_copy_lib (Some sample_list) sample_mem = (Some (ListObject l'), m')"
    by (simp add: NodeRecoveryList_DeepCopyObject_def NodeRecoveryList_DeepCopy_def deep_copy_def)
  have ok: "list_ok (\<lambda>h a. {a}) (\<lambda>h a. {}) sample_mem sample_list" "recovery_ok (\<lambda>h a. {a}) sample_mem sample_item"
    "map rr_ObjectMeta (list_of (items (snd ?run)) (lr_Items (fst ?run))) = [1]"
    by code_simp+
  have "Time_DeepCopyInto sample_copy_lib t = t" for t by (simp add: sample_copy_lib_def)
  from deep_copy_independent [OF sample_copies_cells this ok(1) obj] ok(2)
  have "recovery_view (\<lambda>h a. h ! a) (write_list (\<lambda>h a. {a}) (\<lambda>h a. {}) l' w m') sample_item =
      recovery_view (\<lambda>h a. h ! a) sample_mem sample_item" for w
    by blast
  moreover have "map rr_ObjectMeta (list_of (items m') (lr_Items l')) = [1]" using ok(3) by (simp add: run)
  ultimately show ?thesis using obj by (intro exI [of _ l'] exI [of _ m']) (simp add: eval_nat_numeral del: write_list.simps)
qed

end
