(* ===== verification/Spec2Isabelle.thy ===== *)
theory Spec2Isabelle
  imports Health_Report Ceph_Properties Recovery_Ops_Properties Step_Properties Recovery_Ends Lost_Updates Panics
    Justified_Writes Main_Properties Field_Indexes Rbac Deep_Copy
begin

text \<open>
  Verification of the ODF node recovery operator, the Go program under \<open>src/\<close>: a Kubernetes operator that
  recovers an OpenShift Data Foundation cluster after a node or a disk was replaced. A user creates a
  \<open>NodeRecovery\<close> object; the controller drives it through up to fourteen conditions, one step per
  reconciliation, until it is \<open>Completed\<close> or \<open>Failed\<close>.

  \<^bold>\<open>The parts and their models.\<close>

  \<^item> \<open>Prelude\<close>: computations with a state, errors and panics (\<open>comp\<close>: \<open>Ok\<close>, \<open>Err\<close>, \<open>Panic\<close>), loops over lists,
    weakest preconditions, and the locale \<open>preorder_contract\<close>, a calculus of contracts between the state
    before and after, interpreted for the trace, the object in memory and the heap.
  \<^item> \<open>Go_Stdlib\<close>, \<open>Go_Json\<close>, \<open>Go_Slice\<close>: what the program uses of Go's library and language: errors, strings,
    time, \<open>json.Unmarshal\<close> into the health status, slices with capacity and \<open>append\<close>.
  \<^item> \<open>Api_Types\<close>, \<open>Api_Group\<close>, \<open>Deep_Copy\<close>: \<open>api/v1alpha1\<close>. The types of the status and its conditions, the group
    and its registration, and the deep copies on an explicit memory.
  \<^item> \<open>Kube_Types\<close>, \<open>Environment\<close>: the objects of the cluster with the fields the code reads, and the boundary:
    the record \<open>external\<close> holds everything that is not in the repository (the API server, the clock, the
    template processor, the transport of remote commands, the order of a \<open>range\<close> over a map), a function on
    an unspecified world each. The state \<open>st\<close> is the world, the \<open>NodeRecovery\<close> in memory and the trace of all
    requests, commands, events and metric increments.
  \<^item> \<open>Monitoring\<close>: \<open>monitoring/metrics.go\<close>. \<open>Remote_Command\<close>: \<open>internal/controller/pod/remote_command.go\<close> and the log
    client of \<open>node_recovery_reconciler.go\<close>. \<open>Privileged_Pod\<close>: \<open>internal/controller/pod/privileged_pod.go\<close>.
  \<^item> \<open>Recoverer\<close>: \<open>internal/controller/const.go\<close> and the struct \<open>NodeRecovery\<close> with the functions on its conditions.
    \<open>Ceph\<close>: \<open>internal/controller/ceph.go\<close>. \<open>Recovery_Ops\<close>: the methods of \<open>node_recovery_reconciler.go\<close> that the steps call.
    \<open>Reconciler\<close>: its \<open>Reconcile\<close>, one definition per case of the switch, in the order of the code.
  \<^item> \<open>Controller\<close>: \<open>internal/controller/noderecovery_controller.go\<close>. \<open>Rbac\<close>: its RBAC markers.
    \<open>Operator_Main\<close>: \<open>cmd/main.go\<close>.

  A method of the code is the definition of the same name; \<open>step_<condition>\<close> is the case of the switch for
  that condition, and \<open>controller_Reconcile\<close> is the \<open>Reconcile\<close> of the controller. A returned error is \<open>Err\<close>; a
  nil dereference and the panic of \<open>NewForConfigOrDie\<close> are \<open>Panic\<close>; the state survives both. \<open>main\<close> ends with \<open>Err n\<close> for
  \<open>os.Exit(n)\<close>; it keeps the calls it has made (\<open>ms_calls\<close>) and those that failed (\<open>ms_failed\<close>).

  \<^bold>\<open>What is shown.\<close>

  \<^item> The life of a recovery (this theory, \<open>Recovery_Ends\<close>; C1 to C10). \<open>Recovery_Machine\<close> gives the abstract machine: the
    graph \<open>edge\<close> of the conditions, \<open>recovery_step\<close>, and the invariant \<open>wf_status\<close>. \<open>Step_Contracts\<close> proves for every
    step the contract \<open>step_contract\<close>, \<open>Step_Effects\<close> which writes it may make, and \<open>Lifecycle\<close> lifts both to runs of the
    controller: \<open>stores c i i'\<close> (a run loads \<open>i\<close> and stores \<open>i'\<close>) and \<open>reachable c f i\<close> (\<open>i\<close> can be loaded, where \<open>f\<close> is the
    rounding of instants by the API server). Every stored status is a step of the machine (C1); every recovery
    ends after finitely many passes, also when passes fail or lose their status (C2); requests, conditions,
    history, completion, finality, queueing, errors and devices (C3 to C10).
  \<^item> Why the operator changes what it changes (\<open>Justified_Writes\<close>, C11): every request that changes the cluster is traced back to an
    answer of the API server and to the recorded devices, and an object that is written back differs from the one
    that was read only in the field the operator is responsible for.
  \<^item> Sequences of passes (\<open>Lost_Updates\<close>): what becomes of the Ceph tools, which the recoveries share, when every status is stored (C27),
    when the status of a pass is lost (C12) and when two recoveries alternate (C13). \<open>Tools_Flag\<close> follows the flag
    \<open>KeepCephToolsPod\<close> through a recovery; its locale \<open>tools_store\<close> says what is assumed of the API server.
  \<^item> The health report (\<open>Health_Report\<close>, C14): a printer for JSON that the parser of \<open>Go_Json\<close> inverts, and the way of a report from the
    remote command to the status that the fitness check compares.
  \<^item> The operations on Ceph (\<open>Ceph_Properties\<close>, C15 and C16) and on the cluster (\<open>Recovery_Ops_Properties\<close>, C17 to C24).
  \<^item> The decisions of the steps (\<open>Step_Properties\<close>, C25, C26 and C28 to C31): timeouts at their exact bounds, and what must
    hold before a step is left.
  \<^item> Panics (\<open>Panics\<close>, C32 and C33): a pass can panic in five conditions, by three nil dereferences and, in the fitness check, by
    \<open>NewForConfigOrDie\<close>; the nil dereferences occur.
  \<^item> The program (\<open>Main_Properties\<close>, C34 and C35), the indexes of the manager's cache against the lists of the recovery
    (\<open>Field_Indexes\<close>, C36), its permissions (\<open>Rbac\<close>, C37), the privileged pod (\<open>Privileged_Pod\<close>, C38 and
    C39) and the deep copies (\<open>Deep_Copy\<close>, C40).

  \<open>Sample_Cluster\<close> and \<open>Sample_Runs\<close> are a concrete cluster as an \<open>external\<close>, and runs on it evaluated in the
  kernel; the witnesses apply the theorems there.

  \<^bold>\<open>Bounds and assumptions.\<close> Nothing uses fuel: every loop of the code runs over a list, and the definitions are
  total; \<open>trim_prefix\<close> and \<open>unquote\<close>, which skip several bytes at a time, have termination proofs. Instants and durations are integers in
  nanoseconds; the code adds and compares them far from the limits of 64 bits. Theorems about the life of a
  recovery assume \<open>sane_clock\<close>: the clock is not at the zero instant, and rounding is idempotent. C2 assumes a
  clock that does not go back and goes on, that infinitely many passes get through to the API server, and that the server keeps what
  was stored and refuses a status only for two conditions of the same type, as the schema of the resource declares.

  The texts of the errors of \<open>json.Unmarshal\<close> are one text, and lower-casing is that of ASCII, which the success message of the removal
  job is in. C40 assumes of the library that a copy of its metadata refers to new cells only (\<open>copies_cells\<close>).

  \<^bold>\<open>Not modelled.\<close> Log lines (they have no effect on behaviour); contexts and cancellation; the JSON and protobuf
  tags of the API types; concurrency within a pass, which the controller's queue of one worker excludes; the tests and
  the manifests under \<open>config/\<close>. The libraries are parameters and are not verified.
\<close>

section \<open>The life of a recovery\<close>

text \<open>
  C1. Every status the controller stores is one step of the abstract recovery machine away
  from the status it loaded: it waits, moves along one edge of the graph of conditions,
  fails, or completes from \<open>DisableCephTools\<close>; the first run starts the machine first.
\<close>

theorem stored_status_refines_machine:
  assumes "reachable c f i" and "sane_clock c f" and "stores c i i'"
  shows "recovery_step (machine_begin (machine_of (Status i))) (machine_of (Status i'))"
proof -
  have inv: "life_inv (Status i)" by (rule reachable_inv) fact+
  obtain t t2 res where "handled (begun t t2 (Status i)) res (Status i')" "\<forall>p. res \<noteq> Panic p"
    "wf_status (begun t t2 (Status i))" "Phase (begun t t2 (Status i)) = RunningPhase"
    by (rule stores_handled [OF assms(3) inv])
  note step = handled_step [OF this]
  have "Phase (Status i) \<noteq> FailedPhase" "Phase (Status i) \<noteq> CompletedPhase"
    by (rule storesE [OF assms(3)], assumption)+
  with step inv show ?thesis by (simp add: machine_of_begun)
qed

theorem stored_status_refines_machine_witness:
  "recovery_step \<lparr>m_phase = RunningPhase, m_history = [EnableCephToolsPod]\<rparr>
     \<lparr>m_phase = RunningPhase, m_history = [EnableCephToolsPod, WaitForCephToolsPodRunning]\<rparr> \<and>
   recovery_step \<lparr>m_phase = RunningPhase, m_history = short_path\<rparr>
     \<lparr>m_phase = CompletedPhase, m_history = short_path\<rparr>"
proof
  have "machine_begin (machine_of (Status new_recovery)) =
      \<lparr>m_phase = RunningPhase, m_history = [EnableCephToolsPod]\<rparr>"
    "machine_of (Status (running_at (take 2 short_path))) =
      \<lparr>m_phase = RunningPhase, m_history = [EnableCephToolsPod, WaitForCephToolsPodRunning]\<rparr>"
    by code_simp+
  then show "recovery_step \<lparr>m_phase = RunningPhase, m_history = [EnableCephToolsPod]\<rparr>
     \<lparr>m_phase = RunningPhase, m_history = [EnableCephToolsPod, WaitForCephToolsPodRunning]\<rparr>"
    using stored_status_refines_machine [OF reach_new sample_clock stores_new] by simp
  have "machine_begin (machine_of (Status (running_at (take 9 short_path)))) =
      \<lparr>m_phase = RunningPhase, m_history = short_path\<rparr>"
    "machine_of (Status completed_recovery) = \<lparr>m_phase = CompletedPhase, m_history = short_path\<rparr>"
    by code_simp+
  then show "recovery_step \<lparr>m_phase = RunningPhase, m_history = short_path\<rparr>
     \<lparr>m_phase = CompletedPhase, m_history = short_path\<rparr>"
    using stored_status_refines_machine [OF reach_last sample_clock stores_last] by simp
qed

text \<open>
  C3. A run of the controller on a live recovery makes its requests in a fixed order: it
  loads the object, counts the recovery if and only if this run starts it, makes only the
  writes that belong to the current condition, and, unless the step panicked, ends by
  storing the status, once, with or without an error of the step. Commands are such writes: only the fitness check
  runs any, and only the two of \<open>ceph_command\<close>.
\<close>

theorem live_run_requests:
  assumes "reachable c f i" and "sane_clock c f"
    and "Get_NodeRecovery c req (world s) = (Inr i, w)" and "IsZero (nr_DeletionTimestamp i)"
    and "Phase (Status i) \<noteq> FailedPhase" and "Phase (Status i) \<noteq> CompletedPhase"
    and "controller_Reconcile (wired_controller c) req s = (out, s')"
  shows "\<exists>started es store. trace s' = trace s @ [GetCall KNodeRecovery req] @ started @ es @ store \<and>
      started = (if IsZero (StartTime (Status i)) then [CounterInc TotalOperandInstances] else []) \<and>
      (\<forall>e\<in>set es. e \<noteq> CounterInc TotalOperandInstances \<and>
         (is_write e \<longrightarrow> step_write (last (m_history (machine_begin (machine_of (Status i))))) e)) \<and>
      (case out of Panic _ \<Rightarrow> store = [] | _ \<Rightarrow> (\<exists>i'. store = [UpdateStatus i']))"
proof -
  obtain st0 res i' es1 es2 stored where *:
    "machine_of st0 = machine_begin (machine_of (Status i))"
    "wf_status st0" "Phase st0 = RunningPhase" "handled st0 res (Status i')"
    "es1 = (if IsZero (StartTime (Status i)) then [CounterInc TotalOperandInstances] else [])"
    "list_all (step_effect (current_type st0)) es2"
    "trace s' = trace s @ GetCall KNodeRecovery req # es1 @ es2 @
       (if \<exists>p. res = Panic p then [] else [UpdateStatus i'])"
    "out = controller_out res stored"
    by (rule live_run [OF assms])
  have "current_type st0 = last (m_history (machine_begin (machine_of (Status i))))"
    using *(1,2) by (metis last_cond_types machine.select_convs(2) machine_of_def wf_status_conditions)
  then have es2: "\<forall>e\<in>set es2. e \<noteq> CounterInc TotalOperandInstances \<and>
         (is_write e \<longrightarrow> step_write (last (m_history (machine_begin (machine_of (Status i))))) e)"
    using *(6) by (auto simp: list_all_iff step_effect_def)
  show ?thesis
    by (rule exI [of _ es1], rule exI [of _ es2],
        rule exI [of _ "if \<exists>p. res = Panic p then [] else [UpdateStatus i']"])
      (use * es2 in \<open>auto simp: controller_out_def split: result.splits\<close>)
qed

theorem live_run_requests_witness:
  "\<exists>es i'. trace (snd (run_in healthy new_recovery)) =
       [GetCall KNodeRecovery recovery_key, CounterInc TotalOperandInstances] @ es @ [UpdateStatus i'] \<and>
     (\<forall>e\<in>set es. is_write e \<longrightarrow> sets_tools True e)"
proof -
  have out: "fst (run_in healthy new_recovery) = Ok (requeue_after (10 * Second), None)" by code_simp
  have facts: "IsZero (nr_DeletionTimestamp new_recovery)" "Phase (Status new_recovery) \<noteq> FailedPhase"
    "Phase (Status new_recovery) \<noteq> CompletedPhase" "IsZero (StartTime (Status new_recovery))"
    "last (m_history (machine_begin (machine_of (Status new_recovery)))) = EnableCephToolsPod"
    "trace (at_rest (healthy new_recovery) new_recovery) = []" "nr_Name new_recovery = ''rec''"
    by code_simp+
  have "controller_Reconcile (wired_controller sample) recovery_key (at_rest (healthy new_recovery) new_recovery) =
      (Ok (requeue_after (10 * Second), None), snd (run_in healthy new_recovery))"
    using out by (simp add: run_in_def prod_eq_iff)
  from live_run_requests [OF reach_new sample_clock sample_get [of healthy, OF sample_recoveries(1) facts(7)] facts(1-3) this]
  show ?thesis by (force simp: facts)
qed

text \<open>
  C4. A recovery that has started and whose status the controller can load has exactly one
  condition with status \<open>True\<close>: the latest one.
\<close>

theorem only_latest_condition_true:
  assumes "reachable c f i" and "sane_clock c f" and "Phase (Status i) \<noteq> PhaseUnset"
  shows "filter (\<lambda>cd. cond_Status cd = StatusTrue) (Conditions (Status i)) = [last (Conditions (Status i))]"
  using reachable_wf [OF assms] by (simp add: wf_status_def conditions_wf_filter)

theorem only_latest_condition_true_witness:
  "filter (\<lambda>cd. cond_Status cd = StatusTrue) (Conditions (Status completed_recovery)) =
     [sample_condition StatusTrue DisableCephTools]"
proof -
  have "Phase (Status completed_recovery) \<noteq> PhaseUnset" by code_simp
  from only_latest_condition_true [OF reach_completed sample_clock this]
  show ?thesis by (simp add: completed_recovery_def running_at_def short_path_def)
qed

text \<open>
  C5. The conditions recorded by a started recovery form a path of the graph that begins in
  \<open>EnableCephToolsPod\<close>; their ranks never decrease, none but \<open>ForceDeleteRookCephOSDPods\<close> is
  entered twice, and so at most thirteen others are ever entered.
\<close>

theorem history_legal_and_bounded:
  assumes "reachable c f i" and "sane_clock c f" and "Phase (Status i) \<noteq> PhaseUnset"
  defines "others \<equiv> filter (\<lambda>t. t \<noteq> ForceDeleteRookCephOSDPods) (cond_types (Status i))"
  shows "legal_history (cond_types (Status i)) \<and> sorted (map rank (cond_types (Status i))) \<and>
    distinct others \<and> length others \<le> 13"
proof -
  have "legal_history (cond_types (Status i))"
    using reachable_wf [OF assms(1-3)] by (simp add: wf_status_def)
  then show ?thesis
    unfolding others_def using legal_history_sorted legal_history_length by blast
qed

theorem history_legal_and_bounded_witness:
  "legal_history short_path \<and> length short_path = 9 \<and> length short_path \<le> 13"
proof -
  have "Phase (Status completed_recovery) \<noteq> PhaseUnset" "cond_types (Status completed_recovery) = short_path"
    "filter (\<lambda>t. t \<noteq> ForceDeleteRookCephOSDPods) short_path = short_path" "length short_path = 9"
    by code_simp+
  with history_legal_and_bounded [OF reach_completed sample_clock] show ?thesis by simp
qed

text \<open>
  C6. A recovery is marked completed exactly when it has a completion time, and only after
  the fitness check of the storage cluster and then \<open>DisableCephTools\<close> were entered.
\<close>

theorem completed_after_fitness_check:
  assumes "reachable c f i" and "sane_clock c f"
  shows "(Phase (Status i) = CompletedPhase \<longleftrightarrow> CompletionTime (Status i) \<noteq> None) \<and>
    (Phase (Status i) = CompletedPhase \<longrightarrow>
       (\<exists>ts. cond_types (Status i) = ts @ [StorageClusterFitnessCheck, DisableCephTools]))"
proof (cases "Status i = new_status")
  case True
  then show ?thesis by (simp add: new_status_def)
next
  case False
  then have wf: "wf_status (Status i)" using reachable_inv [OF assms] by (simp add: life_inv_def)
  then have "last (cond_types (Status i)) = current_type (Status i)" by (simp add: last_cond_types)
  with wf legal_history_disable [of "cond_types (Status i)"] show ?thesis by (simp add: wf_status_def)
qed

theorem completed_after_fitness_check_witness:
  "Phase (Status completed_recovery) = CompletedPhase \<and> CompletionTime (Status completed_recovery) \<noteq> None \<and>
   (\<exists>ts. short_path = ts @ [StorageClusterFitnessCheck, DisableCephTools])"
proof -
  have "Phase (Status completed_recovery) = CompletedPhase" "cond_types (Status completed_recovery) = short_path"
    by code_simp+
  with completed_after_fitness_check [OF reach_completed sample_clock] show ?thesis by simp
qed

text \<open>
  C7. An object that is being deleted, or whose recovery has failed or completed, is never
  touched again: a run reads it and does nothing else, and is not queued again.
\<close>

theorem ended_recovery_is_final:
  assumes "Get_NodeRecovery c req (world s) = (Inr i, w)"
    and "\<not> IsZero (nr_DeletionTimestamp i) \<or> Phase (Status i) \<in> {FailedPhase, CompletedPhase}"
  shows "controller_Reconcile (wired_controller c) req s =
      (Ok (no_requeue, None), s\<lparr>world := w, trace := trace s @ [GetCall KNodeRecovery req], inst := i\<rparr>) \<and>
    \<not> stores c i i'"
proof -
  have "\<not> stores c i i'"
    using assms(2) by (auto elim!: storesE)
  with controller_run_ended [OF assms] show ?thesis by blast
qed

theorem ended_recovery_is_final_witness:
  "fst (controller_Reconcile (wired_controller sample) recovery_key
      (at_rest (healthy completed_recovery) completed_recovery)) = Ok (no_requeue, None) \<and>
   \<not> stores sample completed_recovery new_recovery"
proof -
  have "nr_Name completed_recovery = ''rec''" "Phase (Status completed_recovery) = CompletedPhase" by code_simp+
  with ended_recovery_is_final [OF sample_get, of healthy completed_recovery new_recovery] show ?thesis by simp
qed

text \<open>
  C8. No recovery is forgotten or queued in vain: when a run on a live recovery returns no
  error, it is queued again if the status it stored is still running, and it is not queued
  again if that status is failed or completed. (With an error the controller's queue retries.)
\<close>

theorem live_run_queued_iff_running:
  assumes "reachable c f i" and "sane_clock c f"
    and "Get_NodeRecovery c req (world s) = (Inr i, w)" and "IsZero (nr_DeletionTimestamp i)"
    and "Phase (Status i) \<noteq> FailedPhase" and "Phase (Status i) \<noteq> CompletedPhase"
    and "controller_Reconcile (wired_controller c) req s = (Ok (res, None), s')"
  shows "\<exists>i'. last (trace s') = UpdateStatus i' \<and>
      (if Phase (Status i') = RunningPhase then Requeue res \<or> 0 < RequeueAfter res
       else Phase (Status i') \<in> {FailedPhase, CompletedPhase} \<and> res = no_requeue)"
proof -
  obtain st0 r i' es1 es2 stored where *: "handled st0 r (Status i')"
    "trace s' = trace s @ GetCall KNodeRecovery req # es1 @ es2 @
       (if \<exists>p. r = Panic p then [] else [UpdateStatus i'])"
    "Ok (res, None) = controller_out r stored"
    by (rule live_run [OF assms])
  from *(3) [symmetric] have "r = Ok res" by (cases r) (auto simp: controller_out_def)
  moreover from this *(1) have "Phase (Status i') \<in> {RunningPhase, FailedPhase, CompletedPhase}"
    by (cases "Phase (Status i')") (auto simp: handled_def wf_status_def)
  ultimately show ?thesis using *(1,2) by (auto simp: handled_def intro!: exI [of _ i'])
qed

theorem live_run_queued_iff_running_witness:
  "\<exists>i'. last (trace (snd (run_in healthy (running_at short_path)))) = UpdateStatus i' \<and>
     Phase (Status i') \<noteq> RunningPhase"
proof -
  have out: "fst (run_in healthy (running_at short_path)) = Ok (no_requeue, None)" by code_simp
  have facts: "IsZero (nr_DeletionTimestamp (running_at short_path))"
    "Phase (Status (running_at short_path)) \<noteq> FailedPhase"
    "Phase (Status (running_at short_path)) \<noteq> CompletedPhase" "take 9 short_path = short_path"
    by code_simp+
  have "controller_Reconcile (wired_controller sample) recovery_key
      (at_rest (healthy (running_at short_path)) (running_at short_path)) =
      (Ok (no_requeue, None), snd (run_in healthy (running_at short_path)))"
    using out by (simp add: run_in_def prod_eq_iff)
  from live_run_queued_iff_running [OF reach_last [unfolded facts(4)] sample_clock sample_get [of healthy, OF sample_recoveries(1) sample_name]
      facts(1-3) this]
  show ?thesis by (auto simp: no_requeue_def split: if_splits)
qed

text \<open>
  C9. A pass of \<open>Reconcile\<close> that returns an error makes no transition: the recorded conditions
  keep their types and transition times, so the clock of the reconciliation timeout keeps
  running, the status stays well-formed, and the recovery does not complete.
\<close>

theorem error_makes_no_transition:
  assumes "wf_status (Status (inst s))" and "Phase (Status (inst s)) = RunningPhase"
    and "Reconcile (wired c) s = (Err e, s')"
  shows "cond_types (Status (inst s')) = cond_types (Status (inst s)) \<and>
    map cond_LastTransitionTime (Conditions (Status (inst s'))) =
      map cond_LastTransitionTime (Conditions (Status (inst s))) \<and>
    wf_status (Status (inst s')) \<and> Phase (Status (inst s')) \<in> {RunningPhase, FailedPhase}"
  using wpD [OF wr.wp_Reconcile [OF assms(1,2)] assms(3)] by (simp add: handled_def stays_def)

theorem error_makes_no_transition_witness:
  "\<exists>e s'. Reconcile (wired sample) (at_rest ((healthy new_recovery)\<lparr>cl_history := []\<rparr>) (running_at [EnableCephToolsPod])) = (Err e, s') \<and>
     cond_types (Status (inst s')) = [EnableCephToolsPod] \<and> wf_status (Status (inst s'))"
proof -
  let ?s = "at_rest ((healthy new_recovery)\<lparr>cl_history := []\<rparr>) (running_at [EnableCephToolsPod])"
  have "fst (Reconcile (wired sample) ?s) = Err (ErrorString ''no valid version found in clusterversion object'')"
    by code_simp
  then obtain s' where run: "Reconcile (wired sample) ?s = (Err (ErrorString ''no valid version found in clusterversion object''), s')"
    by (metis prod.collapse)
  have wf: "wf_status (Status (inst ?s))" and running: "Phase (Status (inst ?s)) = RunningPhase"
    and types: "cond_types (Status (inst ?s)) = [EnableCephToolsPod]"
    by (simp_all add: at_rest_def running_at_def new_status_def sample_condition_def wf_status_def
        conditions_wf_def devices_wf_def)
  show ?thesis using error_makes_no_transition [OF wf running run] run types by auto
qed

text \<open>
  C10. Once the recovery has entered \<open>ForceDeleteRookCephOSDPods\<close> it has recorded at least one
  failing device, and no recorded device is a nil pointer; before that it has recorded none.
  A forced retry of the removal job is only entered with \<open>ForcedOSDRemoval\<close> set.
\<close>

theorem recorded_devices:
  assumes "reachable c f i" and "sane_clock c f"
  shows "None \<notin> set (NodeDevice (Status i)) \<and>
    (if ForceDeleteRookCephOSDPods \<in> set (cond_types (Status i))
     then CrashLoopBackOffPods (Status i) \<and> NodeDevice (Status i) \<noteq> []
     else NodeDevice (Status i) = []) \<and>
    (RetryForceCleanupOSDRemovalJob \<in> set (cond_types (Status i)) \<longrightarrow> ForcedOSDRemoval (Status i))"
  using reachable_inv [OF assms] by (auto simp: life_inv_def wf_status_def devices_wf_def new_status_def)

theorem recorded_devices_witness:
  "NodeDevice (Status (with_device (take 5 short_path @ [ForceDeleteRookCephOSDPods]))) = [Some device_2] \<and>
   CrashLoopBackOffPods (Status (with_device (take 5 short_path @ [ForceDeleteRookCephOSDPods])))"
  using recorded_devices [OF reach_force_delete sample_clock]
  by (simp add: with_device_def running_at_def)

end
